theory Spec2Isabelle
  imports Main "HOL-Library.Word"
begin

unbundle bit_operations_syntax

section \<open>Qualifier model\<close>

text \<open>
  A \<open>Qualifiers\<close> value is one 32-bit mask (\<open>uint32_t Mask\<close>); every query of
  \<open>Qualifiers::isStrictSupersetOf\<close> (Type.cpp, lines 32-45) goes through the mask.

  Modelled from the spec: the bit layout of the mask and its accessors are declared in
  Type.h, which is not among the sources. Section 3 of the specification names the four
  axes that the accessors read: the cv-mask (const, volatile, restrict), the GC
  annotation, the lifetime annotation and the address-space tag. The mask of Type.h
  holds one more bit, the \<open>__unaligned\<close> qualifier, between the cv bits and the GC
  bits:

  \<^item> bits 0-2, the cv bits (\<open>CVRMask\<close>);
  \<^item> bit 3, \<open>__unaligned\<close> (\<open>UMask\<close>);
  \<^item> bits 4-5, the GC annotation (\<open>GCAttrMask\<close>);
  \<^item> bits 6-8, the lifetime annotation (\<open>LifetimeMask\<close>);
  \<^item> bits 9-31, the address space (\<open>AddressSpaceMask\<close>).

  Equality of two qualifier sets (\<open>operator!=\<close>, line 33) is equality of the whole
  masks.
\<close>

datatype Qualifiers = Qualifiers (Mask: "32 word")

definition Const :: "32 word" where "Const = 0x1"
definition Restrict :: "32 word" where "Restrict = 0x2"
definition Volatile :: "32 word" where "Volatile = 0x4"
definition CVRMask :: "32 word" where "CVRMask = Const OR Volatile OR Restrict"

definition UMask :: "32 word" where "UMask = 0x8"
definition UShift :: nat where "UShift = 3"
definition GCAttrMask :: "32 word" where "GCAttrMask = 0x30"
definition GCAttrShift :: nat where "GCAttrShift = 4"
definition LifetimeMask :: "32 word" where "LifetimeMask = 0x1C0"
definition LifetimeShift :: nat where "LifetimeShift = 6"
definition AddressSpaceMask :: "32 word" where
  "AddressSpaceMask = NOT (CVRMask OR UMask OR GCAttrMask OR LifetimeMask)"
definition AddressSpaceShift :: nat where "AddressSpaceShift = 9"

text \<open>The values of \<open>enum ObjCLifetime\<close>, as stored in the lifetime bits.\<close>

definition OCL_None :: "32 word" where "OCL_None = 0"
definition OCL_ExplicitNone :: "32 word" where "OCL_ExplicitNone = 1"
definition OCL_Strong :: "32 word" where "OCL_Strong = 2"
definition OCL_Weak :: "32 word" where "OCL_Weak = 3"
definition OCL_Autoreleasing :: "32 word" where "OCL_Autoreleasing = 4"

definition getCVRQualifiers :: "Qualifiers \<Rightarrow> 32 word" where
  "getCVRQualifiers q = Mask q AND CVRMask"

definition hasUnaligned :: "Qualifiers \<Rightarrow> bool" where
  "hasUnaligned q = (Mask q AND UMask \<noteq> 0)"

definition hasObjCGCAttr :: "Qualifiers \<Rightarrow> bool" where
  "hasObjCGCAttr q = (Mask q AND GCAttrMask \<noteq> 0)"
definition getObjCGCAttr :: "Qualifiers \<Rightarrow> 32 word" where
  "getObjCGCAttr q = drop_bit GCAttrShift (Mask q AND GCAttrMask)"

definition hasObjCLifetime :: "Qualifiers \<Rightarrow> bool" where
  "hasObjCLifetime q = (Mask q AND LifetimeMask \<noteq> 0)"
definition getObjCLifetime :: "Qualifiers \<Rightarrow> 32 word" where
  "getObjCLifetime q = drop_bit LifetimeShift (Mask q AND LifetimeMask)"

definition hasAddressSpace :: "Qualifiers \<Rightarrow> bool" where
  "hasAddressSpace q = (Mask q AND AddressSpaceMask \<noteq> 0)"
definition getAddressSpace :: "Qualifiers \<Rightarrow> 32 word" where
  "getAddressSpace q = drop_bit AddressSpaceShift (Mask q)"

text \<open>\<open>Qualifiers::isStrictSupersetOf\<close>, Type.cpp lines 32-45.\<close>

definition isStrictSupersetOf :: "Qualifiers \<Rightarrow> Qualifiers \<Rightarrow> bool" where
  "isStrictSupersetOf this Other \<longleftrightarrow>
     this \<noteq> Other \<and>
     ((Mask this AND CVRMask) OR (Mask Other AND CVRMask)) = (Mask this AND CVRMask) \<and>
     (getObjCGCAttr this = getObjCGCAttr Other \<or>
        (hasObjCGCAttr this \<and> \<not> hasObjCGCAttr Other)) \<and>
     (getAddressSpace this = getAddressSpace Other \<or>
        (hasAddressSpace this \<and> \<not> hasAddressSpace Other)) \<and>
     (getObjCLifetime this = getObjCLifetime Other \<or>
        (hasObjCLifetime this \<and> \<not> hasObjCLifetime Other))"


text \<open>
  Modelled from the spec: \<open>Qualifiers::hasNonTrivialObjCLifetime\<close> and
  \<open>Qualifiers::addConsistentQualifiers\<close> are declared in Type.h. A lifetime is
  non-trivial when it is neither none nor explicit-none. Section 3: qualifier sets are
  combined by bitwise union, and the GC, lifetime and address-space axes of the two sets
  must be consistent (equal, or one side unset); a violation is an assertion failure.

  A failed assertion (also a cast or a dereference the code does not guard) is the
  error value \<open>AssertionFailure\<close>. \<open>OutOfFuel\<close> is not an error of the program:
  it only marks that a bound on the nesting of declarations, given to a function of this
  model that follows declarations into their fields and bases, was too small.
\<close>

datatype error = AssertionFailure | OutOfFuel

definition bindE :: "error + 'a \<Rightarrow> ('a \<Rightarrow> error + 'b) \<Rightarrow> error + 'b" where
  "bindE m f = (case m of Inl e \<Rightarrow> Inl e | Inr x \<Rightarrow> f x)"

definition emptyQualifiers :: Qualifiers where
  "emptyQualifiers = Qualifiers 0"

definition hasNonTrivialObjCLifetime_Q :: "Qualifiers \<Rightarrow> bool" where
  "hasNonTrivialObjCLifetime_Q q = (OCL_ExplicitNone < getObjCLifetime q)"

definition addQualifiers :: "Qualifiers \<Rightarrow> Qualifiers \<Rightarrow> Qualifiers" where
  "addQualifiers this qs = Qualifiers (Mask this OR Mask qs)"

definition addConsistentQualifiers :: "Qualifiers \<Rightarrow> Qualifiers \<Rightarrow> error + Qualifiers" where
  "addConsistentQualifiers this qs =
     (if \<not> (getAddressSpace this = getAddressSpace qs \<or>
             \<not> hasAddressSpace this \<or> \<not> hasAddressSpace qs) then Inl AssertionFailure
      else if \<not> (getObjCGCAttr this = getObjCGCAttr qs \<or>
             \<not> hasObjCGCAttr this \<or> \<not> hasObjCGCAttr qs) then Inl AssertionFailure
      else if \<not> (getObjCLifetime this = getObjCLifetime qs \<or>
             \<not> hasObjCLifetime this \<or> \<not> hasObjCLifetime qs) then Inl AssertionFailure
      else Inr (Qualifiers (Mask this OR Mask qs)))"

section \<open>Type nodes\<close>

text \<open>
  One constructor per type class of TypeNodes.def, as the switches of Type.cpp name them
  (\<open>Type::Pointer\<close>, \<open>Type::ConstantArray\<close>, ..., and Checked C's
  \<open>Type::TypeVariable\<close>). A qualified type handle is a type node with its local
  qualifiers. Declarations are owned by the declaration storage; a node refers to its
  declaration by an identifier.

  A sugar node holds the type it desugars to: a typedef and an Objective-C type parameter
  hold the underlying type of their declaration, a deduced \<open>auto\<close>, a substituted
  template parameter and a template specialization hold the type stored as their canonical
  type (\<open>None\<close> when the node is its own canonical type). A tag type holds the
  dependence bit that \<open>TagType::TagType\<close> (line 3193) reads from its declaration.
  The builtin kinds are those of BuiltinTypes.def in their order, without the OpenCL image
  kinds; the prefix \<open>BT_\<close> stands for \<open>BuiltinType::\<close>.
\<close>

type_synonym decl_id = nat

datatype BuiltinKind =
    BT_Void | BT_Bool | BT_Char_U | BT_UChar | BT_WChar_U | BT_Char16
  | BT_Char32 | BT_UShort | BT_UInt | BT_ULong | BT_ULongLong | BT_UInt128
  | BT_Char_S | BT_SChar | BT_WChar_S | BT_Short | BT_Int | BT_Long
  | BT_LongLong | BT_Int128 | BT_Half | BT_Float | BT_Double | BT_LongDouble
  | BT_Float16 | BT_Float128 | BT_NullPtr | BT_ObjCId | BT_ObjCClass | BT_ObjCSel
  | BT_OCLSampler | BT_OCLEvent | BT_OCLClkEvent | BT_OCLQueue | BT_OCLReserveID | BT_Dependent
  | BT_Overload | BT_BoundMember | BT_PseudoObject | BT_UnknownAny | BT_BuiltinFn | BT_ARCUnbridgedCast
  | BT_OMPArraySection

text \<open>The position of a kind in the enumeration, for the range checks of the code.\<close>

primrec kindOrd :: "BuiltinKind \<Rightarrow> nat" where
"kindOrd BT_Void = 0"
| "kindOrd BT_Bool = 1"
| "kindOrd BT_Char_U = 2"
| "kindOrd BT_UChar = 3"
| "kindOrd BT_WChar_U = 4"
| "kindOrd BT_Char16 = 5"
| "kindOrd BT_Char32 = 6"
| "kindOrd BT_UShort = 7"
| "kindOrd BT_UInt = 8"
| "kindOrd BT_ULong = 9"
| "kindOrd BT_ULongLong = 10"
| "kindOrd BT_UInt128 = 11"
| "kindOrd BT_Char_S = 12"
| "kindOrd BT_SChar = 13"
| "kindOrd BT_WChar_S = 14"
| "kindOrd BT_Short = 15"
| "kindOrd BT_Int = 16"
| "kindOrd BT_Long = 17"
| "kindOrd BT_LongLong = 18"
| "kindOrd BT_Int128 = 19"
| "kindOrd BT_Half = 20"
| "kindOrd BT_Float = 21"
| "kindOrd BT_Double = 22"
| "kindOrd BT_LongDouble = 23"
| "kindOrd BT_Float16 = 24"
| "kindOrd BT_Float128 = 25"
| "kindOrd BT_NullPtr = 26"
| "kindOrd BT_ObjCId = 27"
| "kindOrd BT_ObjCClass = 28"
| "kindOrd BT_ObjCSel = 29"
| "kindOrd BT_OCLSampler = 30"
| "kindOrd BT_OCLEvent = 31"
| "kindOrd BT_OCLClkEvent = 32"
| "kindOrd BT_OCLQueue = 33"
| "kindOrd BT_OCLReserveID = 34"
| "kindOrd BT_Dependent = 35"
| "kindOrd BT_Overload = 36"
| "kindOrd BT_BoundMember = 37"
| "kindOrd BT_PseudoObject = 38"
| "kindOrd BT_UnknownAny = 39"
| "kindOrd BT_BuiltinFn = 40"
| "kindOrd BT_ARCUnbridgedCast = 41"
| "kindOrd BT_OMPArraySection = 42"

text \<open>An expression is opaque; the type algorithms only read its dependence flags.\<close>

datatype Expr = Expr (isTypeDependent: bool) (isValueDependent: bool)
  (isInstantiationDependent: bool)

datatype ExceptionSpecificationType =
    EST_None | EST_DynamicNone | EST_Dynamic | EST_MSAny | EST_BasicNoexcept
  | EST_ComputedNoexcept | EST_Unevaluated | EST_Uninstantiated | EST_Unparsed

datatype QualType = QualType (getTypePtr: Type) (getLocalQualifiers: Qualifiers)
and Type =
    Builtin BuiltinKind
  | Complex QualType
  | Pointer QualType
  | BlockPointer QualType
  | LValueReference QualType bool
  | RValueReference QualType
  | MemberPointer QualType Type
  | ConstantArray QualType nat
  | IncompleteArray QualType
  | VariableArray QualType Expr
  | DependentSizedArray QualType Expr
  | DependentSizedExtVector QualType Expr
  | DependentAddressSpace QualType Expr
  | Vector QualType nat
  | ExtVector QualType nat
  | FunctionProto QualType "QualType list" ExceptionSpecificationType "QualType list"
  | FunctionNoProto QualType
  | UnresolvedUsing decl_id
  | Paren QualType
  | Typedef decl_id QualType
  | Adjusted QualType QualType
  | Decayed QualType QualType
  | TypeOfExpr Expr QualType
  | TypeOf QualType
  | Decltype Expr QualType
  | UnaryTransform QualType QualType
  | Record decl_id bool
  | Enum decl_id bool
  | Elaborated QualType
  | Attributed nat QualType QualType
  | TemplateTypeParm nat nat "decl_id option"
  | SubstTemplateTypeParm Type QualType
  | SubstTemplateTypeParmPack decl_id
  | TemplateSpecialization decl_id "QualType option" bool
  | Auto "QualType option" bool
  | DeducedTemplateSpecialization "QualType option" bool
  | InjectedClassName decl_id
  | DependentName decl_id
  | DependentTemplateSpecialization decl_id
  | PackExpansion QualType
  | ObjCTypeParam decl_id QualType "decl_id list"
  | ObjCObject QualType "QualType list" "decl_id list" bool
  | ObjCInterface decl_id
  | ObjCObjectPointer QualType
  | Pipe QualType
  | Atomic QualType
  | TypeVariable nat nat

text \<open>\<open>Type::getTypeClass\<close>: the tag of a node.\<close>

datatype TypeClass =
    TC_Builtin | TC_Complex | TC_Pointer | TC_BlockPointer
  | TC_LValueReference | TC_RValueReference | TC_MemberPointer | TC_ConstantArray
  | TC_IncompleteArray | TC_VariableArray | TC_DependentSizedArray | TC_DependentSizedExtVector
  | TC_DependentAddressSpace | TC_Vector | TC_ExtVector | TC_FunctionProto
  | TC_FunctionNoProto | TC_UnresolvedUsing | TC_Paren | TC_Typedef
  | TC_Adjusted | TC_Decayed | TC_TypeOfExpr | TC_TypeOf
  | TC_Decltype | TC_UnaryTransform | TC_Record | TC_Enum
  | TC_Elaborated | TC_Attributed | TC_TemplateTypeParm | TC_SubstTemplateTypeParm
  | TC_SubstTemplateTypeParmPack | TC_TemplateSpecialization | TC_Auto | TC_DeducedTemplateSpecialization
  | TC_InjectedClassName | TC_DependentName | TC_DependentTemplateSpecialization | TC_PackExpansion
  | TC_ObjCTypeParam | TC_ObjCObject | TC_ObjCInterface | TC_ObjCObjectPointer
  | TC_Pipe | TC_Atomic | TC_TypeVariable

primrec getTypeClass :: "Type \<Rightarrow> TypeClass" where
  "getTypeClass (Builtin x1) = TC_Builtin"
| "getTypeClass (Complex x1) = TC_Complex"
| "getTypeClass (Pointer x1) = TC_Pointer"
| "getTypeClass (BlockPointer x1) = TC_BlockPointer"
| "getTypeClass (LValueReference x1 x2) = TC_LValueReference"
| "getTypeClass (RValueReference x1) = TC_RValueReference"
| "getTypeClass (MemberPointer x1 x2) = TC_MemberPointer"
| "getTypeClass (ConstantArray x1 x2) = TC_ConstantArray"
| "getTypeClass (IncompleteArray x1) = TC_IncompleteArray"
| "getTypeClass (VariableArray x1 x2) = TC_VariableArray"
| "getTypeClass (DependentSizedArray x1 x2) = TC_DependentSizedArray"
| "getTypeClass (DependentSizedExtVector x1 x2) = TC_DependentSizedExtVector"
| "getTypeClass (DependentAddressSpace x1 x2) = TC_DependentAddressSpace"
| "getTypeClass (Vector x1 x2) = TC_Vector"
| "getTypeClass (ExtVector x1 x2) = TC_ExtVector"
| "getTypeClass (FunctionProto x1 x2 x3 x4) = TC_FunctionProto"
| "getTypeClass (FunctionNoProto x1) = TC_FunctionNoProto"
| "getTypeClass (UnresolvedUsing x1) = TC_UnresolvedUsing"
| "getTypeClass (Paren x1) = TC_Paren"
| "getTypeClass (Typedef x1 x2) = TC_Typedef"
| "getTypeClass (Adjusted x1 x2) = TC_Adjusted"
| "getTypeClass (Decayed x1 x2) = TC_Decayed"
| "getTypeClass (TypeOfExpr x1 x2) = TC_TypeOfExpr"
| "getTypeClass (TypeOf x1) = TC_TypeOf"
| "getTypeClass (Decltype x1 x2) = TC_Decltype"
| "getTypeClass (UnaryTransform x1 x2) = TC_UnaryTransform"
| "getTypeClass (Record x1 x2) = TC_Record"
| "getTypeClass (Enum x1 x2) = TC_Enum"
| "getTypeClass (Elaborated x1) = TC_Elaborated"
| "getTypeClass (Attributed x1 x2 x3) = TC_Attributed"
| "getTypeClass (TemplateTypeParm x1 x2 x3) = TC_TemplateTypeParm"
| "getTypeClass (SubstTemplateTypeParm x1 x2) = TC_SubstTemplateTypeParm"
| "getTypeClass (SubstTemplateTypeParmPack x1) = TC_SubstTemplateTypeParmPack"
| "getTypeClass (TemplateSpecialization x1 x2 x3) = TC_TemplateSpecialization"
| "getTypeClass (Auto x1 x2) = TC_Auto"
| "getTypeClass (DeducedTemplateSpecialization x1 x2) = TC_DeducedTemplateSpecialization"
| "getTypeClass (InjectedClassName x1) = TC_InjectedClassName"
| "getTypeClass (DependentName x1) = TC_DependentName"
| "getTypeClass (DependentTemplateSpecialization x1) = TC_DependentTemplateSpecialization"
| "getTypeClass (PackExpansion x1) = TC_PackExpansion"
| "getTypeClass (ObjCTypeParam x1 x2 x3) = TC_ObjCTypeParam"
| "getTypeClass (ObjCObject x1 x2 x3 x4) = TC_ObjCObject"
| "getTypeClass (ObjCInterface x1) = TC_ObjCInterface"
| "getTypeClass (ObjCObjectPointer x1) = TC_ObjCObjectPointer"
| "getTypeClass (Pipe x1) = TC_Pipe"
| "getTypeClass (Atomic x1) = TC_Atomic"
| "getTypeClass (TypeVariable x1 x2) = TC_TypeVariable"

text \<open>\<open>QualType(T, 0)\<close>: the handle of a node without local qualifiers.\<close>

definition unqualified :: "Type \<Rightarrow> QualType" where
  "unqualified T = QualType T emptyQualifiers"

text \<open>
  The dependence bit of a node, as its constructor computes it. The constructors of
  Type.cpp are followed line by line (\<open>VectorType\<close> 209, \<open>ObjCTypeParamType\<close> 568,
  \<open>ObjCObjectType\<close> 580, \<open>FunctionProtoType\<close> 2853, \<open>TypeOfExprType\<close> 3122,
  \<open>DecltypeType\<close> 3146, \<open>UnaryTransformType\<close> 3175, \<open>TagType\<close> 3193,
  \<open>SubstTemplateTypeParmPackType\<close> 3343, \<open>TemplateSpecializationType\<close> 3392,
  \<open>DependentSizedArrayType\<close> 138, \<open>DependentSizedExtVectorType\<close> 161,
  \<open>DependentAddressSpaceType\<close> 185).

  Modelled from the spec: the other constructors are in Type.h. Section 3: the flag is
  computed at construction and propagated from the children. A constructor that receives
  the flag from the canonical type (\<open>can->isDependentType()\<close>) reads it here from the
  type the node desugars to, whose canonical type it shares. For a function prototype,
  the clauses on a C++17 exception specification kept in the canonical type are left out:
  the canonical function type of this model carries no exception specification.
\<close>

primrec isDependentType_QualType :: "QualType \<Rightarrow> bool"
  and isDependentType :: "Type \<Rightarrow> bool" where
  "isDependentType_QualType (QualType T Q) = isDependentType T"
| "isDependentType (Builtin K) = (K = BT_Dependent)"
| "isDependentType (Complex E) = isDependentType_QualType E"
| "isDependentType (Pointer P) = isDependentType_QualType P"
| "isDependentType (BlockPointer P) = isDependentType_QualType P"
| "isDependentType (LValueReference P S) = isDependentType_QualType P"
| "isDependentType (RValueReference P) = isDependentType_QualType P"
| "isDependentType (MemberPointer P Cls) = (isDependentType Cls \<or> isDependentType_QualType P)"
| "isDependentType (ConstantArray E N) = isDependentType_QualType E"
| "isDependentType (IncompleteArray E) = isDependentType_QualType E"
| "isDependentType (VariableArray E X) = isDependentType_QualType E"
| "isDependentType (DependentSizedArray E X) = True"
| "isDependentType (DependentSizedExtVector E X) = True"
| "isDependentType (DependentAddressSpace E X) = True"
| "isDependentType (Vector E N) = isDependentType_QualType E"
| "isDependentType (ExtVector E N) = isDependentType_QualType E"
| "isDependentType (FunctionProto R Ps EST Exs) =
     (isDependentType_QualType R \<or> list_ex (\<lambda>b. b) (map isDependentType_QualType Ps))"
| "isDependentType (FunctionNoProto R) = False"
| "isDependentType (UnresolvedUsing D) = True"
| "isDependentType (Paren I) = isDependentType_QualType I"
| "isDependentType (Typedef D U) = isDependentType_QualType U"
| "isDependentType (Adjusted Orig Adj) = isDependentType_QualType Orig"
| "isDependentType (Decayed Orig Adj) = isDependentType_QualType Orig"
| "isDependentType (TypeOfExpr E U) = isTypeDependent E"
| "isDependentType (TypeOf U) = isDependentType_QualType U"
| "isDependentType (Decltype E U) = isInstantiationDependent E"
| "isDependentType (UnaryTransform B U) = isDependentType_QualType B"
| "isDependentType (Record D Dep) = Dep"
| "isDependentType (Enum D Dep) = Dep"
| "isDependentType (Elaborated N) = isDependentType_QualType N"
| "isDependentType (Attributed K M Eq) = isDependentType_QualType Eq"
| "isDependentType (TemplateTypeParm Depth Idx D) = True"
| "isDependentType (SubstTemplateTypeParm Par R) = isDependentType_QualType R"
| "isDependentType (SubstTemplateTypeParmPack D) = True"
| "isDependentType (TemplateSpecialization N Canon Alias) =
     (case map_option isDependentType_QualType Canon of None \<Rightarrow> True | Some b \<Rightarrow> b)"
| "isDependentType (Auto Deduced IsDep) =
     (IsDep \<or> (case map_option isDependentType_QualType Deduced of
                  None \<Rightarrow> False | Some b \<Rightarrow> b))"
| "isDependentType (DeducedTemplateSpecialization Deduced IsDep) =
     (IsDep \<or> (case map_option isDependentType_QualType Deduced of
                  None \<Rightarrow> False | Some b \<Rightarrow> b))"
| "isDependentType (InjectedClassName D) = True"
| "isDependentType (DependentName D) = True"
| "isDependentType (DependentTemplateSpecialization D) = True"
| "isDependentType (PackExpansion P) = isDependentType_QualType P"
| "isDependentType (ObjCTypeParam D U Protos) = isDependentType_QualType U"
| "isDependentType (ObjCObject B Args Protos K) =
     (isDependentType_QualType B \<or> list_ex (\<lambda>b. b) (map isDependentType_QualType Args))"
| "isDependentType (ObjCInterface D) = False"
| "isDependentType (ObjCObjectPointer P) = isDependentType_QualType P"
| "isDependentType (Pipe E) = isDependentType_QualType E"
| "isDependentType (Atomic V) = isDependentType_QualType V"
| "isDependentType (TypeVariable Depth Idx) = False"

subsection \<open>Canonical types\<close>

text \<open>
  Modelled from the spec: the canonical type of a node is computed by the interning
  collaborator (ASTContext), whose code is not among the sources, and stored in the node
  (\<open>Type::CanonicalType\<close>). Section 3: it is the unique, sugar-free representative of
  the node's equivalence class, and canonical nodes are self-canonical. Here it is
  computed from the node: a sugar node has the canonical type of the type it desugars
  to, a structural node has canonical children, and a dependent node that is not sugar is
  its own canonical type (so is a template specialization that is not sugar: one that
  is dependent, does not name the current instantiation and is not an alias). The
  qualifiers of an array's element type belong to the canonical array type itself, so
  that an array of \<open>const T\<close> is a \<open>const\<close> array of \<open>T\<close>; the canonical
  function type carries no exception specification.
\<close>

definition withQualifiers :: "QualType \<Rightarrow> Qualifiers \<Rightarrow> QualType" where
  "withQualifiers T Q = QualType (getTypePtr T) (addQualifiers (getLocalQualifiers T) Q)"

primrec getCanonicalType :: "QualType \<Rightarrow> QualType"
  and getCanonicalTypeInternal :: "Type \<Rightarrow> QualType" where
  "getCanonicalType (QualType T Q) = withQualifiers (getCanonicalTypeInternal T) Q"
| "getCanonicalTypeInternal (Builtin K) = unqualified (Builtin K)"
| "getCanonicalTypeInternal (Complex E) = unqualified (Complex (getCanonicalType E))"
| "getCanonicalTypeInternal (Pointer P) = unqualified (Pointer (getCanonicalType P))"
| "getCanonicalTypeInternal (BlockPointer P) = unqualified (BlockPointer (getCanonicalType P))"
| "getCanonicalTypeInternal (LValueReference P S) =
     unqualified (LValueReference (getCanonicalType P) True)"
| "getCanonicalTypeInternal (RValueReference P) =
     unqualified (RValueReference (getCanonicalType P))"
| "getCanonicalTypeInternal (MemberPointer P Cls) =
     unqualified (MemberPointer (getCanonicalType P) (getTypePtr (getCanonicalTypeInternal Cls)))"
| "getCanonicalTypeInternal (ConstantArray E N) =
     QualType (ConstantArray (unqualified (getTypePtr (getCanonicalType E))) N)
       (getLocalQualifiers (getCanonicalType E))"
| "getCanonicalTypeInternal (IncompleteArray E) =
     QualType (IncompleteArray (unqualified (getTypePtr (getCanonicalType E))))
       (getLocalQualifiers (getCanonicalType E))"
| "getCanonicalTypeInternal (VariableArray E X) =
     QualType (VariableArray (unqualified (getTypePtr (getCanonicalType E))) X)
       (getLocalQualifiers (getCanonicalType E))"
| "getCanonicalTypeInternal (DependentSizedArray E X) =
     QualType (DependentSizedArray (unqualified (getTypePtr (getCanonicalType E))) X)
       (getLocalQualifiers (getCanonicalType E))"
| "getCanonicalTypeInternal (DependentSizedExtVector E X) =
     unqualified (DependentSizedExtVector (getCanonicalType E) X)"
| "getCanonicalTypeInternal (DependentAddressSpace E X) =
     unqualified (DependentAddressSpace (getCanonicalType E) X)"
| "getCanonicalTypeInternal (Vector E N) = unqualified (Vector (getCanonicalType E) N)"
| "getCanonicalTypeInternal (ExtVector E N) = unqualified (ExtVector (getCanonicalType E) N)"
| "getCanonicalTypeInternal (FunctionProto R Ps EST Exs) =
     unqualified (FunctionProto (getCanonicalType R) (map getCanonicalType Ps) EST_None [])"
| "getCanonicalTypeInternal (FunctionNoProto R) =
     unqualified (FunctionNoProto (getCanonicalType R))"
| "getCanonicalTypeInternal (UnresolvedUsing D) = unqualified (UnresolvedUsing D)"
| "getCanonicalTypeInternal (Paren I) = getCanonicalType I"
| "getCanonicalTypeInternal (Typedef D U) = getCanonicalType U"
| "getCanonicalTypeInternal (Adjusted Orig Adj) = getCanonicalType Adj"
| "getCanonicalTypeInternal (Decayed Orig Adj) = getCanonicalType Adj"
| "getCanonicalTypeInternal (TypeOfExpr E U) =
     (if isTypeDependent E then unqualified (TypeOfExpr E U) else getCanonicalType U)"
| "getCanonicalTypeInternal (TypeOf U) = getCanonicalType U"
| "getCanonicalTypeInternal (Decltype E U) =
     (if isInstantiationDependent E then unqualified (Decltype E U) else getCanonicalType U)"
| "getCanonicalTypeInternal (UnaryTransform B U) =
     (if isDependentType_QualType B then unqualified (UnaryTransform B U)
      else getCanonicalType U)"
| "getCanonicalTypeInternal (Record D Dep) = unqualified (Record D Dep)"
| "getCanonicalTypeInternal (Enum D Dep) = unqualified (Enum D Dep)"
| "getCanonicalTypeInternal (Elaborated N) = getCanonicalType N"
| "getCanonicalTypeInternal (Attributed K M Eq) = getCanonicalType Eq"
| "getCanonicalTypeInternal (TemplateTypeParm Depth Idx D) =
     unqualified (TemplateTypeParm Depth Idx None)"
| "getCanonicalTypeInternal (SubstTemplateTypeParm Par R) = getCanonicalType R"
| "getCanonicalTypeInternal (SubstTemplateTypeParmPack D) =
     unqualified (SubstTemplateTypeParmPack D)"
| "getCanonicalTypeInternal (TemplateSpecialization N Canon Alias) =
     (case map_option getCanonicalType Canon of
        None \<Rightarrow> unqualified (TemplateSpecialization N Canon Alias)
      | Some C \<Rightarrow>
          if \<not> isDependentType (TemplateSpecialization N Canon Alias) \<or>
             getTypeClass (getTypePtr C) = TC_InjectedClassName \<or> Alias
          then C else unqualified (TemplateSpecialization N Canon Alias))"
| "getCanonicalTypeInternal (Auto Deduced IsDep) =
     (case map_option getCanonicalType Deduced of
        None \<Rightarrow> unqualified (Auto None IsDep) | Some C \<Rightarrow> C)"
| "getCanonicalTypeInternal (DeducedTemplateSpecialization Deduced IsDep) =
     (case map_option getCanonicalType Deduced of
        None \<Rightarrow> unqualified (DeducedTemplateSpecialization None IsDep) | Some C \<Rightarrow> C)"
| "getCanonicalTypeInternal (InjectedClassName D) = unqualified (InjectedClassName D)"
| "getCanonicalTypeInternal (DependentName D) = unqualified (DependentName D)"
| "getCanonicalTypeInternal (DependentTemplateSpecialization D) =
     unqualified (DependentTemplateSpecialization D)"
| "getCanonicalTypeInternal (PackExpansion P) = unqualified (PackExpansion (getCanonicalType P))"
| "getCanonicalTypeInternal (ObjCTypeParam D U Protos) = getCanonicalType U"
| "getCanonicalTypeInternal (ObjCObject B Args Protos K) =
     unqualified (ObjCObject (getCanonicalType B) (map getCanonicalType Args) Protos K)"
| "getCanonicalTypeInternal (ObjCInterface D) = unqualified (ObjCInterface D)"
| "getCanonicalTypeInternal (ObjCObjectPointer P) =
     unqualified (ObjCObjectPointer (getCanonicalType P))"
| "getCanonicalTypeInternal (Pipe E) = unqualified (Pipe (getCanonicalType E))"
| "getCanonicalTypeInternal (Atomic V) = unqualified (Atomic (getCanonicalType V))"
| "getCanonicalTypeInternal (TypeVariable Depth Idx) = unqualified (TypeVariable Depth Idx)"

text \<open>\<open>Type::isCanonicalUnqualified\<close>: the node is its own canonical type.\<close>

definition isCanonicalUnqualified :: "Type \<Rightarrow> bool" where
  "isCanonicalUnqualified T = (getCanonicalTypeInternal T = unqualified T)"

text \<open>
  \<open>QualType::getQualifiers\<close>: the qualifiers of the canonical type together with the
  local ones.
\<close>

definition getQualifiers :: "QualType \<Rightarrow> Qualifiers" where
  "getQualifiers T =
     addQualifiers (getLocalQualifiers (getCanonicalTypeInternal (getTypePtr T)))
       (getLocalQualifiers T)"

definition hasNonTrivialObjCLifetime :: "QualType \<Rightarrow> bool" where
  "hasNonTrivialObjCLifetime T = hasNonTrivialObjCLifetime_Q (getQualifiers T)"

lemma getTypePtr_withQualifiers [simp]: "getTypePtr (withQualifiers T Q) = getTypePtr T"
  by (simp add: withQualifiers_def)

lemma getTypePtr_unqualified [simp]: "getTypePtr (unqualified T) = T"
  by (simp add: unqualified_def)

lemma size_QualType_eq: "size Q = Suc (size (getTypePtr Q))"
  by (cases Q) simp

lemma size_list_map_le:
  "(\<And>x. x \<in> set xs \<Longrightarrow> size (f x) \<le> size x) \<Longrightarrow>
   size_list size (map f xs) \<le> size_list size xs"
  by (induction xs) (auto simp: add_mono)

text \<open>Canonicalisation removes sugar and never adds a node.\<close>

lemma size_canonical:
  "size (getTypePtr (getCanonicalType Q)) \<le> size (getTypePtr Q)"
  "size (getTypePtr (getCanonicalTypeInternal T)) \<le> size T"
proof (induction Q and T)
  case (FunctionProto R Ps EST Exs)
  have 1: "size_list size (map getCanonicalType Ps) \<le> size_list size Ps"
    by (rule size_list_map_le) (use FunctionProto in \<open>simp add: size_QualType_eq\<close>)
  have 2: "size (getCanonicalType R) \<le> size R"
    using FunctionProto by (simp add: size_QualType_eq)
  from 1 2 show ?case by simp
next
  case (ObjCObject B Args Protos K)
  have 1: "size_list size (map getCanonicalType Args) \<le> size_list size Args"
    by (rule size_list_map_le) (use ObjCObject in \<open>simp add: size_QualType_eq\<close>)
  have 2: "size (getCanonicalType B) \<le> size B"
    using ObjCObject by (simp add: size_QualType_eq)
  from 1 2 show ?case by simp
qed (auto simp: size_QualType_eq split: option.splits)

subsection \<open>Sugar and desugaring\<close>

text \<open>
  \<open>isSugared\<close> and \<open>desugar\<close> of each type class. Those of \<open>TypedefType\<close>,
  \<open>TypeOfExprType\<close> and \<open>DecltypeType\<close> are in Type.cpp (lines 3118-3165).

  Modelled from the spec: the others are declared inline in Type.h. Section 4.2: a
  transition strips one sugar layer (typedef expansion, decltype resolution, attribute
  unwrapping, paren removal); a node whose shape reports itself as non-sugared is
  terminal, and dependent shapes are never sugar. A deduced \<open>auto\<close>, a substituted
  template parameter and a template specialization desugar to their canonical type. A
  template specialization is sugar when it is not dependent, names the current
  instantiation or is an alias; an alias always has an aliased type.
\<close>

definition isCurrentInstantiation :: "Type \<Rightarrow> bool" where
  "isCurrentInstantiation T =
     (getTypeClass (getTypePtr (getCanonicalTypeInternal T)) = TC_InjectedClassName)"

definition isTypeAlias :: "Type \<Rightarrow> bool" where
  "isTypeAlias T =
     (case T of TemplateSpecialization N Canon Alias \<Rightarrow> Alias \<and> Canon \<noteq> None
      | _ \<Rightarrow> False)"

definition isSugared :: "Type \<Rightarrow> bool" where
  "isSugared T =
     (case T of
        Paren I \<Rightarrow> True
      | Typedef D U \<Rightarrow> True
      | Adjusted Orig Adj \<Rightarrow> True
      | Decayed Orig Adj \<Rightarrow> True
      | TypeOfExpr E U \<Rightarrow> \<not> isTypeDependent E
      | TypeOf U \<Rightarrow> True
      | Decltype E U \<Rightarrow> \<not> isInstantiationDependent E
      | UnaryTransform B U \<Rightarrow> \<not> isDependentType T
      | Elaborated N \<Rightarrow> True
      | Attributed K M Eq \<Rightarrow> True
      | SubstTemplateTypeParm Par R \<Rightarrow> True
      | TemplateSpecialization N Canon Alias \<Rightarrow>
          \<not> isDependentType T \<or> isCurrentInstantiation T \<or> isTypeAlias T
      | Auto Deduced IsDep \<Rightarrow> \<not> isCanonicalUnqualified T
      | DeducedTemplateSpecialization Deduced IsDep \<Rightarrow> \<not> isCanonicalUnqualified T
      | ObjCTypeParam D U Protos \<Rightarrow> True
      | _ \<Rightarrow> False)"

definition desugar :: "Type \<Rightarrow> QualType" where
  "desugar T =
     (case T of
        Paren I \<Rightarrow> I
      | Typedef D U \<Rightarrow> U
      | Adjusted Orig Adj \<Rightarrow> Adj
      | Decayed Orig Adj \<Rightarrow> Adj
      | TypeOfExpr E U \<Rightarrow> (if isSugared T then U else unqualified T)
      | TypeOf U \<Rightarrow> U
      | Decltype E U \<Rightarrow> (if isSugared T then U else unqualified T)
      | UnaryTransform B U \<Rightarrow> U
      | Elaborated N \<Rightarrow> N
      | Attributed K M Eq \<Rightarrow> Eq
      | SubstTemplateTypeParm Par R \<Rightarrow> getCanonicalTypeInternal T
      | TemplateSpecialization N Canon Alias \<Rightarrow> getCanonicalTypeInternal T
      | Auto Deduced IsDep \<Rightarrow> getCanonicalTypeInternal T
      | DeducedTemplateSpecialization Deduced IsDep \<Rightarrow> getCanonicalTypeInternal T
      | ObjCTypeParam D U Protos \<Rightarrow> U
      | _ \<Rightarrow> unqualified T)"

text \<open>A sugar layer is a proper part of the node that wraps it.\<close>

lemma desugar_smaller:
  "isSugared T \<Longrightarrow> size (getTypePtr (desugar T)) < size T"
proof (cases T)
  case (TemplateSpecialization N Canon Alias)
  assume s: "isSugared T"
  with TemplateSpecialization obtain C where c: "Canon = Some C"
    by (cases Canon)
      (auto simp: isSugared_def isCurrentInstantiation_def isTypeAlias_def unqualified_def)
  from s c TemplateSpecialization
  have "getCanonicalTypeInternal T = getCanonicalType C"
    by (auto simp: isSugared_def isCurrentInstantiation_def isTypeAlias_def
        split: if_splits)
  with TemplateSpecialization show ?thesis
    using size_canonical(1) [of C] c by (simp add: desugar_def size_QualType_eq)
next
  case (Auto Deduced IsDep)
  assume "isSugared T"
  with Auto obtain C where "Deduced = Some C"
    by (cases Deduced) (auto simp: isSugared_def isCanonicalUnqualified_def)
  with Auto show ?thesis
    using size_canonical(1) [of C] by (simp add: desugar_def size_QualType_eq)
next
  case (DeducedTemplateSpecialization Deduced IsDep)
  assume "isSugared T"
  with DeducedTemplateSpecialization obtain C where "Deduced = Some C"
    by (cases Deduced) (auto simp: isSugared_def isCanonicalUnqualified_def)
  with DeducedTemplateSpecialization show ?thesis
    using size_canonical(1) [of C] by (simp add: desugar_def size_QualType_eq)
next
  case (SubstTemplateTypeParm Par R)
  then show ?thesis
    using size_canonical(1) [of R] by (simp add: desugar_def size_QualType_eq)
qed (auto simp: isSugared_def desugar_def size_QualType_eq)

text \<open>
  Modelled from the spec: \<open>QualifierCollector::strip\<close> and
  \<open>ASTContext::getQualifiedType\<close> are not among the sources. Section 3: the fast
  qualifiers (the cv bits) are stored in the handle and the extended qualifiers out of
  line; section 4.2: the qualifiers picked up from each layer are merged under the
  consistent-merge rule, which asserts consistency.
\<close>

definition FastMask :: "32 word" where "FastMask = 7"

datatype SplitQualType = SplitQualType (Ty: Type) (Quals: Qualifiers)

definition strip :: "Qualifiers \<Rightarrow> QualType \<Rightarrow> error + (Qualifiers \<times> Type)" where
  "strip Qs T =
     (let Q = getLocalQualifiers T;
          Qs1 = addQualifiers Qs (Qualifiers (Mask Q AND FastMask))
      in if Mask Q AND NOT FastMask = 0 then Inr (Qs1, getTypePtr T)
         else bindE (addConsistentQualifiers Qs1 (Qualifiers (Mask Q AND NOT FastMask)))
                (\<lambda>Qs2. Inr (Qs2, getTypePtr T)))"

definition getQualifiedType :: "Type \<Rightarrow> Qualifiers \<Rightarrow> QualType" where
  "getQualifiedType T Qs = QualType T Qs"

lemma strip_Inr: "strip Qs Cur = Inr (Qs', CurTy) \<Longrightarrow> CurTy = getTypePtr Cur"
  by (auto simp: strip_def Let_def bindE_def split: if_splits sum.splits)

text \<open>\<open>Type::getLocallyUnqualifiedSingleStepDesugaredType\<close>, lines 257-269.\<close>

definition getLocallyUnqualifiedSingleStepDesugaredType :: "Type \<Rightarrow> QualType" where
  "getLocallyUnqualifiedSingleStepDesugaredType T =
     (if \<not> isSugared T then unqualified T else desugar T)"

text \<open>
  \<open>QualType::getSplitDesugaredType\<close>, lines 271-290: the loop carries the collected
  qualifiers \<open>Qs\<close> and the current type \<open>Cur\<close>.
\<close>

function getSplitDesugaredType_loop :: "Qualifiers \<Rightarrow> QualType \<Rightarrow> error + SplitQualType" where
  "getSplitDesugaredType_loop Qs Cur =
     (case strip Qs Cur of
        Inl e \<Rightarrow> Inl e
      | Inr (Qs', CurTy) \<Rightarrow>
          if \<not> isSugared CurTy then Inr (SplitQualType CurTy Qs')
          else getSplitDesugaredType_loop Qs' (desugar CurTy))"
  by pat_completeness auto
termination
proof (relation "measure (\<lambda>(Qs, Cur). size (getTypePtr Cur))")
  show "wf (measure (\<lambda>(Qs, Cur). size (getTypePtr Cur)))" by simp
next
  fix Qs Cur x2 Qs' CurTy
  assume "strip Qs Cur = Inr x2" "(Qs', CurTy) = x2" "\<not> \<not> isSugared CurTy"
  then show "((Qs', desugar CurTy), Qs, Cur) \<in> measure (\<lambda>(Qs, Cur). size (getTypePtr Cur))"
    using strip_Inr [of Qs Cur Qs' CurTy] desugar_smaller [of CurTy] by simp
qed

definition getSplitDesugaredType :: "QualType \<Rightarrow> error + SplitQualType" where
  "getSplitDesugaredType T = getSplitDesugaredType_loop emptyQualifiers T"

text \<open>\<open>QualType::getDesugaredType\<close>, lines 245-248.\<close>

definition getDesugaredType :: "QualType \<Rightarrow> error + QualType" where
  "getDesugaredType T =
     bindE (getSplitDesugaredType T)
       (\<lambda>split. Inr (getQualifiedType (Ty split) (Quals split)))"

text \<open>\<open>Type::getUnqualifiedDesugaredType\<close>, lines 374-390.\<close>

function getUnqualifiedDesugaredType :: "Type \<Rightarrow> Type" where
  "getUnqualifiedDesugaredType Cur =
     (if \<not> isSugared Cur then Cur
      else getUnqualifiedDesugaredType (getTypePtr (desugar Cur)))"
  by pat_completeness auto
termination
  by (relation "measure size") (auto simp: desugar_smaller)

declare getSplitDesugaredType_loop.simps [simp del]
declare getUnqualifiedDesugaredType.simps [simp del]

subsection \<open>Canonical types are canonical\<close>

lemma addQualifiers_empty [simp]:
  "addQualifiers Q emptyQualifiers = Q" "addQualifiers emptyQualifiers Q = Q"
  by (cases Q; simp add: addQualifiers_def emptyQualifiers_def)+

lemma withQualifiers_empty [simp]: "withQualifiers T emptyQualifiers = T"
  by (cases T) (simp add: withQualifiers_def)

lemma getCanonicalType_eq:
  "getCanonicalType Q = withQualifiers (getCanonicalTypeInternal (getTypePtr Q)) (getLocalQualifiers Q)"
  by (cases Q) simp

lemma getLocalQualifiers_unqualified [simp]:
  "getLocalQualifiers (unqualified T) = emptyQualifiers"
  by (simp add: unqualified_def)

lemma unqualified_eq: "QualType T emptyQualifiers = unqualified T"
  by (simp add: unqualified_def)

lemma withQualifiers_unqualified [simp]: "withQualifiers (unqualified T) Q = QualType T Q"
  by (simp add: withQualifiers_def unqualified_def)

lemma canonical_idem_aux:
  "getCanonicalTypeInternal (getTypePtr (getCanonicalType Q))
     = unqualified (getTypePtr (getCanonicalType Q)) \<Longrightarrow>
   getCanonicalType (getCanonicalType Q) = getCanonicalType Q"
  by (simp add: getCanonicalType_eq [of "getCanonicalType _"])

lemma canonical_node_idem:
  "getCanonicalTypeInternal (getTypePtr (getCanonicalType Q))
     = unqualified (getTypePtr (getCanonicalType Q))"
  "getCanonicalTypeInternal (getTypePtr (getCanonicalTypeInternal T))
     = unqualified (getTypePtr (getCanonicalTypeInternal T))"
proof (induction Q and T)
  case (FunctionProto R Ps EST Exs)
  have "map getCanonicalType (map getCanonicalType Ps) = map getCanonicalType Ps"
    using FunctionProto by (simp add: canonical_idem_aux)
  with FunctionProto show ?case
    by (simp del: map_map add: canonical_idem_aux)
next
  case (ObjCObject B Args Protos K)
  have "map getCanonicalType (map getCanonicalType Args) = map getCanonicalType Args"
    using ObjCObject by (simp add: canonical_idem_aux)
  with ObjCObject show ?case
    by (simp del: map_map add: canonical_idem_aux)
qed (auto simp: canonical_idem_aux getCanonicalType_eq [of "unqualified _"] unqualified_eq
      split: option.splits)

lemma canonical_idem: "getCanonicalType (getCanonicalType Q) = getCanonicalType Q"
  by (simp add: canonical_idem_aux canonical_node_idem)

text \<open>
  A node that is not sugar has the class of its canonical type, a sugar node shares the
  canonical type of the type it desugars to; so the fully desugared node has the class of
  the canonical type ("an object of the same dynamic type as the canonical type", line
  373), and the casts of \<open>getAs\<close> below cannot fail.
\<close>

lemma class_not_sugared:
  "\<not> isSugared T \<Longrightarrow> getTypeClass (getTypePtr (getCanonicalTypeInternal T)) = getTypeClass T"
  by (cases T)
    (auto simp: isSugared_def isCanonicalUnqualified_def isCurrentInstantiation_def
      isTypeAlias_def split: option.splits if_splits)

lemma canonical_desugar:
  "isSugared T \<Longrightarrow>
   getTypePtr (getCanonicalTypeInternal (getTypePtr (desugar T)))
     = getTypePtr (getCanonicalTypeInternal T)"
  by (cases T)
    (auto simp: isSugared_def desugar_def getCanonicalType_eq canonical_node_idem
      isCanonicalUnqualified_def isCurrentInstantiation_def isTypeAlias_def
      split: option.splits if_splits)

lemma class_desugared:
  "getTypeClass (getUnqualifiedDesugaredType T)
     = getTypeClass (getTypePtr (getCanonicalTypeInternal T))"
proof (induction T rule: getUnqualifiedDesugaredType.induct)
  case (1 Cur)
  show ?case
  proof (cases "isSugared Cur")
    case True
    with 1 show ?thesis
      by (subst getUnqualifiedDesugaredType.simps) (simp add: canonical_desugar)
  next
    case False
    then show ?thesis
      by (subst getUnqualifiedDesugaredType.simps) (simp add: class_not_sugared)
  qed
qed

subsection \<open>Classes of nodes and \<open>getAs\<close>\<close>

text \<open>
  Modelled from the spec: the class hierarchy (\<open>ArrayType\<close>, \<open>FunctionType\<close>, ...),
  the template \<open>Type::getAs\<close>, \<open>Type::getAsArrayTypeUnsafe\<close> and
  \<open>Type::getBaseElementTypeUnsafe\<close> are declared in Type.h. Section 4.2: a search for
  a node of kind X looks at the node itself, rejects a type whose canonical form is not
  of that kind, and otherwise strips the sugar. The base element type of an array is
  reached by stripping array layers.
\<close>

definition canonicalClass :: "Type \<Rightarrow> TypeClass" where
  "canonicalClass T = getTypeClass (getTypePtr (getCanonicalTypeInternal T))"

definition ArrayType :: "TypeClass set" where
  "ArrayType = {TC_ConstantArray, TC_IncompleteArray, TC_VariableArray, TC_DependentSizedArray}"
definition FunctionType :: "TypeClass set" where
  "FunctionType = {TC_FunctionProto, TC_FunctionNoProto}"
definition ReferenceType :: "TypeClass set" where
  "ReferenceType = {TC_LValueReference, TC_RValueReference}"
definition TagType :: "TypeClass set" where
  "TagType = {TC_Record, TC_Enum}"
definition VectorType :: "TypeClass set" where
  "VectorType = {TC_Vector, TC_ExtVector}"
definition ObjCObjectType :: "TypeClass set" where
  "ObjCObjectType = {TC_ObjCObject, TC_ObjCInterface}"

definition getAs :: "TypeClass set \<Rightarrow> Type \<Rightarrow> Type option" where
  "getAs Cs T =
     (if getTypeClass T \<in> Cs then Some T
      else if canonicalClass T \<notin> Cs then None
      else Some (getUnqualifiedDesugaredType T))"

definition getAsArrayTypeUnsafe :: "Type \<Rightarrow> Type option" where
  "getAsArrayTypeUnsafe T = getAs ArrayType T"

definition getElementType :: "Type \<Rightarrow> QualType option" where
  "getElementType T =
     (case T of
        ConstantArray E N \<Rightarrow> Some E
      | IncompleteArray E \<Rightarrow> Some E
      | VariableArray E X \<Rightarrow> Some E
      | DependentSizedArray E X \<Rightarrow> Some E
      | _ \<Rightarrow> None)"

lemma getAs_class: "getAs Cs T = Some D \<Longrightarrow> getTypeClass D \<in> Cs"
  by (auto simp: getAs_def canonicalClass_def class_desugared split: if_splits)

lemma size_getUnqualifiedDesugaredType: "size (getUnqualifiedDesugaredType T) \<le> size T"
proof (induction T rule: getUnqualifiedDesugaredType.induct)
  case (1 Cur)
  show ?case
  proof (cases "isSugared Cur")
    case True
    with 1 desugar_smaller [of Cur] show ?thesis
      by (subst getUnqualifiedDesugaredType.simps) simp
  next
    case False
    then show ?thesis by (subst getUnqualifiedDesugaredType.simps) simp
  qed
qed

lemma size_getAs: "getAs Cs T = Some D \<Longrightarrow> size D \<le> size T"
  by (auto simp: getAs_def size_getUnqualifiedDesugaredType split: if_splits)

lemma size_getElementType: "getElementType A = Some E \<Longrightarrow> size (getTypePtr E) < size A"
  by (cases A) (auto simp: getElementType_def size_QualType_eq)

function getBaseElementTypeUnsafe :: "Type \<Rightarrow> Type" where
  "getBaseElementTypeUnsafe T =
     (case getAsArrayTypeUnsafe T of
        None \<Rightarrow> T
      | Some arrayType \<Rightarrow>
          (case getElementType arrayType of
             None \<Rightarrow> T
           | Some E \<Rightarrow> getBaseElementTypeUnsafe (getTypePtr E)))"
  by pat_completeness auto
termination
proof (relation "measure size")
  show "wf (measure size)" by simp
next
  fix T arrayType E
  assume "getAsArrayTypeUnsafe T = Some arrayType" "getElementType arrayType = Some E"
  then show "(getTypePtr E, T) \<in> measure size"
    using size_getAs [of ArrayType T arrayType] size_getElementType [of arrayType E]
    by (simp add: getAsArrayTypeUnsafe_def)
qed

declare getBaseElementTypeUnsafe.simps [simp del]

section \<open>Declarations and the context\<close>

text \<open>
  Modelled from the spec: declarations, language options and target queries belong to
  collaborators whose code is not among the sources (section 6). The type algorithms
  read per-record flags (trivial, standard layout, literal, aggregate, default
  constructor, fields, bases), per-enum flags (complete, scoped, fixed underlying type),
  the linkage of a named declaration, and sizes and field offsets of the target. A C++
  class keeps its flags in its definition data, which exists once the class has a
  definition; reading a flag of a class without definition is an assertion failure
  (\<open>data\<close>). The table of the context gives, for a declaration identifier, the
  declaration that \<open>TagType::getDecl\<close> (line 3209) returns: the definition when there
  is one. The linkage lattice is that of section 4.4. A generic type parameter has an
  index into the type arguments and a declared bound (section 4.5); applying a protocol
  list to a type and decaying an array or function type are computations of the
  interning collaborator.
\<close>

datatype Linkage = NoLinkage | InternalLinkage | UniqueExternalLinkage | ExternalLinkage

datatype TagTypeKind = TTK_Struct | TTK_Interface | TTK_Union | TTK_Class | TTK_Enum

record DefinitionData =
  DD_Empty :: bool
  DD_PlainOldData :: bool
  DD_IsStandardLayout :: bool
  DD_IsLambda :: bool
  DD_HasDefaultConstructor :: bool
  DD_HasNonTrivialDefaultConstructor :: bool
  DD_IsTriviallyCopyable :: bool
  DD_IsTrivial :: bool
  DD_IsLiteral :: bool
  DD_HasTrivialDestructor :: bool
  DD_Bases :: "(QualType \<times> bool) list"

datatype CXXPart = NotCXX | CXXRecord "DefinitionData option"

record RecordDecl =
  TagKind :: TagTypeKind
  IsCompleteDefinition :: bool
  CXX :: CXXPart
  Fields :: "(QualType \<times> nat) list"
  HasMSInheritanceAttr :: bool
  LinkageInternal :: Linkage
  InFunctionOrMethod :: bool
  HasNameForLinkage :: bool

record EnumDecl =
  Enum_IsCompleteDefinition :: bool
  Enum_IsFixed :: bool
  Enum_IsScoped :: bool
  Enum_LinkageInternal :: Linkage
  Enum_InFunctionOrMethod :: bool
  Enum_HasNameForLinkage :: bool

record ObjCInterfaceDecl =
  Iface_HasDefinition :: bool
  Iface_LinkageInternal :: Linkage

record ObjCTypeParamDecl =
  TypeParam_Index :: nat
  TypeParam_UnderlyingType :: QualType

record ASTContext =
  CPlusPlus :: bool
  CPlusPlus11 :: bool
  CPlusPlus14 :: bool
  IsMicrosoftABI :: bool
  RecordDecls :: "decl_id \<Rightarrow> RecordDecl"
  EnumDecls :: "decl_id \<Rightarrow> EnumDecl"
  ObjCInterfaceDecls :: "decl_id \<Rightarrow> ObjCInterfaceDecl"
  TypeSizeInChars :: "QualType \<Rightarrow> int"
  CharWidth :: nat
  ObjCTypeParamDecls :: "decl_id \<Rightarrow> ObjCTypeParamDecl"
  ApplyObjCProtocolQualifiers :: "QualType \<Rightarrow> decl_id list \<Rightarrow> QualType"
  DecayedTypeOf :: "QualType \<Rightarrow> QualType"

definition isCXXRecordDecl :: "RecordDecl \<Rightarrow> bool" where
  "isCXXRecordDecl RD = (CXX RD \<noteq> NotCXX)"

definition hasDefinition :: "RecordDecl \<Rightarrow> bool" where
  "hasDefinition RD = (case CXX RD of CXXRecord (Some DD) \<Rightarrow> True | _ \<Rightarrow> False)"

definition data :: "RecordDecl \<Rightarrow> error + DefinitionData" where
  "data RD = (case CXX RD of CXXRecord (Some DD) \<Rightarrow> Inr DD | _ \<Rightarrow> Inl AssertionFailure)"

definition isLambda :: "RecordDecl \<Rightarrow> bool" where
  "isLambda RD = (case CXX RD of CXXRecord (Some DD) \<Rightarrow> DD_IsLambda DD | _ \<Rightarrow> False)"

definition isUnion :: "RecordDecl \<Rightarrow> bool" where
  "isUnion RD = (TagKind RD = TTK_Union)"

definition Enum_isComplete :: "EnumDecl \<Rightarrow> bool" where
  "Enum_isComplete ED = (Enum_IsCompleteDefinition ED \<or> Enum_IsFixed ED)"

text \<open>
  Modelled from the spec: the class tests of Type.h look at the canonical type
  (\<open>isa<ArrayType>(CanonicalType)\<close>).
\<close>

definition isArrayType :: "Type \<Rightarrow> bool" where
  "isArrayType T = (canonicalClass T \<in> ArrayType)"
definition isIncompleteArrayType :: "Type \<Rightarrow> bool" where
  "isIncompleteArrayType T = (canonicalClass T = TC_IncompleteArray)"
definition isVariableArrayType :: "Type \<Rightarrow> bool" where
  "isVariableArrayType T = (canonicalClass T = TC_VariableArray)"
definition isFunctionType :: "Type \<Rightarrow> bool" where
  "isFunctionType T = (canonicalClass T \<in> FunctionType)"
definition isPointerType :: "Type \<Rightarrow> bool" where
  "isPointerType T = (canonicalClass T = TC_Pointer)"
definition isMemberPointerType :: "Type \<Rightarrow> bool" where
  "isMemberPointerType T = (canonicalClass T = TC_MemberPointer)"
definition isReferenceType :: "Type \<Rightarrow> bool" where
  "isReferenceType T = (canonicalClass T \<in> ReferenceType)"
definition isRecordType :: "Type \<Rightarrow> bool" where
  "isRecordType T = (canonicalClass T = TC_Record)"
definition isVectorType :: "Type \<Rightarrow> bool" where
  "isVectorType T = (canonicalClass T \<in> VectorType)"
definition isAnyComplexType :: "Type \<Rightarrow> bool" where
  "isAnyComplexType T = (canonicalClass T = TC_Complex)"

definition isVoidType :: "Type \<Rightarrow> bool" where
  "isVoidType T =
     (case getTypePtr (getCanonicalTypeInternal T) of Builtin K \<Rightarrow> K = BT_Void | _ \<Rightarrow> False)"

text \<open>
  \<open>getAs<RecordType>()->getDecl()\<close>, \<open>Type::getAsTagDecl\<close> (line 1591),
  \<open>Type::getAsCXXRecordDecl\<close> (line 1587), \<open>Type::isStructureOrClassType\<close>
  (line 411) and \<open>Type::isUnionType\<close> (line 424).
\<close>

definition getAsRecordDecl :: "Type \<Rightarrow> decl_id option" where
  "getAsRecordDecl T =
     (case getAs {TC_Record} T of Some (Record D Dep) \<Rightarrow> Some D | _ \<Rightarrow> None)"

definition getAsTagDecl :: "Type \<Rightarrow> (TypeClass \<times> decl_id) option" where
  "getAsTagDecl T =
     (case getAs TagType T of
        Some (Record D Dep) \<Rightarrow> Some (TC_Record, D)
      | Some (Enum D Dep) \<Rightarrow> Some (TC_Enum, D)
      | _ \<Rightarrow>
        (case getAs {TC_InjectedClassName} T of
           Some (InjectedClassName D) \<Rightarrow> Some (TC_InjectedClassName, D)
         | _ \<Rightarrow> None))"

definition getAsCXXRecordDecl :: "ASTContext \<Rightarrow> Type \<Rightarrow> decl_id option" where
  "getAsCXXRecordDecl ctx T =
     (case getAsTagDecl T of
        None \<Rightarrow> None
      | Some (C, D) \<Rightarrow>
          if C \<noteq> TC_Enum \<and> isCXXRecordDecl (RecordDecls ctx D) then Some D else None)"

definition isStructureOrClassType :: "ASTContext \<Rightarrow> Type \<Rightarrow> bool" where
  "isStructureOrClassType ctx T =
     (case getAsRecordDecl T of
        Some D \<Rightarrow> TagKind (RecordDecls ctx D) \<in> {TTK_Struct, TTK_Class, TTK_Interface}
      | None \<Rightarrow> False)"

definition isUnionType :: "ASTContext \<Rightarrow> Type \<Rightarrow> bool" where
  "isUnionType ctx T =
     (case getAsRecordDecl T of Some D \<Rightarrow> isUnion (RecordDecls ctx D) | None \<Rightarrow> False)"

text \<open>
  A traced computation returns its result together with the list of declaration flags it
  read, in the order of the reads.
\<close>

datatype DeclQuery =
    Q_isFixed decl_id
  | Q_isCompleteDefinition decl_id
  | Q_isComplete decl_id
  | Q_hasDefinition decl_id
  | Q_hasMSInheritanceAttr decl_id
  | Q_hasDefaultConstructor decl_id
  | Q_hasNonTrivialDefaultConstructor decl_id
  | Q_isTriviallyCopyable decl_id

type_synonym 'a traced = "DeclQuery list \<times> (error + 'a)"

definition returnT :: "'a \<Rightarrow> 'a traced" where
  "returnT x = ([], Inr x)"

definition queryT :: "DeclQuery \<Rightarrow> error + 'a \<Rightarrow> 'a traced" where
  "queryT q v = ([q], v)"

definition bindT :: "'a traced \<Rightarrow> ('a \<Rightarrow> 'b traced) \<Rightarrow> 'b traced" where
  "bindT m f =
     (case snd m of
        Inl e \<Rightarrow> (fst m, Inl e)
      | Inr x \<Rightarrow> (fst m @ fst (f x), snd (f x)))"

text \<open>\<open>Type::isIncompleteType\<close>, lines 1975-2051.\<close>

function isIncompleteType_traced :: "ASTContext \<Rightarrow> Type \<Rightarrow> bool traced" where
  "isIncompleteType_traced ctx T =
     (case getTypePtr (getCanonicalTypeInternal T) of
        Builtin K \<Rightarrow> returnT (isVoidType T)
      | TypeVariable Depth Idx \<Rightarrow> returnT True
      | Enum D Dep \<Rightarrow>
          bindT (queryT (Q_isFixed D) (Inr (Enum_IsFixed (EnumDecls ctx D))))
            (\<lambda>fixed. if fixed then returnT False
               else bindT (queryT (Q_isCompleteDefinition D)
                             (Inr (Enum_IsCompleteDefinition (EnumDecls ctx D))))
                      (\<lambda>c. returnT (\<not> c)))
      | Record D Dep \<Rightarrow>
          bindT (queryT (Q_isCompleteDefinition D)
                   (Inr (IsCompleteDefinition (RecordDecls ctx D))))
            (\<lambda>c. returnT (\<not> c))
      | ConstantArray E N \<Rightarrow> isIncompleteType_traced ctx (getTypePtr E)
      | IncompleteArray E \<Rightarrow> returnT True
      | MemberPointer P ClassTy \<Rightarrow>
          if isDependentType ClassTy then returnT False
          else (case getAsCXXRecordDecl ctx ClassTy of
                  None \<Rightarrow> ([], Inl AssertionFailure)
                | Some RD \<Rightarrow>
                    if \<not> IsMicrosoftABI ctx then returnT False
                    else bindT (queryT (Q_hasMSInheritanceAttr RD)
                                  (Inr (HasMSInheritanceAttr (RecordDecls ctx RD))))
                           (\<lambda>a. if a then returnT False else returnT True))
      | ObjCObject B Args Protos K \<Rightarrow> isIncompleteType_traced ctx (getTypePtr B)
      | ObjCInterface D \<Rightarrow>
          bindT (queryT (Q_hasDefinition D)
                   (Inr (Iface_HasDefinition (ObjCInterfaceDecls ctx D))))
            (\<lambda>d. returnT (\<not> d))
      | _ \<Rightarrow> returnT False)"
  by pat_completeness auto
termination
proof (relation "measure (\<lambda>(ctx, T). size T)")
  show "wf (measure (\<lambda>(ctx, T). size T))" by simp
next
  fix ctx :: ASTContext and T E N
  assume "getTypePtr (getCanonicalTypeInternal T) = ConstantArray E N"
  then show "((ctx, getTypePtr E), ctx, T) \<in> measure (\<lambda>(ctx, T). size T)"
    using size_canonical(2) [of T] by (simp add: size_QualType_eq)
next
  fix ctx :: ASTContext and T B Args Protos K
  assume "getTypePtr (getCanonicalTypeInternal T) = ObjCObject B Args Protos K"
  then show "((ctx, getTypePtr B), ctx, T) \<in> measure (\<lambda>(ctx, T). size T)"
    using size_canonical(2) [of T] by (simp add: size_QualType_eq)
qed

declare isIncompleteType_traced.simps [simp del]

definition isIncompleteType :: "ASTContext \<Rightarrow> Type \<Rightarrow> error + bool" where
  "isIncompleteType ctx T = snd (isIncompleteType_traced ctx T)"

subsection \<open>The base element type\<close>

text \<open>
  Modelled from the spec: \<open>ASTContext::getBaseElementType\<close> is a call to the interning
  collaborator (section 6). It strips the array layers of a type, desugaring at each
  layer, and returns the element type with the qualifiers met on the way, merged under
  the consistent-merge rule.
\<close>

lemma loop_Ty:
  "getSplitDesugaredType_loop Qs Cur = Inr S \<Longrightarrow>
   Ty S = getUnqualifiedDesugaredType (getTypePtr Cur)"
proof (induction Qs Cur rule: getSplitDesugaredType_loop.induct)
  case (1 Qs Cur)
  show ?case
  proof (cases "strip Qs Cur")
    case (Inl e)
    with "1.prems" show ?thesis
      by (simp add: getSplitDesugaredType_loop.simps [of Qs Cur])
  next
    case (Inr p)
    obtain Qs' CurTy where p: "p = (Qs', CurTy)" by (cases p)
    with Inr have ty: "CurTy = getTypePtr Cur" using strip_Inr by blast
    show ?thesis
    proof (cases "isSugared CurTy")
      case True
      with "1.prems" Inr p have "getSplitDesugaredType_loop Qs' (desugar CurTy) = Inr S"
        by (simp add: getSplitDesugaredType_loop.simps [of Qs Cur])
      with "1.IH" [OF Inr p [symmetric]] True
      have "Ty S = getUnqualifiedDesugaredType (getTypePtr (desugar CurTy))" by simp
      with True ty show ?thesis
        by (subst getUnqualifiedDesugaredType.simps) simp
    next
      case False
      with "1.prems" Inr p have "Ty S = CurTy"
        by (auto simp add: getSplitDesugaredType_loop.simps [of Qs Cur])
      with False ty show ?thesis
        by (subst getUnqualifiedDesugaredType.simps) simp
    qed
  qed
qed

lemma getSplitDesugaredType_Ty:
  "getSplitDesugaredType T = Inr S \<Longrightarrow> Ty S = getUnqualifiedDesugaredType (getTypePtr T)"
  by (simp add: getSplitDesugaredType_def loop_Ty)

definition getQualifiedType_QT :: "QualType \<Rightarrow> Qualifiers \<Rightarrow> error + QualType" where
  "getQualifiedType_QT T Qs = bindE (strip Qs T) (\<lambda>(Qc, Ptr). Inr (QualType Ptr Qc))"

function getBaseElementType_loop :: "Qualifiers \<Rightarrow> QualType \<Rightarrow> error + QualType" where
  "getBaseElementType_loop qs type =
     (case getSplitDesugaredType type of
        Inl e \<Rightarrow> Inl e
      | Inr split \<Rightarrow>
          (case getAsArrayTypeUnsafe (Ty split) of
             None \<Rightarrow> getQualifiedType_QT type qs
           | Some array \<Rightarrow>
               (case getElementType array of
                  None \<Rightarrow> Inl AssertionFailure
                | Some E \<Rightarrow>
                    (case addConsistentQualifiers qs (Quals split) of
                       Inl e \<Rightarrow> Inl e
                     | Inr qs' \<Rightarrow> getBaseElementType_loop qs' E))))"
  by pat_completeness auto
termination
proof (relation "measure (\<lambda>(qs, type). size (getTypePtr type))")
  show "wf (measure (\<lambda>(qs, type). size (getTypePtr type)))" by simp
next
  fix qs type split array E qs'
  assume "getSplitDesugaredType type = Inr split"
    "getAsArrayTypeUnsafe (Ty split) = Some array" "getElementType array = Some E"
  then show "((qs', E), qs, type) \<in> measure (\<lambda>(qs, type). size (getTypePtr type))"
    using size_getAs [of ArrayType "Ty split" array] size_getElementType [of array E]
      size_getUnqualifiedDesugaredType [of "getTypePtr type"]
    by (simp add: getAsArrayTypeUnsafe_def getSplitDesugaredType_Ty)
qed

declare getBaseElementType_loop.simps [simp del]

definition getBaseElementType :: "QualType \<Rightarrow> error + QualType" where
  "getBaseElementType T = getBaseElementType_loop emptyQualifiers T"

lemma getQualifiedType_QT_ptr:
  "getQualifiedType_QT T Qs = Inr B \<Longrightarrow> getTypePtr B = getTypePtr T"
  by (auto simp: getQualifiedType_QT_def bindE_def split: sum.splits dest: strip_Inr)

lemma getAs_None_desugared:
  "getAs Cs (getUnqualifiedDesugaredType T) = None \<Longrightarrow> canonicalClass T \<notin> Cs"
  by (auto simp: getAs_def canonicalClass_def class_desugared split: if_splits)

lemma getBaseElementType_loop_not_array:
  "getBaseElementType_loop qs type = Inr B \<Longrightarrow> \<not> isArrayType (getTypePtr B)"
proof (induction qs type rule: getBaseElementType_loop.induct)
  case (1 qs type)
  from "1.prems" show ?case
    apply (subst (asm) getBaseElementType_loop.simps)
    apply (auto split: sum.splits option.splits)
    subgoal for split
      using getAs_None_desugared [of ArrayType "getTypePtr type"]
      by (auto simp: getSplitDesugaredType_Ty getAsArrayTypeUnsafe_def isArrayType_def
          dest!: getQualifiedType_QT_ptr)
    subgoal using "1.IH" by blast
    done
qed

lemma getBaseElementType_not_array:
  "getBaseElementType T = Inr B \<Longrightarrow> \<not> isArrayType (getTypePtr B)"
  by (simp add: getBaseElementType_def getBaseElementType_loop_not_array)

section \<open>Structural predicates\<close>

text \<open>
  Modelled from the spec: \<open>Type::isScalarType\<close> and
  \<open>Type::isIntegralOrEnumerationType\<close> are declared inline in Type.h. Section 4.3:
  the classification is a range check against the ordered builtin-kind enumeration, with
  complete enumerations; pointers, member pointers and complex types are scalar. The
  second predicate is the twin of \<open>isIntegralOrUnscopedEnumerationType\<close> (line 1716)
  without the test on the scope.
\<close>

definition isScalarType_traced :: "ASTContext \<Rightarrow> Type \<Rightarrow> bool traced" where
  "isScalarType_traced ctx T =
     (case getTypePtr (getCanonicalTypeInternal T) of
        Builtin K \<Rightarrow> returnT (kindOrd BT_Void < kindOrd K \<and> kindOrd K \<le> kindOrd BT_NullPtr)
      | Enum D Dep \<Rightarrow> queryT (Q_isComplete D) (Inr (Enum_isComplete (EnumDecls ctx D)))
      | Pointer P \<Rightarrow> returnT True
      | BlockPointer P \<Rightarrow> returnT True
      | MemberPointer P Cls \<Rightarrow> returnT True
      | Complex E \<Rightarrow> returnT True
      | ObjCObjectPointer P \<Rightarrow> returnT True
      | _ \<Rightarrow> returnT False)"

definition isScalarType :: "ASTContext \<Rightarrow> Type \<Rightarrow> bool" where
  "isScalarType ctx T =
     (case snd (isScalarType_traced ctx T) of Inr b \<Rightarrow> b | Inl e \<Rightarrow> False)"

definition isIntegralOrEnumerationType :: "ASTContext \<Rightarrow> Type \<Rightarrow> bool" where
  "isIntegralOrEnumerationType ctx T =
     (case getTypePtr (getCanonicalTypeInternal T) of
        Builtin K \<Rightarrow> kindOrd BT_Bool \<le> kindOrd K \<and> kindOrd K \<le> kindOrd BT_Int128
      | Enum D Dep \<Rightarrow> Enum_isComplete (EnumDecls ctx D)
      | _ \<Rightarrow> False)"

text \<open>
  \<open>QualType::isCXX98PODType\<close>, lines 2061-2107. The argument \<open>None\<close> is the null
  handle.
\<close>

function isCXX98PODType :: "ASTContext \<Rightarrow> QualType option \<Rightarrow> error + bool" where
  "isCXX98PODType ctx None = Inr False"
| "isCXX98PODType ctx (Some T) =
     (if isIncompleteArrayType (getTypePtr T) then
        (case getBaseElementType T of
           Inl e \<Rightarrow> Inl e
         | Inr B \<Rightarrow> isCXX98PODType ctx (Some B))
      else
        (case isIncompleteType ctx (getTypePtr T) of
           Inl e \<Rightarrow> Inl e
         | Inr incomplete \<Rightarrow>
             if incomplete then Inr False
             else if hasNonTrivialObjCLifetime T then Inr False
             else
               (case getTypePtr (getCanonicalTypeInternal (getTypePtr T)) of
                  VariableArray E X \<Rightarrow>
                    (case getBaseElementType T of
                       Inl e \<Rightarrow> Inl e
                     | Inr B \<Rightarrow> isCXX98PODType ctx (Some B))
                | ConstantArray E N \<Rightarrow>
                    (case getBaseElementType T of
                       Inl e \<Rightarrow> Inl e
                     | Inr B \<Rightarrow> isCXX98PODType ctx (Some B))
                | ObjCObjectPointer P \<Rightarrow> Inr True
                | BlockPointer P \<Rightarrow> Inr True
                | Builtin K \<Rightarrow> Inr True
                | Complex E \<Rightarrow> Inr True
                | Pointer P \<Rightarrow> Inr True
                | MemberPointer P Cls \<Rightarrow> Inr True
                | Vector E N \<Rightarrow> Inr True
                | ExtVector E N \<Rightarrow> Inr True
                | Enum D Dep \<Rightarrow> Inr True
                | Record D Dep \<Rightarrow>
                    if isCXXRecordDecl (RecordDecls ctx D)
                    then bindE (data (RecordDecls ctx D)) (\<lambda>DD. Inr (DD_PlainOldData DD))
                    else Inr True
                | _ \<Rightarrow> Inr False)))"
  by pat_completeness auto
termination
proof (relation "measure (\<lambda>(ctx, T). case T of None \<Rightarrow> 0
          | Some T \<Rightarrow> if isArrayType (getTypePtr T) then 1 else 0)")
  show "wf (measure (\<lambda>(ctx, T). case T of None \<Rightarrow> 0
          | Some T \<Rightarrow> if isArrayType (getTypePtr T) then (1::nat) else 0))" by simp
qed (auto simp: isArrayType_def isIncompleteArrayType_def canonicalClass_def ArrayType_def
      dest!: getBaseElementType_not_array)

declare isCXX98PODType.simps [simp del]

text \<open>
  \<open>QualType::isTrivialType\<close>, lines 2109-2156, with the declaration flags it reads.
  The operator \<open>&&\<close> of line 2146 evaluates its right operand only when the left
  one is true.
\<close>

function isTrivialType_traced :: "ASTContext \<Rightarrow> QualType option \<Rightarrow> bool traced" where
  "isTrivialType_traced ctx None = returnT False"
| "isTrivialType_traced ctx (Some T) =
     (if isArrayType (getTypePtr T) then
        (case getBaseElementType T of
           Inl e \<Rightarrow> ([], Inl e)
         | Inr B \<Rightarrow> isTrivialType_traced ctx (Some B))
      else
        bindT (isIncompleteType_traced ctx (getTypePtr T)) (\<lambda>incomplete.
          if incomplete then returnT False
          else if hasNonTrivialObjCLifetime T then returnT False
          else
            (let CanonicalType = getCanonicalTypeInternal (getTypePtr T) in
             if isDependentType (getTypePtr CanonicalType) then returnT False
             else
               bindT (isScalarType_traced ctx (getTypePtr CanonicalType)) (\<lambda>scalar.
                 if scalar \<or> isVectorType (getTypePtr CanonicalType) then returnT True
                 else
                   (case getAsRecordDecl (getTypePtr CanonicalType) of
                      Some D \<Rightarrow>
                        if isCXXRecordDecl (RecordDecls ctx D) then
                          bindT (queryT (Q_hasDefaultConstructor D)
                                   (bindE (data (RecordDecls ctx D))
                                      (\<lambda>DD. Inr (DD_HasDefaultConstructor DD))))
                            (\<lambda>hasDefault.
                               if \<not> hasDefault then returnT False
                               else
                                 bindT (queryT (Q_hasNonTrivialDefaultConstructor D)
                                          (bindE (data (RecordDecls ctx D))
                                             (\<lambda>DD. Inr (DD_HasNonTrivialDefaultConstructor DD))))
                                   (\<lambda>nonTrivial.
                                      if nonTrivial then returnT False
                                      else queryT (Q_isTriviallyCopyable D)
                                             (bindE (data (RecordDecls ctx D))
                                                (\<lambda>DD. Inr (DD_IsTriviallyCopyable DD)))))
                        else returnT True
                    | None \<Rightarrow> returnT False)))))"
  by pat_completeness auto
termination
proof (relation "measure (\<lambda>(ctx, T). case T of None \<Rightarrow> 0
          | Some T \<Rightarrow> if isArrayType (getTypePtr T) then 1 else 0)")
  show "wf (measure (\<lambda>(ctx, T). case T of None \<Rightarrow> 0
          | Some T \<Rightarrow> if isArrayType (getTypePtr T) then (1::nat) else 0))" by simp
qed (auto dest!: getBaseElementType_not_array)

declare isTrivialType_traced.simps [simp del]

definition isTrivialType :: "ASTContext \<Rightarrow> QualType option \<Rightarrow> error + bool" where
  "isTrivialType ctx T = snd (isTrivialType_traced ctx T)"

text \<open>\<open>QualType::isTriviallyCopyableType\<close>, lines 2158-2194.\<close>

function isTriviallyCopyableType :: "ASTContext \<Rightarrow> QualType \<Rightarrow> error + bool" where
  "isTriviallyCopyableType ctx T =
     (if isArrayType (getTypePtr T) then
        (case getBaseElementType T of
           Inl e \<Rightarrow> Inl e
         | Inr B \<Rightarrow> isTriviallyCopyableType ctx B)
      else if hasNonTrivialObjCLifetime T then Inr False
      else
        (let CanonicalType = getCanonicalType T in
         if isDependentType (getTypePtr CanonicalType) then Inr False
         else
           bindE (isIncompleteType ctx (getTypePtr CanonicalType)) (\<lambda>incomplete.
             if incomplete then Inr False
             else if isScalarType ctx (getTypePtr CanonicalType) \<or>
                     isVectorType (getTypePtr CanonicalType) then Inr True
             else
               (case getAsRecordDecl (getTypePtr CanonicalType) of
                  Some D \<Rightarrow>
                    if isCXXRecordDecl (RecordDecls ctx D) then
                      bindE (data (RecordDecls ctx D)) (\<lambda>DD.
                        if \<not> DD_IsTriviallyCopyable DD then Inr False else Inr True)
                    else Inr True
                | None \<Rightarrow> Inr False))))"
  by pat_completeness auto
termination
proof (relation "measure (\<lambda>(ctx, T). if isArrayType (getTypePtr T) then 1 else 0)")
  show "wf (measure (\<lambda>(ctx, T). if isArrayType (getTypePtr T) then (1::nat) else 0))" by simp
qed (auto dest!: getBaseElementType_not_array)

declare isTriviallyCopyableType.simps [simp del]

text \<open>\<open>Type::isStandardLayoutType\<close>, lines 2413-2445.\<close>

definition isStandardLayoutType :: "ASTContext \<Rightarrow> Type \<Rightarrow> error + bool" where
  "isStandardLayoutType ctx T =
     (if isDependentType T then Inr False
      else
        (let BaseTy = getBaseElementTypeUnsafe T in
         bindE (isIncompleteType ctx BaseTy) (\<lambda>incomplete.
           if incomplete then Inr False
           else if isScalarType ctx BaseTy \<or> isVectorType BaseTy then Inr True
           else
             (case getAsRecordDecl BaseTy of
                Some D \<Rightarrow>
                  if isCXXRecordDecl (RecordDecls ctx D) then
                    bindE (data (RecordDecls ctx D)) (\<lambda>DD.
                      if \<not> DD_IsStandardLayout DD then Inr False else Inr True)
                  else Inr True
              | None \<Rightarrow> Inr False))))"

text \<open>
  \<open>QualType::isCXX11PODType\<close>, lines 2450-2498, and \<open>QualType::isPODType\<close>,
  lines 2053-2059.
\<close>

definition isCXX11PODType :: "ASTContext \<Rightarrow> QualType \<Rightarrow> error + bool" where
  "isCXX11PODType ctx T =
     (let ty = getTypePtr T in
      if isDependentType ty then Inr False
      else if hasNonTrivialObjCLifetime T then Inr False
      else
        (let BaseTy = getBaseElementTypeUnsafe ty in
         bindE (isIncompleteType ctx BaseTy) (\<lambda>incomplete.
           if incomplete then Inr False
           else if isScalarType ctx BaseTy \<or> isVectorType BaseTy then Inr True
           else
             (case getAsRecordDecl BaseTy of
                Some D \<Rightarrow>
                  if isCXXRecordDecl (RecordDecls ctx D) then
                    bindE (data (RecordDecls ctx D)) (\<lambda>DD.
                      if \<not> DD_IsTrivial DD then Inr False
                      else if \<not> DD_IsStandardLayout DD then Inr False
                      else Inr True)
                  else Inr True
              | None \<Rightarrow> Inr False))))"

definition isPODType :: "ASTContext \<Rightarrow> QualType \<Rightarrow> error + bool" where
  "isPODType ctx T =
     (if CPlusPlus11 ctx then isCXX11PODType ctx T else isCXX98PODType ctx (Some T))"

lemma size_getBaseElementTypeUnsafe: "size (getBaseElementTypeUnsafe T) \<le> size T"
proof (induction T rule: getBaseElementTypeUnsafe.induct)
  case (1 T)
  show ?case
  proof (cases "getAsArrayTypeUnsafe T")
    case None
    then show ?thesis by (simp add: getBaseElementTypeUnsafe.simps [of T])
  next
    case (Some arrayType)
    show ?thesis
    proof (cases "getElementType arrayType")
      case None
      with Some show ?thesis by (simp add: getBaseElementTypeUnsafe.simps [of T])
    next
      case (Some E)
      with \<open>getAsArrayTypeUnsafe T = Some arrayType\<close> "1.IH" [of arrayType E]
        size_getAs [of ArrayType T arrayType] size_getElementType [of arrayType E]
      show ?thesis
        by (simp add: getBaseElementTypeUnsafe.simps [of T] getAsArrayTypeUnsafe_def)
    qed
  qed
qed

text \<open>\<open>Type::isLiteralType\<close>, lines 2347-2411.\<close>

definition getAsAtomicValueType :: "Type \<Rightarrow> QualType option" where
  "getAsAtomicValueType T =
     (case getAs {TC_Atomic} T of Some (Atomic V) \<Rightarrow> Some V | _ \<Rightarrow> None)"

lemma size_getAsAtomicValueType:
  "getAsAtomicValueType T = Some V \<Longrightarrow> size (getTypePtr V) < size T"
  by (auto simp: getAsAtomicValueType_def size_QualType_eq split: option.splits Type.splits
      dest!: size_getAs)

function isLiteralType :: "ASTContext \<Rightarrow> Type \<Rightarrow> error + bool" where
  "isLiteralType Ctx T =
     (if isDependentType T then Inr False
      else if CPlusPlus14 Ctx \<and> isVoidType T then Inr True
      else if isVariableArrayType T then Inr False
      else
        (let BaseTy = getBaseElementTypeUnsafe T in
         case isIncompleteType Ctx BaseTy of
           Inl e \<Rightarrow> Inl e
         | Inr incomplete \<Rightarrow>
             if incomplete then Inr False
             else if isScalarType Ctx BaseTy \<or> isVectorType BaseTy \<or> isAnyComplexType BaseTy
               then Inr True
             else if isReferenceType BaseTy then Inr True
             else
               (case getAsRecordDecl BaseTy of
                  Some D \<Rightarrow>
                    if isCXXRecordDecl (RecordDecls Ctx D)
                    then bindE (data (RecordDecls Ctx D)) (\<lambda>DD. Inr (DD_IsLiteral DD))
                    else Inr True
                | None \<Rightarrow>
                    (case getAsAtomicValueType BaseTy of
                       Some V \<Rightarrow> isLiteralType Ctx (getTypePtr V)
                     | None \<Rightarrow>
                         if canonicalClass BaseTy = TC_Auto then Inr True
                         else Inr False))))"
  by pat_completeness auto
termination
proof (relation "measure (\<lambda>(Ctx, T). size T)")
  show "wf (measure (\<lambda>(Ctx, T). size T))" by simp
next
  fix Ctx :: ASTContext and T BaseTy V
  assume "BaseTy = getBaseElementTypeUnsafe T" "getAsAtomicValueType BaseTy = Some V"
  then show "((Ctx, getTypePtr V), Ctx, T) \<in> measure (\<lambda>(Ctx, T). size T)"
    using size_getBaseElementTypeUnsafe [of T] size_getAsAtomicValueType [of BaseTy V]
    by simp
qed

declare isLiteralType.simps [simp del]

text \<open>\<open>QualType::isDestructedTypeImpl\<close>, lines 4222-4243.\<close>

datatype DestructionKind =
  DK_none | DK_cxx_destructor | DK_objc_strong_lifetime | DK_objc_weak_lifetime

definition hasTrivialDestructor :: "RecordDecl \<Rightarrow> error + bool" where
  "hasTrivialDestructor RD = bindE (data RD) (\<lambda>DD. Inr (DD_HasTrivialDestructor DD))"

definition isDestructedTypeImpl :: "ASTContext \<Rightarrow> QualType \<Rightarrow> error + DestructionKind" where
  "isDestructedTypeImpl ctx type =
     (let lifetime = getObjCLifetime (getQualifiers type) in
      if lifetime = OCL_Strong then Inr DK_objc_strong_lifetime
      else if lifetime = OCL_Weak then Inr DK_objc_weak_lifetime
      else
        (case getAsCXXRecordDecl ctx (getBaseElementTypeUnsafe (getTypePtr type)) of
           None \<Rightarrow> Inr DK_none
         | Some record \<Rightarrow>
             if \<not> hasDefinition (RecordDecls ctx record) then Inr DK_none
             else bindE (hasTrivialDestructor (RecordDecls ctx record)) (\<lambda>trivial.
                    if \<not> trivial then Inr DK_cxx_destructor else Inr DK_none)))"


subsection \<open>Unique object representations\<close>

text \<open>
  \<open>isStructEmpty\<close> (lines 2212-2225) and the three mutually recursive functions
  \<open>QualType::hasUniqueObjectRepresentations\<close> (2285-2339),
  \<open>unionHasUniqueObjectRepresentations\<close> (2196-2210) and
  \<open>structHasUniqueObjectRepresentations\<close> (2227-2283). The loops over the fields and
  the bases are the list recursions \<open>unionFields\<close>, \<open>structBases\<close> and
  \<open>structFields\<close>; \<open>None\<close> in their result is the \<open>return false\<close> inside the
  loop. A field of a record is its type with its offset in bits, a base its type with
  the flag \<open>isVirtual\<close>.

  The recursion follows declarations into the types of their fields and bases, and the
  table of declarations is not known to be well-founded; \<open>fuel\<close> bounds the depth of
  that nesting. It is only consumed when a field or a base is entered.
\<close>

definition field_empty :: "RecordDecl \<Rightarrow> bool" where
  "field_empty RD = (Fields RD = [])"

definition isEmpty :: "RecordDecl \<Rightarrow> error + bool" where
  "isEmpty RD = bindE (data RD) (\<lambda>DD. Inr (DD_Empty DD))"

definition bases :: "RecordDecl \<Rightarrow> error + (QualType \<times> bool) list" where
  "bases RD = bindE (data RD) (\<lambda>DD. Inr (DD_Bases DD))"

definition toCharUnitsFromBits :: "ASTContext \<Rightarrow> nat \<Rightarrow> int" where
  "toCharUnitsFromBits ctx bits = int (bits div CharWidth ctx)"

definition isStructEmpty :: "ASTContext \<Rightarrow> QualType \<Rightarrow> error + bool" where
  "isStructEmpty ctx T =
     (if \<not> isStructureOrClassType ctx (getTypePtr T) then Inl AssertionFailure
      else
        (case getAsRecordDecl (getTypePtr T) of
           None \<Rightarrow> Inl AssertionFailure
         | Some D \<Rightarrow>
             (let RD = RecordDecls ctx D in
              if \<not> field_empty RD then Inr False
              else if isCXXRecordDecl RD then isEmpty RD
              else Inr True)))"

primrec unionFields ::
  "(QualType \<Rightarrow> error + bool) \<Rightarrow> ASTContext \<Rightarrow> int \<Rightarrow> (QualType \<times> nat) list \<Rightarrow> error + bool"
where
  "unionFields hasUnique ctx UnionSize [] = Inr True"
| "unionFields hasUnique ctx UnionSize (F # rest) =
     bindE (hasUnique (fst F)) (\<lambda>unique.
       if \<not> unique then Inr False
       else if TypeSizeInChars ctx (fst F) \<noteq> UnionSize then Inr False
       else unionFields hasUnique ctx UnionSize rest)"

primrec structBases ::
  "(QualType \<Rightarrow> error + bool) \<Rightarrow> ASTContext \<Rightarrow> int \<Rightarrow> (QualType \<times> bool) list
     \<Rightarrow> error + int option"
where
  "structBases structHasUnique ctx BaseSize [] = Inr (Some BaseSize)"
| "structBases structHasUnique ctx BaseSize (Base # rest) =
     (if snd Base then Inr None
      else
        bindE (isStructEmpty ctx (fst Base)) (\<lambda>empty.
          if \<not> empty then
            bindE (structHasUnique (fst Base)) (\<lambda>unique.
              if \<not> unique then Inr None
              else structBases structHasUnique ctx
                     (BaseSize + TypeSizeInChars ctx (fst Base)) rest)
          else structBases structHasUnique ctx BaseSize rest))"

primrec structFields ::
  "(QualType \<Rightarrow> error + bool) \<Rightarrow> ASTContext \<Rightarrow> int \<Rightarrow> (QualType \<times> nat) list
     \<Rightarrow> error + int option"
where
  "structFields hasUnique ctx CurOffset [] = Inr (Some CurOffset)"
| "structFields hasUnique ctx CurOffset (F # rest) =
     bindE (hasUnique (fst F)) (\<lambda>unique.
       if \<not> unique then Inr None
       else if toCharUnitsFromBits ctx (snd F) \<noteq> CurOffset then Inr None
       else structFields hasUnique ctx (CurOffset + TypeSizeInChars ctx (fst F)) rest)"

function hasUniqueObjectRepresentations ::
    "nat \<Rightarrow> ASTContext \<Rightarrow> QualType option \<Rightarrow> error + bool"
  and unionHasUniqueObjectRepresentations ::
    "nat \<Rightarrow> ASTContext \<Rightarrow> QualType \<Rightarrow> error + bool"
  and structHasUniqueObjectRepresentations ::
    "nat \<Rightarrow> ASTContext \<Rightarrow> QualType \<Rightarrow> error + bool"
where
  "hasUniqueObjectRepresentations fuel ctx None = Inr False"
| "hasUniqueObjectRepresentations fuel ctx (Some T) =
     (if isArrayType (getTypePtr T) then
        (case getBaseElementType T of
           Inl e \<Rightarrow> Inl e
         | Inr B \<Rightarrow> hasUniqueObjectRepresentations fuel ctx (Some B))
      else
        bindE (isTriviallyCopyableType ctx T) (\<lambda>copyable.
          if \<not> copyable then Inr False
          else if isFunctionType (getTypePtr T) then Inr False
          else if isIntegralOrEnumerationType ctx (getTypePtr T) then Inr True
          else if isPointerType (getTypePtr T) \<or> isMemberPointerType (getTypePtr T)
            then Inr True
          else if isRecordType (getTypePtr T) then
            (case getAsRecordDecl (getTypePtr T) of
               None \<Rightarrow> Inl AssertionFailure
             | Some RecordD \<Rightarrow>
                 if isLambda (RecordDecls ctx RecordD) then Inr False
                 else if isUnion (RecordDecls ctx RecordD)
                   then unionHasUniqueObjectRepresentations fuel ctx T
                 else structHasUniqueObjectRepresentations fuel ctx T)
          else Inr False))"
| "unionHasUniqueObjectRepresentations fuel ctx T =
     (if \<not> isUnionType ctx (getTypePtr T) then Inl AssertionFailure
      else
        (case getAsRecordDecl (getTypePtr T) of
           None \<Rightarrow> Inl AssertionFailure
         | Some UnionD \<Rightarrow>
             unionFields
               (\<lambda>FieldTy. case fuel of 0 \<Rightarrow> Inl OutOfFuel
                  | Suc fuel' \<Rightarrow> hasUniqueObjectRepresentations fuel' ctx (Some FieldTy))
               ctx (TypeSizeInChars ctx T) (Fields (RecordDecls ctx UnionD))))"
| "structHasUniqueObjectRepresentations fuel ctx T =
     (if \<not> isStructureOrClassType ctx (getTypePtr T) then Inl AssertionFailure
      else
        (case getAsRecordDecl (getTypePtr T) of
           None \<Rightarrow> Inl AssertionFailure
         | Some D \<Rightarrow>
             (let RD = RecordDecls ctx D in
              bindE (isStructEmpty ctx T) (\<lambda>empty.
                if empty then Inr False
                else
                  bindE (if isCXXRecordDecl RD
                         then bindE (bases RD) (\<lambda>Bs.
                                structBases
                                  (\<lambda>BaseTy. case fuel of 0 \<Rightarrow> Inl OutOfFuel
                                     | Suc fuel' \<Rightarrow>
                                         structHasUniqueObjectRepresentations fuel' ctx BaseTy)
                                  ctx 0 Bs)
                         else Inr (Some 0))
                    (\<lambda>BaseSizeOpt.
                       case BaseSizeOpt of
                         None \<Rightarrow> Inr False
                       | Some BaseSize \<Rightarrow>
                           (let StructSize = TypeSizeInChars ctx T in
                            case Fields RD of
                              [] \<Rightarrow> Inr (StructSize = BaseSize)
                            | First # others \<Rightarrow>
                              (let CurOffset = toCharUnitsFromBits ctx (snd First) in
                               if BaseSize \<noteq> CurOffset then Inr False
                               else
                                 bindE (structFields
                                          (\<lambda>FieldTy. case fuel of 0 \<Rightarrow> Inl OutOfFuel
                                             | Suc fuel' \<Rightarrow>
                                                 hasUniqueObjectRepresentations fuel' ctx
                                                   (Some FieldTy))
                                          ctx CurOffset (Fields RD))
                                   (\<lambda>EndOpt. case EndOpt of
                                        None \<Rightarrow> Inr False
                                      | Some EndOffset \<Rightarrow> Inr (EndOffset = StructSize)))))))))"
  by pat_completeness auto
termination
proof (relation "measure (\<lambda>x. case x of
          Inl (fuel, ctx, T) \<Rightarrow>
            3 * fuel + (case T of None \<Rightarrow> 0
                        | Some T \<Rightarrow> if isArrayType (getTypePtr T) then 2 else 1)
        | Inr (Inl (fuel, ctx, T)) \<Rightarrow> 3 * fuel
        | Inr (Inr (fuel, ctx, T)) \<Rightarrow> 3 * fuel)")
qed (auto dest!: getBaseElementType_not_array)

declare hasUniqueObjectRepresentations.simps [simp del]
declare unionHasUniqueObjectRepresentations.simps [simp del]
declare structHasUniqueObjectRepresentations.simps [simp del]
subsection \<open>Linkage of types\<close>

text \<open>
  Modelled from the spec: \<open>minLinkage\<close> is declared in Linkage.h. Section 4.4: the
  linkage values form a small totally ordered lattice, none < internal < unique-external
  < external, and the merge takes the pairwise minimum.
\<close>

primrec linkageOrd :: "Linkage \<Rightarrow> nat" where
  "linkageOrd NoLinkage = 0"
| "linkageOrd InternalLinkage = 1"
| "linkageOrd UniqueExternalLinkage = 2"
| "linkageOrd ExternalLinkage = 3"

definition minLinkage :: "Linkage \<Rightarrow> Linkage \<Rightarrow> Linkage" where
  "minLinkage L1 L2 = (if linkageOrd L1 < linkageOrd L2 then L1 else L2)"

text \<open>\<open>CachedProperties\<close> and its \<open>merge\<close> (lines 3498 to 3513).\<close>

datatype CachedProperties =
  CachedProperties (getLinkage: Linkage) (hasLocalOrUnnamedType: bool)

definition merge :: "CachedProperties \<Rightarrow> CachedProperties \<Rightarrow> CachedProperties" where
  "merge L R =
     (let MergedLinkage = minLinkage (getLinkage L) (getLinkage R) in
      CachedProperties MergedLinkage (hasLocalOrUnnamedType L \<or> hasLocalOrUnnamedType R))"

text \<open>
  Modelled from the spec: the cache bits of a node (\<open>Type::TypeBits\<close>) are declared in
  Type.h. Section 3: each node owns a lazily computed, cached pair of linkage and
  has-local-or-unnamed flag, validated by a single bit; reading the pair of a node whose
  bit is not set is an assertion failure. Nodes are interned, so the bits of all nodes
  are a function of the node; a fresh node has the bit cleared.
\<close>

record TypeBits =
  CacheValid :: bool
  CachedLinkage :: Linkage
  CachedLocalOrUnnamed :: bool

type_synonym TypeCache = "Type \<Rightarrow> TypeBits"

definition isCacheValid :: "TypeBits \<Rightarrow> bool" where
  "isCacheValid B = CacheValid B"

definition TypeBits_getLinkage :: "TypeBits \<Rightarrow> error + Linkage" where
  "TypeBits_getLinkage B = (if isCacheValid B then Inr (CachedLinkage B) else Inl AssertionFailure)"

definition TypeBits_hasLocalOrUnnamedType :: "TypeBits \<Rightarrow> error + bool" where
  "TypeBits_hasLocalOrUnnamedType B =
     (if isCacheValid B then Inr (CachedLocalOrUnnamed B) else Inl AssertionFailure)"

definition freshTypeBits :: TypeBits where
  "freshTypeBits = \<lparr>CacheValid = False, CachedLinkage = NoLinkage, CachedLocalOrUnnamed = False\<rparr>"

definition freshCache :: TypeCache where
  "freshCache = (\<lambda>T. freshTypeBits)"

text \<open>
  The instantiation-dependence bit of a node, as its constructor computes it, from the
  same constructors of Type.cpp as the dependence bit. For a function prototype the
  exception types of a dynamic exception specification count (line 2904); the expression
  of a computed \<open>noexcept\<close> is not part of the model.

  Modelled from the spec: the other constructors and the constructor of \<open>Type\<close>
  itself are in Type.h. Section 3: the flag is computed at construction and propagated
  from the children; a dependent node is instantiation-dependent.
\<close>

primrec isInstantiationDependentType_QualType :: "QualType \<Rightarrow> bool"
  and isInstantiationDependentType :: "Type \<Rightarrow> bool" where
  "isInstantiationDependentType_QualType (QualType T Q) = isInstantiationDependentType T"
| "isInstantiationDependentType (Builtin K) = (K = BT_Dependent)"
| "isInstantiationDependentType (Complex E) =
     (isDependentType (Complex E) \<or>
      isInstantiationDependentType_QualType E)"
| "isInstantiationDependentType (Pointer P) =
     (isDependentType (Pointer P) \<or>
      isInstantiationDependentType_QualType P)"
| "isInstantiationDependentType (BlockPointer P) =
     (isDependentType (BlockPointer P) \<or>
      isInstantiationDependentType_QualType P)"
| "isInstantiationDependentType (LValueReference P S) =
     (isDependentType (LValueReference P S) \<or>
      isInstantiationDependentType_QualType P)"
| "isInstantiationDependentType (RValueReference P) =
     (isDependentType (RValueReference P) \<or>
      isInstantiationDependentType_QualType P)"
| "isInstantiationDependentType (MemberPointer P Cls) =
     (isDependentType (MemberPointer P Cls) \<or>
      isInstantiationDependentType Cls \<or> isInstantiationDependentType_QualType P)"
| "isInstantiationDependentType (ConstantArray E N) =
     (isDependentType (ConstantArray E N) \<or>
      isInstantiationDependentType_QualType E)"
| "isInstantiationDependentType (IncompleteArray E) =
     (isDependentType (IncompleteArray E) \<or>
      isInstantiationDependentType_QualType E)"
| "isInstantiationDependentType (VariableArray E X) =
     (isDependentType (VariableArray E X) \<or>
      isInstantiationDependentType_QualType E)"
| "isInstantiationDependentType (DependentSizedArray E X) = True"
| "isInstantiationDependentType (DependentSizedExtVector E X) = True"
| "isInstantiationDependentType (DependentAddressSpace E X) = True"
| "isInstantiationDependentType (Vector E N) =
     (isDependentType (Vector E N) \<or>
      isInstantiationDependentType_QualType E)"
| "isInstantiationDependentType (ExtVector E N) =
     (isDependentType (ExtVector E N) \<or>
      isInstantiationDependentType_QualType E)"
| "isInstantiationDependentType (FunctionProto R Ps EST Exs) =
     (isDependentType (FunctionProto R Ps EST Exs) \<or>
      isInstantiationDependentType_QualType R \<or>
      list_ex (\<lambda>b. b) (map isInstantiationDependentType_QualType Ps) \<or>
      (EST = EST_Dynamic \<and> list_ex (\<lambda>b. b) (map isInstantiationDependentType_QualType Exs)))"
| "isInstantiationDependentType (FunctionNoProto R) = False"
| "isInstantiationDependentType (UnresolvedUsing D) = True"
| "isInstantiationDependentType (Paren I) =
     (isDependentType (Paren I) \<or>
      isInstantiationDependentType_QualType I)"
| "isInstantiationDependentType (Typedef D U) =
     (isDependentType (Typedef D U) \<or>
      isInstantiationDependentType_QualType U)"
| "isInstantiationDependentType (Adjusted Orig Adj) =
     (isDependentType (Adjusted Orig Adj) \<or>
      isInstantiationDependentType_QualType Orig)"
| "isInstantiationDependentType (Decayed Orig Adj) =
     (isDependentType (Decayed Orig Adj) \<or>
      isInstantiationDependentType_QualType Orig)"
| "isInstantiationDependentType (TypeOfExpr E U) =
     (isDependentType (TypeOfExpr E U) \<or>
      isInstantiationDependent E)"
| "isInstantiationDependentType (TypeOf U) =
     (isDependentType (TypeOf U) \<or>
      isInstantiationDependentType_QualType U)"
| "isInstantiationDependentType (Decltype E U) =
     (isDependentType (Decltype E U) \<or>
      isInstantiationDependent E)"
| "isInstantiationDependentType (UnaryTransform B U) =
     (isDependentType (UnaryTransform B U) \<or>
      isInstantiationDependentType_QualType B)"
| "isInstantiationDependentType (Record D Dep) = Dep"
| "isInstantiationDependentType (Enum D Dep) = Dep"
| "isInstantiationDependentType (Elaborated N) =
     (isDependentType (Elaborated N) \<or>
      isInstantiationDependentType_QualType N)"
| "isInstantiationDependentType (Attributed K M Eq) =
     (isDependentType (Attributed K M Eq) \<or>
      isInstantiationDependentType_QualType Eq)"
| "isInstantiationDependentType (TemplateTypeParm Depth Idx D) = True"
| "isInstantiationDependentType (SubstTemplateTypeParm Par R) =
     (isDependentType (SubstTemplateTypeParm Par R) \<or>
      isInstantiationDependentType_QualType R)"
| "isInstantiationDependentType (SubstTemplateTypeParmPack D) = True"
| "isInstantiationDependentType (TemplateSpecialization N Canon Alias) =
     (isDependentType (TemplateSpecialization N Canon Alias) \<or>
      (case map_option isInstantiationDependentType_QualType Canon of
         None \<Rightarrow> True | Some b \<Rightarrow> b))"
| "isInstantiationDependentType (Auto Deduced IsDep) =
     (isDependentType (Auto Deduced IsDep) \<or>
      IsDep \<or> (case map_option isInstantiationDependentType_QualType Deduced of
                  None \<Rightarrow> False | Some b \<Rightarrow> b))"
| "isInstantiationDependentType (DeducedTemplateSpecialization Deduced IsDep) =
     (isDependentType (DeducedTemplateSpecialization Deduced IsDep) \<or>
      IsDep \<or> (case map_option isInstantiationDependentType_QualType Deduced of
                  None \<Rightarrow> False | Some b \<Rightarrow> b))"
| "isInstantiationDependentType (InjectedClassName D) = True"
| "isInstantiationDependentType (DependentName D) = True"
| "isInstantiationDependentType (DependentTemplateSpecialization D) = True"
| "isInstantiationDependentType (PackExpansion P) = True"
| "isInstantiationDependentType (ObjCTypeParam D U Protos) =
     (isDependentType (ObjCTypeParam D U Protos) \<or>
      isInstantiationDependentType_QualType U)"
| "isInstantiationDependentType (ObjCObject B Args Protos K) =
     (isDependentType (ObjCObject B Args Protos K) \<or>
      isInstantiationDependentType_QualType B \<or>
      list_ex (\<lambda>b. b) (map isInstantiationDependentType_QualType Args))"
| "isInstantiationDependentType (ObjCInterface D) = False"
| "isInstantiationDependentType (ObjCObjectPointer P) =
     (isDependentType (ObjCObjectPointer P) \<or>
      isInstantiationDependentType_QualType P)"
| "isInstantiationDependentType (Pipe E) =
     (isDependentType (Pipe E) \<or>
      isInstantiationDependentType_QualType E)"
| "isInstantiationDependentType (Atomic V) =
     (isDependentType (Atomic V) \<or>
      isInstantiationDependentType_QualType V)"
| "isInstantiationDependentType (TypeVariable Depth Idx) = False"

text \<open>
  The type-property cache (lines 3522 to 3555) and \<open>computeCachedProperties\<close> (lines
  3564 to 3656), with the cache bits of all nodes passed along. \<open>Cache_get\<close> is
  \<open>Cache::get\<close>, \<open>mergeParams\<close> is the loop over the parameter types of a function
  prototype (line 3635). For a member pointer the language leaves open which of the two
  arguments of \<open>merge\<close> is computed first; here it is the class.

  Modelled from the spec: the partition of the type classes (TypeNodes.def) is not among
  the sources. The classes that are always sugar are the non-canonical ones, where the
  switch is unreachable; the classes named in the switch are canonical; the remaining
  ones are the dependent classes and those canonical only when dependent.
\<close>

lemma size_list_QualType:
  "size_list (\<lambda>x. Suc (size (getTypePtr x))) Ps = size_list size Ps"
  by (induction Ps) (simp_all add: size_QualType_eq)

lemma size_canonical_less:
  "4 * size (getTypePtr (getCanonicalTypeInternal T)) < Suc (4 * size T)"
  using size_canonical(2) [of T] by simp

function Cache_get :: "ASTContext \<Rightarrow> Type \<Rightarrow> TypeCache \<Rightarrow> error + CachedProperties \<times> TypeCache"
  and ensure :: "ASTContext \<Rightarrow> Type \<Rightarrow> TypeCache \<Rightarrow> error + TypeCache"
  and computeCachedProperties ::
    "ASTContext \<Rightarrow> Type \<Rightarrow> TypeCache \<Rightarrow> error + CachedProperties \<times> TypeCache"
  and mergeParams ::
    "ASTContext \<Rightarrow> QualType list \<Rightarrow> CachedProperties \<Rightarrow> TypeCache
       \<Rightarrow> error + CachedProperties \<times> TypeCache"
where
  "Cache_get ctx T c =
     bindE (ensure ctx T c) (\<lambda>c'.
       bindE (TypeBits_getLinkage (c' T)) (\<lambda>L.
         bindE (TypeBits_hasLocalOrUnnamedType (c' T)) (\<lambda>local.
           Inr (CachedProperties L local, c'))))"
| "ensure ctx T c =
     (if isCacheValid (c T) then Inr c
      else if \<not> isCanonicalUnqualified T then
        (let CT = getTypePtr (getCanonicalTypeInternal T) in
         bindE (ensure ctx CT c) (\<lambda>c'.
           Inr (c'(T := \<lparr>CacheValid = True, CachedLinkage = CachedLinkage (c' CT),
                          CachedLocalOrUnnamed = CachedLocalOrUnnamed (c' CT)\<rparr>))))
      else
        bindE (computeCachedProperties ctx T c) (\<lambda>(Result, c').
          Inr (c'(T := \<lparr>CacheValid = True, CachedLinkage = getLinkage Result,
                         CachedLocalOrUnnamed = hasLocalOrUnnamedType Result\<rparr>))))"
| "computeCachedProperties ctx T c =
     (case T of
        Paren I \<Rightarrow> Inl AssertionFailure
      | Typedef D U \<Rightarrow> Inl AssertionFailure
      | Adjusted Orig Adj \<Rightarrow> Inl AssertionFailure
      | Decayed Orig Adj \<Rightarrow> Inl AssertionFailure
      | Elaborated N \<Rightarrow> Inl AssertionFailure
      | Attributed K M Eq \<Rightarrow> Inl AssertionFailure
      | SubstTemplateTypeParm Par R \<Rightarrow> Inl AssertionFailure
      | ObjCTypeParam D U Protos \<Rightarrow> Inl AssertionFailure
      | Auto Deduced IsDep \<Rightarrow> Inr (CachedProperties ExternalLinkage False, c)
      | DeducedTemplateSpecialization Deduced IsDep \<Rightarrow>
          Inr (CachedProperties ExternalLinkage False, c)
      | Builtin K \<Rightarrow> Inr (CachedProperties ExternalLinkage False, c)
      | Record D Dep \<Rightarrow>
          (let Tag = RecordDecls ctx D;
               L = LinkageInternal Tag;
               IsLocalOrUnnamed = (InFunctionOrMethod Tag \<or> \<not> HasNameForLinkage Tag)
           in Inr (CachedProperties L IsLocalOrUnnamed, c))
      | Enum D Dep \<Rightarrow>
          (let Tag = EnumDecls ctx D;
               L = Enum_LinkageInternal Tag;
               IsLocalOrUnnamed = (Enum_InFunctionOrMethod Tag \<or> \<not> Enum_HasNameForLinkage Tag)
           in Inr (CachedProperties L IsLocalOrUnnamed, c))
      | Complex E \<Rightarrow> Cache_get ctx (getTypePtr E) c
      | Pointer P \<Rightarrow> Cache_get ctx (getTypePtr P) c
      | BlockPointer P \<Rightarrow> Cache_get ctx (getTypePtr P) c
      | LValueReference P S \<Rightarrow> Cache_get ctx (getTypePtr P) c
      | RValueReference P \<Rightarrow> Cache_get ctx (getTypePtr P) c
      | MemberPointer P Cls \<Rightarrow>
          bindE (Cache_get ctx Cls c) (\<lambda>(L, c1).
            bindE (Cache_get ctx (getTypePtr P) c1) (\<lambda>(R, c2).
              Inr (merge L R, c2)))
      | ConstantArray E N \<Rightarrow> Cache_get ctx (getTypePtr E) c
      | IncompleteArray E \<Rightarrow> Cache_get ctx (getTypePtr E) c
      | VariableArray E X \<Rightarrow> Cache_get ctx (getTypePtr E) c
      | Vector E N \<Rightarrow> Cache_get ctx (getTypePtr E) c
      | ExtVector E N \<Rightarrow> Cache_get ctx (getTypePtr E) c
      | FunctionNoProto R \<Rightarrow> Cache_get ctx (getTypePtr R) c
      | FunctionProto R Ps EST Exs \<Rightarrow>
          bindE (Cache_get ctx (getTypePtr R) c) (\<lambda>(result, c1).
            mergeParams ctx Ps result c1)
      | ObjCInterface D \<Rightarrow>
          (let L = Iface_LinkageInternal (ObjCInterfaceDecls ctx D)
           in Inr (CachedProperties L False, c))
      | ObjCObject B Args Protos K \<Rightarrow> Cache_get ctx (getTypePtr B) c
      | ObjCObjectPointer P \<Rightarrow> Cache_get ctx (getTypePtr P) c
      | Atomic V \<Rightarrow> Cache_get ctx (getTypePtr V) c
      | Pipe E \<Rightarrow> Cache_get ctx (getTypePtr E) c
      | TypeVariable Depth Idx \<Rightarrow> Inr (CachedProperties ExternalLinkage False, c)
      | _ \<Rightarrow>
          if isInstantiationDependentType T
          then Inr (CachedProperties ExternalLinkage False, c)
          else Inl AssertionFailure)"
| "mergeParams ctx [] result c = Inr (result, c)"
| "mergeParams ctx (ai # rest) result c =
     bindE (Cache_get ctx (getTypePtr ai) c) (\<lambda>(P, c1).
       mergeParams ctx rest (merge result P) c1)"
  by pat_completeness auto
termination
proof (relation "measure (\<lambda>x. case x of
          Inl (Inl (ctx, T, c)) \<Rightarrow> 4 * size T + 3
        | Inl (Inr (ctx, T, c)) \<Rightarrow> 4 * size T + (if isCanonicalUnqualified T then 1 else 2)
        | Inr (Inl (ctx, T, c)) \<Rightarrow> 4 * size T
        | Inr (Inr (ctx, Ps, result, c)) \<Rightarrow> 4 * size_list size Ps)")
qed (auto simp: size_QualType_eq size_list_QualType isCanonicalUnqualified_def
       canonical_node_idem size_canonical_less)

declare Cache_get.simps [simp del] ensure.simps [simp del]
  computeCachedProperties.simps [simp del]

text \<open>\<open>Type::getLinkage\<close> and \<open>Type::hasUnnamedOrLocalType\<close> (lines 3659 to 3667).\<close>

definition Type_getLinkage :: "ASTContext \<Rightarrow> Type \<Rightarrow> TypeCache \<Rightarrow> error + Linkage \<times> TypeCache" where
  "Type_getLinkage ctx T c =
     bindE (ensure ctx T c) (\<lambda>c'. bindE (TypeBits_getLinkage (c' T)) (\<lambda>L. Inr (L, c')))"

definition Type_hasUnnamedOrLocalType ::
  "ASTContext \<Rightarrow> Type \<Rightarrow> TypeCache \<Rightarrow> error + bool \<times> TypeCache" where
  "Type_hasUnnamedOrLocalType ctx T c =
     bindE (ensure ctx T c) (\<lambda>c'.
       bindE (TypeBits_hasLocalOrUnnamedType (c' T)) (\<lambda>b. Inr (b, c')))"

text \<open>
  \<open>LinkageComputer::computeTypeLinkageInfo\<close> (lines 3669 to 3742), the same recursion
  without the cache and without the flag.

  Modelled from the spec: \<open>LinkageInfo\<close> (Visibility.h) and
  \<open>getDeclLinkageAndVisibility\<close> (Decl.cpp) are not among the sources. A
  \<open>LinkageInfo\<close> is represented by its linkage, which its \<open>merge\<close> computes from the
  linkages alone, as the minimum (section 4.4); the linkage of a declaration is the one
  value that section 6 lists for a named declaration (the assertion of line 3759 relies
  on the two agreeing).
\<close>

definition mergeLinkage :: "error + Linkage \<Rightarrow> error + Linkage \<Rightarrow> error + Linkage" where
  "mergeLinkage LV other = bindE LV (\<lambda>a. bindE other (\<lambda>b. Inr (minLinkage a b)))"

primrec computeTypeLinkageInfo_QualType :: "ASTContext \<Rightarrow> QualType \<Rightarrow> error + Linkage"
  and computeTypeLinkageInfo :: "ASTContext \<Rightarrow> Type \<Rightarrow> error + Linkage" where
  "computeTypeLinkageInfo_QualType ctx (QualType T Q) = computeTypeLinkageInfo ctx T"
| "computeTypeLinkageInfo ctx (Paren I) = Inl AssertionFailure"
| "computeTypeLinkageInfo ctx (Typedef D U) = Inl AssertionFailure"
| "computeTypeLinkageInfo ctx (Adjusted Orig Adj) = Inl AssertionFailure"
| "computeTypeLinkageInfo ctx (Decayed Orig Adj) = Inl AssertionFailure"
| "computeTypeLinkageInfo ctx (Elaborated N) = Inl AssertionFailure"
| "computeTypeLinkageInfo ctx (Attributed K M Eq) = Inl AssertionFailure"
| "computeTypeLinkageInfo ctx (SubstTemplateTypeParm Par R) = Inl AssertionFailure"
| "computeTypeLinkageInfo ctx (ObjCTypeParam D U Protos) = Inl AssertionFailure"
| "computeTypeLinkageInfo ctx (DependentSizedArray E X) =
     (if isInstantiationDependentType (DependentSizedArray E X) then Inr ExternalLinkage
      else Inl AssertionFailure)"
| "computeTypeLinkageInfo ctx (DependentSizedExtVector E X) =
     (if isInstantiationDependentType (DependentSizedExtVector E X) then Inr ExternalLinkage
      else Inl AssertionFailure)"
| "computeTypeLinkageInfo ctx (DependentAddressSpace E X) =
     (if isInstantiationDependentType (DependentAddressSpace E X) then Inr ExternalLinkage
      else Inl AssertionFailure)"
| "computeTypeLinkageInfo ctx (UnresolvedUsing D) =
     (if isInstantiationDependentType (UnresolvedUsing D) then Inr ExternalLinkage
      else Inl AssertionFailure)"
| "computeTypeLinkageInfo ctx (TypeOfExpr E U) =
     (if isInstantiationDependentType (TypeOfExpr E U) then Inr ExternalLinkage
      else Inl AssertionFailure)"
| "computeTypeLinkageInfo ctx (TypeOf U) =
     (if isInstantiationDependentType (TypeOf U) then Inr ExternalLinkage
      else Inl AssertionFailure)"
| "computeTypeLinkageInfo ctx (Decltype E U) =
     (if isInstantiationDependentType (Decltype E U) then Inr ExternalLinkage
      else Inl AssertionFailure)"
| "computeTypeLinkageInfo ctx (UnaryTransform B U) =
     (if isInstantiationDependentType (UnaryTransform B U) then Inr ExternalLinkage
      else Inl AssertionFailure)"
| "computeTypeLinkageInfo ctx (TemplateTypeParm Depth Idx D) =
     (if isInstantiationDependentType (TemplateTypeParm Depth Idx D) then Inr ExternalLinkage
      else Inl AssertionFailure)"
| "computeTypeLinkageInfo ctx (SubstTemplateTypeParmPack D) =
     (if isInstantiationDependentType (SubstTemplateTypeParmPack D) then Inr ExternalLinkage
      else Inl AssertionFailure)"
| "computeTypeLinkageInfo ctx (TemplateSpecialization N Canon Alias) =
     (if isInstantiationDependentType (TemplateSpecialization N Canon Alias)
      then Inr ExternalLinkage else Inl AssertionFailure)"
| "computeTypeLinkageInfo ctx (InjectedClassName D) =
     (if isInstantiationDependentType (InjectedClassName D) then Inr ExternalLinkage
      else Inl AssertionFailure)"
| "computeTypeLinkageInfo ctx (DependentName D) =
     (if isInstantiationDependentType (DependentName D) then Inr ExternalLinkage
      else Inl AssertionFailure)"
| "computeTypeLinkageInfo ctx (DependentTemplateSpecialization D) =
     (if isInstantiationDependentType (DependentTemplateSpecialization D)
      then Inr ExternalLinkage else Inl AssertionFailure)"
| "computeTypeLinkageInfo ctx (PackExpansion P) =
     (if isInstantiationDependentType (PackExpansion P) then Inr ExternalLinkage
      else Inl AssertionFailure)"
| "computeTypeLinkageInfo ctx (Builtin K) = Inr ExternalLinkage"
| "computeTypeLinkageInfo ctx (Auto Deduced IsDep) = Inr ExternalLinkage"
| "computeTypeLinkageInfo ctx (DeducedTemplateSpecialization Deduced IsDep) = Inr ExternalLinkage"
| "computeTypeLinkageInfo ctx (Record D Dep) = Inr (LinkageInternal (RecordDecls ctx D))"
| "computeTypeLinkageInfo ctx (Enum D Dep) = Inr (Enum_LinkageInternal (EnumDecls ctx D))"
| "computeTypeLinkageInfo ctx (Complex E) = computeTypeLinkageInfo_QualType ctx E"
| "computeTypeLinkageInfo ctx (Pointer P) = computeTypeLinkageInfo_QualType ctx P"
| "computeTypeLinkageInfo ctx (BlockPointer P) = computeTypeLinkageInfo_QualType ctx P"
| "computeTypeLinkageInfo ctx (LValueReference P S) = computeTypeLinkageInfo_QualType ctx P"
| "computeTypeLinkageInfo ctx (RValueReference P) = computeTypeLinkageInfo_QualType ctx P"
| "computeTypeLinkageInfo ctx (MemberPointer P Cls) =
     mergeLinkage (computeTypeLinkageInfo ctx Cls) (computeTypeLinkageInfo_QualType ctx P)"
| "computeTypeLinkageInfo ctx (ConstantArray E N) = computeTypeLinkageInfo_QualType ctx E"
| "computeTypeLinkageInfo ctx (IncompleteArray E) = computeTypeLinkageInfo_QualType ctx E"
| "computeTypeLinkageInfo ctx (VariableArray E X) = computeTypeLinkageInfo_QualType ctx E"
| "computeTypeLinkageInfo ctx (Vector E N) = computeTypeLinkageInfo_QualType ctx E"
| "computeTypeLinkageInfo ctx (ExtVector E N) = computeTypeLinkageInfo_QualType ctx E"
| "computeTypeLinkageInfo ctx (FunctionNoProto R) = computeTypeLinkageInfo_QualType ctx R"
| "computeTypeLinkageInfo ctx (FunctionProto R Ps EST Exs) =
     foldl mergeLinkage (computeTypeLinkageInfo_QualType ctx R)
       (map (computeTypeLinkageInfo_QualType ctx) Ps)"
| "computeTypeLinkageInfo ctx (ObjCInterface D) =
     Inr (Iface_LinkageInternal (ObjCInterfaceDecls ctx D))"
| "computeTypeLinkageInfo ctx (ObjCObject B Args Protos K) = computeTypeLinkageInfo_QualType ctx B"
| "computeTypeLinkageInfo ctx (ObjCObjectPointer P) = computeTypeLinkageInfo_QualType ctx P"
| "computeTypeLinkageInfo ctx (Atomic V) = computeTypeLinkageInfo_QualType ctx V"
| "computeTypeLinkageInfo ctx (Pipe E) = computeTypeLinkageInfo_QualType ctx E"
| "computeTypeLinkageInfo ctx (TypeVariable Depth Idx) = Inr ExternalLinkage"

text \<open>
  The caches that queries can leave behind: the bits of fresh nodes, and the bits after
  one more call of \<open>Cache::ensure\<close> that returned, the declarations being fixed.
\<close>

inductive reachableCache :: "ASTContext \<Rightarrow> TypeCache \<Rightarrow> bool" for ctx :: ASTContext where
  fresh: "reachableCache ctx freshCache"
| query: "reachableCache ctx c \<Longrightarrow> ensure ctx T c = Inr c' \<Longrightarrow> reachableCache ctx c'"

text \<open>
  What a cache built in this way holds for a node: the properties of its canonical type,
  computed by the same switch without reading or writing any cache bit. \<open>cache_ok\<close> is
  the invariant that every valid entry holds them, \<open>sim\<close> relates a run on the cache to
  them.
\<close>

definition dependentProperties :: "Type \<Rightarrow> error + CachedProperties" where
  "dependentProperties T =
     (if isInstantiationDependentType T then Inr (CachedProperties ExternalLinkage False)
      else Inl AssertionFailure)"

lemma canonical_size_dest:
  "getTypePtr (getCanonicalTypeInternal T) = X \<Longrightarrow> size X \<le> size T"
  using size_canonical(2) [of T] by simp

function linkageProperties :: "ASTContext \<Rightarrow> Type \<Rightarrow> error + CachedProperties"
  and paramsProperties ::
    "ASTContext \<Rightarrow> QualType list \<Rightarrow> CachedProperties \<Rightarrow> error + CachedProperties"
where
  "linkageProperties ctx T =
     (case getTypePtr (getCanonicalTypeInternal T) of
        Paren I \<Rightarrow> Inl AssertionFailure
      | Typedef D U \<Rightarrow> Inl AssertionFailure
      | Adjusted Orig Adj \<Rightarrow> Inl AssertionFailure
      | Decayed Orig Adj \<Rightarrow> Inl AssertionFailure
      | Elaborated N \<Rightarrow> Inl AssertionFailure
      | Attributed K M Eq \<Rightarrow> Inl AssertionFailure
      | SubstTemplateTypeParm Par R \<Rightarrow> Inl AssertionFailure
      | ObjCTypeParam D U Protos \<Rightarrow> Inl AssertionFailure
      | Auto Deduced IsDep \<Rightarrow> Inr (CachedProperties ExternalLinkage False)
      | DeducedTemplateSpecialization Deduced IsDep \<Rightarrow>
          Inr (CachedProperties ExternalLinkage False)
      | Builtin K \<Rightarrow> Inr (CachedProperties ExternalLinkage False)
      | Record D Dep \<Rightarrow>
          Inr (CachedProperties (LinkageInternal (RecordDecls ctx D))
                 (InFunctionOrMethod (RecordDecls ctx D) \<or>
                  \<not> HasNameForLinkage (RecordDecls ctx D)))
      | Enum D Dep \<Rightarrow>
          Inr (CachedProperties (Enum_LinkageInternal (EnumDecls ctx D))
                 (Enum_InFunctionOrMethod (EnumDecls ctx D) \<or>
                  \<not> Enum_HasNameForLinkage (EnumDecls ctx D)))
      | Complex E \<Rightarrow> linkageProperties ctx (getTypePtr E)
      | Pointer P \<Rightarrow> linkageProperties ctx (getTypePtr P)
      | BlockPointer P \<Rightarrow> linkageProperties ctx (getTypePtr P)
      | LValueReference P S \<Rightarrow> linkageProperties ctx (getTypePtr P)
      | RValueReference P \<Rightarrow> linkageProperties ctx (getTypePtr P)
      | MemberPointer P Cls \<Rightarrow>
          bindE (linkageProperties ctx Cls) (\<lambda>L.
            bindE (linkageProperties ctx (getTypePtr P)) (\<lambda>R. Inr (merge L R)))
      | ConstantArray E N \<Rightarrow> linkageProperties ctx (getTypePtr E)
      | IncompleteArray E \<Rightarrow> linkageProperties ctx (getTypePtr E)
      | VariableArray E X \<Rightarrow> linkageProperties ctx (getTypePtr E)
      | Vector E N \<Rightarrow> linkageProperties ctx (getTypePtr E)
      | ExtVector E N \<Rightarrow> linkageProperties ctx (getTypePtr E)
      | FunctionNoProto R \<Rightarrow> linkageProperties ctx (getTypePtr R)
      | FunctionProto R Ps EST Exs \<Rightarrow>
          bindE (linkageProperties ctx (getTypePtr R)) (\<lambda>result.
            paramsProperties ctx Ps result)
      | ObjCInterface D \<Rightarrow>
          Inr (CachedProperties (Iface_LinkageInternal (ObjCInterfaceDecls ctx D)) False)
      | ObjCObject B Args Protos K \<Rightarrow> linkageProperties ctx (getTypePtr B)
      | ObjCObjectPointer P \<Rightarrow> linkageProperties ctx (getTypePtr P)
      | Atomic V \<Rightarrow> linkageProperties ctx (getTypePtr V)
      | Pipe E \<Rightarrow> linkageProperties ctx (getTypePtr E)
      | TypeVariable Depth Idx \<Rightarrow> Inr (CachedProperties ExternalLinkage False)
      | _ \<Rightarrow> dependentProperties (getTypePtr (getCanonicalTypeInternal T)))"
| "paramsProperties ctx [] result = Inr result"
| "paramsProperties ctx (ai # rest) result =
     bindE (linkageProperties ctx (getTypePtr ai)) (\<lambda>P.
       paramsProperties ctx rest (merge result P))"
  by pat_completeness auto
termination
proof (relation "measure (\<lambda>x. case x of
          Inl (ctx, T) \<Rightarrow> 2 * size T + 1
        | Inr (ctx, Ps, result) \<Rightarrow> 2 * size_list size Ps)")
qed (auto simp: size_QualType_eq size_list_QualType dest!: canonical_size_dest)

declare linkageProperties.simps [simp del]

definition cache_ok :: "ASTContext \<Rightarrow> TypeCache \<Rightarrow> bool" where
  "cache_ok ctx c \<longleftrightarrow>
     (\<forall>T. CacheValid (c T) \<longrightarrow>
        linkageProperties ctx T
          = Inr (CachedProperties (CachedLinkage (c T)) (CachedLocalOrUnnamed (c T))))"

definition sim ::
  "ASTContext \<Rightarrow> error + CachedProperties \<times> TypeCache \<Rightarrow> error + CachedProperties \<Rightarrow> bool" where
  "sim ctx r v =
     (case r of Inl e \<Rightarrow> v = Inl e | Inr (p, c') \<Rightarrow> v = Inr p \<and> cache_ok ctx c')"

subsection \<open>Substitution of Objective-C type arguments\<close>

text \<open>
  The rewrite engine (lines 695 to 1104) and \<open>QualType::substObjCTypeArgs\<close> (lines 1110
  to 1298) built on it. A null \<open>QualType\<close> is \<open>None\<close>. Nodes are values here, so the
  comparison of opaque pointers is the comparison of values; to tell the original node
  from a rebuilt equal one, a rewrite returns, with its result, the list of the nodes it
  has asked the context to build.
\<close>

type_synonym 'a rewritten = "error + Type list \<times> 'a"

definition returnR :: "'a \<Rightarrow> 'a rewritten" where
  "returnR x = Inr ([], x)"

definition bindR :: "'a rewritten \<Rightarrow> ('a \<Rightarrow> 'b rewritten) \<Rightarrow> 'b rewritten" where
  "bindR m f =
     (case m of
        Inl e \<Rightarrow> Inl e
      | Inr (built, x) \<Rightarrow>
          (case f x of Inl e \<Rightarrow> Inl e | Inr (built', y) \<Rightarrow> Inr (built @ built', y)))"

text \<open>
  \<open>ifNotNull\<close> is the test "if the result is null, return null" that follows every
  recursive rewrite; \<open>newType\<close> is a call of one of the constructors of the context
  (\<open>Ctx.getPointerType\<close>, ...), which returns the node without qualifiers, and
  \<open>returnNew\<close> returns what it returns; \<open>qualifiedType\<close> is
  \<open>ctx.getQualifiedType\<close>, which builds no type node.
\<close>

definition ifNotNull ::
  "QualType option rewritten \<Rightarrow> (QualType \<Rightarrow> 'a option rewritten) \<Rightarrow> 'a option rewritten" where
  "ifNotNull m f = bindR m (\<lambda>x. case x of None \<Rightarrow> returnR None | Some T \<Rightarrow> f T)"

definition newType :: "Type \<Rightarrow> QualType rewritten" where
  "newType T = Inr ([T], unqualified T)"

definition returnNew :: "Type \<Rightarrow> QualType option rewritten" where
  "returnNew T = bindR (newType T) (\<lambda>Q. returnR (Some Q))"

definition qualifiedType :: "QualType \<Rightarrow> Qualifiers \<Rightarrow> QualType option rewritten" where
  "qualifiedType T Qs =
     (case getQualifiedType_QT T Qs of Inl e \<Rightarrow> Inl e | Inr Q \<Rightarrow> returnR (Some Q))"

text \<open>\<open>QualType::split\<close>: the node and the local qualifiers.\<close>

definition QualType_split :: "QualType \<Rightarrow> SplitQualType" where
  "QualType_split T = SplitQualType (getTypePtr T) (getLocalQualifiers T)"

text \<open>
  The loop over parameter, exception and argument types (lines 877, 893, 1033, 1202,
  1221): it returns null when a rewrite does, and else the new types with the flag that
  one of them has changed.
\<close>

primrec transformTypes ::
  "(QualType \<Rightarrow> QualType option rewritten) \<Rightarrow> QualType list
     \<Rightarrow> (QualType list \<times> bool) option rewritten" where
  "transformTypes g [] = returnR (Some ([], False))"
| "transformTypes g (paramType # rest) =
     ifNotNull (g paramType) (\<lambda>newParamType.
       bindR (transformTypes g rest) (\<lambda>r.
         case r of
           None \<Rightarrow> returnR None
         | Some (paramTypes, paramChanged) \<Rightarrow>
             returnR (Some (newParamType # paramTypes,
                            newParamType \<noteq> paramType \<or> paramChanged))))"

lemma transformTypes_cong [fundef_cong]:
  "Ps = Qs \<Longrightarrow> (\<And>P. P \<in> set Qs \<Longrightarrow> g P = h P) \<Longrightarrow> transformTypes g Ps = transformTypes h Qs"
  by (induction Qs arbitrary: Ps) auto

text \<open>
  The loop over the type arguments of a specialized object type (line 1256), which
  leaves the function at the first changed argument when the substitution is based on an
  unspecialized context type.
\<close>

datatype LoopResult = ReturnNull | ReturnUnspecialized | Completed "QualType list" bool

primrec substTypeArgsLoop ::
  "(QualType \<Rightarrow> QualType option rewritten) \<Rightarrow> bool \<Rightarrow> QualType list \<Rightarrow> LoopResult rewritten" where
  "substTypeArgsLoop g unspecialized [] = returnR (Completed [] False)"
| "substTypeArgsLoop g unspecialized (typeArg # rest) =
     bindR (g typeArg) (\<lambda>new.
       case new of
         None \<Rightarrow> returnR ReturnNull
       | Some newTypeArg \<Rightarrow>
           if newTypeArg \<noteq> typeArg \<and> unspecialized then returnR ReturnUnspecialized
           else
             bindR (substTypeArgsLoop g unspecialized rest) (\<lambda>r.
               case r of
                 Completed newTypeArgs anyChanged \<Rightarrow>
                   returnR (Completed (newTypeArg # newTypeArgs)
                              (newTypeArg \<noteq> typeArg \<or> anyChanged))
               | ReturnNull \<Rightarrow> returnR ReturnNull
               | ReturnUnspecialized \<Rightarrow> returnR ReturnUnspecialized))"

lemma substTypeArgsLoop_cong [fundef_cong]:
  "Ps = Qs \<Longrightarrow> (\<And>P. P \<in> set Qs \<Longrightarrow> g P = h P) \<Longrightarrow>
   substTypeArgsLoop g u Ps = substTypeArgsLoop h u Qs"
  by (induction Qs arbitrary: Ps) (auto cong: if_cong)

text \<open>
  \<open>ObjCObjectType::isKindOfType\<close> (lines 649 to 663).

  Modelled from the spec: the accessors of the object pointer type (\<open>getObjectType\<close>,
  \<open>isKindOfType\<close>, \<open>isObjCIdOrClassType\<close>) and those of \<open>DeducedType\<close>
  (\<open>isDeduced\<close>, \<open>getDeducedType\<close>) are declared in Type.h. Section 4.5: the
  declared bound of a parameter is wrapped in the open-class-family marker unless it
  carries the marker already or is one of the unqualified builtin object types \<open>id\<close>
  and \<open>Class\<close>. An interface type is an object type that is its own base, without
  type arguments, protocols and marker. A placeholder keeps what it was deduced as in
  its canonical-form reference (section 3), as the sugar rules above read it: its
  deduced type is its canonical type when it is not its own canonical type, and it
  counts as deduced also when it is dependent, with a null deduced type.
\<close>

function isKindOfType :: "Type \<Rightarrow> bool" where
  "isKindOfType T =
     (case T of
        ObjCObject B Args Protos K \<Rightarrow>
          if K then True
          else (case getAs ObjCObjectType (getTypePtr B) of
                  Some objcObject \<Rightarrow>
                    if getTypeClass objcObject = TC_ObjCInterface then False
                    else isKindOfType objcObject
                | None \<Rightarrow> False)
      | _ \<Rightarrow> False)"
  by pat_completeness auto
termination
proof (relation "measure size")
  show "wf (measure size)" by simp
next
  fix T B Args Protos K objcObject
  assume "T = ObjCObject B Args Protos K" "getAs ObjCObjectType (getTypePtr B) = Some objcObject"
  then show "(objcObject, T) \<in> measure size"
    using size_getAs [of ObjCObjectType "getTypePtr B" objcObject]
    by (simp add: size_QualType_eq)
qed

declare isKindOfType.simps [simp del]

definition getObjectType :: "Type \<Rightarrow> error + Type" where
  "getObjectType objPtr =
     (case objPtr of
        ObjCObjectPointer P \<Rightarrow>
          (case getAs ObjCObjectType (getTypePtr P) of
             None \<Rightarrow> Inl AssertionFailure | Some obj \<Rightarrow> Inr obj)
      | _ \<Rightarrow> Inl AssertionFailure)"

definition isObjCUnqualifiedIdOrClass :: "Type \<Rightarrow> bool" where
  "isObjCUnqualifiedIdOrClass obj =
     (case obj of
        ObjCObject B Args Protos K \<Rightarrow>
          Protos = [] \<and>
          (case getAs {TC_Builtin} (getTypePtr B) of
             Some (Builtin Kind) \<Rightarrow> Kind = BT_ObjCId \<or> Kind = BT_ObjCClass
           | _ \<Rightarrow> False)
      | _ \<Rightarrow> False)"

definition isDeduced :: "Type \<Rightarrow> bool" where
  "isDeduced T \<longleftrightarrow> \<not> isCanonicalUnqualified T \<or> isDependentType T"

definition getDeducedType :: "Type \<Rightarrow> QualType option" where
  "getDeducedType T =
     (if \<not> isCanonicalUnqualified T then Some (getCanonicalTypeInternal T) else None)"

datatype ObjCSubstitutionContext = Ordinary | Result | Parameter | Property | Superclass

text \<open>
  The replacement of a type parameter reference (lines 1120 to 1173): the type argument
  at the index of the parameter, with the protocols of the reference applied; without
  type arguments the declared bound, in a result or property position in its
  \<open>__kindof\<close> form.
\<close>

definition applyObjCProtocolQualifiers ::
  "ASTContext \<Rightarrow> QualType \<Rightarrow> decl_id list \<Rightarrow> QualType rewritten" where
  "applyObjCProtocolQualifiers ctx T Protos =
     (let resultTy = ApplyObjCProtocolQualifiers ctx T Protos
      in Inr ([getTypePtr resultTy], resultTy))"

definition substTypeParam ::
  "ASTContext \<Rightarrow> QualType list \<Rightarrow> ObjCSubstitutionContext \<Rightarrow> decl_id \<Rightarrow> decl_id list
     \<Rightarrow> Qualifiers \<Rightarrow> QualType option rewritten" where
  "substTypeParam ctx typeArgs cx D Protos Qs =
     (let typeParam = ObjCTypeParamDecls ctx D in
      if typeArgs \<noteq> [] then
        (if TypeParam_Index typeParam < length typeArgs then
           (let argType = typeArgs ! TypeParam_Index typeParam in
            if Protos = [] then qualifiedType argType Qs
            else bindR (applyObjCProtocolQualifiers ctx argType Protos)
                   (\<lambda>resultTy. qualifiedType resultTy Qs))
         else Inl AssertionFailure)
      else if cx = Ordinary \<or> cx = Parameter \<or> cx = Superclass
      then qualifiedType (TypeParam_UnderlyingType typeParam) Qs
      else
        (case getAs {TC_ObjCObjectPointer} (getTypePtr (TypeParam_UnderlyingType typeParam)) of
           None \<Rightarrow> Inl AssertionFailure
         | Some objPtr \<Rightarrow>
             (case getObjectType objPtr of
                Inl e \<Rightarrow> Inl e
              | Inr obj \<Rightarrow>
                  if isKindOfType obj \<or> isObjCUnqualifiedIdOrClass obj
                  then qualifiedType (TypeParam_UnderlyingType typeParam) Qs
                  else
                    bindR (newType (case obj of
                                      ObjCObject B Args ObjProtos K \<Rightarrow>
                                        ObjCObject B Args ObjProtos True
                                    | _ \<Rightarrow> ObjCObject (unqualified obj) [] [] True))
                      (\<lambda>resultTy.
                         bindR (newType (ObjCObjectPointer resultTy))
                           (\<lambda>ptrTy. qualifiedType ptrTy Qs)))))"

text \<open>
  \<open>substObjCTypeArgs\<close> is \<open>simpleTransform\<close> at the lambda of lines 1115 to 1297,
  here \<open>substLambda\<close>; \<open>Visit\<close> is the dispatch of the visitor on the class of the
  node with the rules of lines 716 to 1080, whose \<open>recurse\<close> is \<open>simpleTransform\<close>
  at the same lambda, that is with the same type arguments and the same context.

  Modelled from the spec: the dispatch (TypeVisitor.h) is not among the sources. A class
  for which the visitor declares no rule falls back to the rule of its base class and in
  the end to the default rule, which cannot produce a result and returns the "no type"
  sentinel of section 7, a null \<open>QualType\<close>; the visitor of line 1600 relies on the same
  default. The visitor declares a rule for the dependent classes (line 717) and for the
  classes it names; it declares none for \<open>PipeType\<close>,
  \<open>DeducedTemplateSpecializationType\<close> and \<open>TypeVariableType\<close>, which the switch of
  line 3564 names as classes of their own.
\<close>

lemma size_list_member: "P \<in> set Ps \<Longrightarrow> size P < size_list size Ps"
  by (induction Ps) auto

lemma size_deduced:
  "getDeducedType (Auto Deduced IsDep) = Some D \<Longrightarrow> size D < size (Auto Deduced IsDep)"
proof (cases Deduced)
  case None
  assume "getDeducedType (Auto Deduced IsDep) = Some D"
  with None show ?thesis by (simp add: getDeducedType_def isCanonicalUnqualified_def)
next
  case (Some C)
  assume "getDeducedType (Auto Deduced IsDep) = Some D"
  with Some have "D = getCanonicalType C"
    by (simp add: getDeducedType_def split: if_splits)
  with Some size_canonical(1) [of C] show ?thesis by (simp add: size_QualType_eq)
qed

function substObjCTypeArgs ::
    "ASTContext \<Rightarrow> QualType list \<Rightarrow> ObjCSubstitutionContext \<Rightarrow> QualType
       \<Rightarrow> QualType option rewritten"
  and simpleTransform ::
    "ASTContext \<Rightarrow> QualType list \<Rightarrow> ObjCSubstitutionContext \<Rightarrow> QualType
       \<Rightarrow> QualType option rewritten"
  and substLambda ::
    "ASTContext \<Rightarrow> QualType list \<Rightarrow> ObjCSubstitutionContext \<Rightarrow> QualType
       \<Rightarrow> QualType option rewritten"
  and Visit ::
    "ASTContext \<Rightarrow> QualType list \<Rightarrow> ObjCSubstitutionContext \<Rightarrow> Type
       \<Rightarrow> QualType option rewritten"
where
  "substObjCTypeArgs ctx typeArgs cx type = simpleTransform ctx typeArgs cx type"
| "simpleTransform ctx typeArgs cx type =
     bindR (substLambda ctx typeArgs cx type) (\<lambda>transformed.
       if transformed \<noteq> Some type then returnR transformed
       else
         (let splitType = QualType_split type in
          ifNotNull (Visit ctx typeArgs cx (Ty splitType))
            (\<lambda>result. qualifiedType result (Quals splitType))))"
| "substLambda ctx typeArgs cx type =
     (let splitType = QualType_split type in
      case Ty splitType of
        ObjCTypeParam D U Protos \<Rightarrow>
          substTypeParam ctx typeArgs cx D Protos (Quals splitType)
      | FunctionNoProto R \<Rightarrow>
          ifNotNull (substObjCTypeArgs ctx typeArgs Result R) (\<lambda>returnType.
            if returnType = R then returnR (Some type)
            else returnNew (FunctionNoProto returnType))
      | FunctionProto R Ps EST Exs \<Rightarrow>
          ifNotNull (substObjCTypeArgs ctx typeArgs Result R) (\<lambda>returnType.
            bindR (transformTypes (\<lambda>paramType. substObjCTypeArgs ctx typeArgs Parameter paramType) Ps)
              (\<lambda>ps. case ps of
                 None \<Rightarrow> returnR None
               | Some (paramTypes, paramChanged) \<Rightarrow>
                   bindR (if EST = EST_Dynamic
                          then transformTypes
                                 (\<lambda>exceptionType.
                                    substObjCTypeArgs ctx typeArgs Ordinary exceptionType) Exs
                          else returnR (Some (Exs, False)))
                     (\<lambda>es. case es of
                        None \<Rightarrow> returnR None
                      | Some (exceptionTypes, exceptionChanged) \<Rightarrow>
                          if returnType = R \<and> \<not> paramChanged \<and> \<not> exceptionChanged
                          then returnR (Some type)
                          else returnNew (FunctionProto returnType paramTypes EST
                                 (if exceptionChanged then exceptionTypes else Exs)))))
      | ObjCObject B Args Protos K \<Rightarrow>
          if Args \<noteq> [] then
            bindR (substTypeArgsLoop
                     (\<lambda>typeArg. substObjCTypeArgs ctx typeArgs Ordinary typeArg)
                     (typeArgs = [] \<and> cx \<noteq> Superclass) Args)
              (\<lambda>r. case r of
                 ReturnNull \<Rightarrow> returnR None
               | ReturnUnspecialized \<Rightarrow> returnNew (ObjCObject B [] Protos K)
               | Completed newTypeArgs anyChanged \<Rightarrow>
                   if anyChanged then returnNew (ObjCObject B newTypeArgs Protos K)
                   else returnR (Some type))
          else returnR (Some type)
      | _ \<Rightarrow> returnR (Some type))"
| "Visit ctx typeArgs cx T =
     (case T of
        Complex E \<Rightarrow>
          ifNotNull (simpleTransform ctx typeArgs cx E) (\<lambda>elementType.
            if elementType = E then returnR (Some (unqualified T))
            else returnNew (Complex elementType))
      | Pointer P \<Rightarrow>
          ifNotNull (simpleTransform ctx typeArgs cx P) (\<lambda>pointeeType.
            if pointeeType = P then returnR (Some (unqualified T))
            else returnNew (Pointer pointeeType))
      | BlockPointer P \<Rightarrow>
          ifNotNull (simpleTransform ctx typeArgs cx P) (\<lambda>pointeeType.
            if pointeeType = P then returnR (Some (unqualified T))
            else returnNew (BlockPointer pointeeType))
      | LValueReference P S \<Rightarrow>
          ifNotNull (simpleTransform ctx typeArgs cx P) (\<lambda>pointeeType.
            if pointeeType = P then returnR (Some (unqualified T))
            else returnNew (LValueReference pointeeType S))
      | RValueReference P \<Rightarrow>
          ifNotNull (simpleTransform ctx typeArgs cx P) (\<lambda>pointeeType.
            if pointeeType = P then returnR (Some (unqualified T))
            else returnNew (RValueReference pointeeType))
      | MemberPointer P Cls \<Rightarrow>
          ifNotNull (simpleTransform ctx typeArgs cx P) (\<lambda>pointeeType.
            if pointeeType = P then returnR (Some (unqualified T))
            else returnNew (MemberPointer pointeeType Cls))
      | ConstantArray E N \<Rightarrow>
          ifNotNull (simpleTransform ctx typeArgs cx E) (\<lambda>elementType.
            if elementType = E then returnR (Some (unqualified T))
            else returnNew (ConstantArray elementType N))
      | VariableArray E X \<Rightarrow>
          ifNotNull (simpleTransform ctx typeArgs cx E) (\<lambda>elementType.
            if elementType = E then returnR (Some (unqualified T))
            else returnNew (VariableArray elementType X))
      | IncompleteArray E \<Rightarrow>
          ifNotNull (simpleTransform ctx typeArgs cx E) (\<lambda>elementType.
            if elementType = E then returnR (Some (unqualified T))
            else returnNew (IncompleteArray elementType))
      | Vector E N \<Rightarrow>
          ifNotNull (simpleTransform ctx typeArgs cx E) (\<lambda>elementType.
            if elementType = E then returnR (Some (unqualified T))
            else returnNew (Vector elementType N))
      | ExtVector E N \<Rightarrow>
          ifNotNull (simpleTransform ctx typeArgs cx E) (\<lambda>elementType.
            if elementType = E then returnR (Some (unqualified T))
            else returnNew (ExtVector elementType N))
      | FunctionNoProto R \<Rightarrow>
          ifNotNull (simpleTransform ctx typeArgs cx R) (\<lambda>returnType.
            if returnType = R then returnR (Some (unqualified T))
            else returnNew (FunctionNoProto returnType))
      | FunctionProto R Ps EST Exs \<Rightarrow>
          ifNotNull (simpleTransform ctx typeArgs cx R) (\<lambda>returnType.
            bindR (transformTypes (\<lambda>paramType. simpleTransform ctx typeArgs cx paramType) Ps)
              (\<lambda>ps. case ps of
                 None \<Rightarrow> returnR None
               | Some (paramTypes, paramChanged) \<Rightarrow>
                   bindR (if EST = EST_Dynamic
                          then transformTypes
                                 (\<lambda>exceptionType.
                                    simpleTransform ctx typeArgs cx exceptionType) Exs
                          else returnR (Some (Exs, False)))
                     (\<lambda>es. case es of
                        None \<Rightarrow> returnR None
                      | Some (exceptionTypes, exceptionChanged) \<Rightarrow>
                          if returnType = R \<and> \<not> paramChanged \<and> \<not> exceptionChanged
                          then returnR (Some (unqualified T))
                          else returnNew (FunctionProto returnType paramTypes EST
                                 (if exceptionChanged then exceptionTypes else Exs)))))
      | Paren I \<Rightarrow>
          ifNotNull (simpleTransform ctx typeArgs cx I) (\<lambda>innerType.
            if innerType = I then returnR (Some (unqualified T))
            else returnNew (Paren innerType))
      | Adjusted Orig Adj \<Rightarrow>
          ifNotNull (simpleTransform ctx typeArgs cx Orig) (\<lambda>originalType.
            ifNotNull (simpleTransform ctx typeArgs cx Adj) (\<lambda>adjustedType.
              if originalType = Orig \<and> adjustedType = Adj then returnR (Some (unqualified T))
              else returnNew (Adjusted originalType adjustedType)))
      | Decayed Orig Adj \<Rightarrow>
          ifNotNull (simpleTransform ctx typeArgs cx Orig) (\<lambda>originalType.
            if originalType = Orig then returnR (Some (unqualified T))
            else returnNew (Decayed originalType (DecayedTypeOf ctx originalType)))
      | Attributed K M Eq \<Rightarrow>
          ifNotNull (simpleTransform ctx typeArgs cx M) (\<lambda>modifiedType.
            ifNotNull (simpleTransform ctx typeArgs cx Eq) (\<lambda>equivalentType.
              if modifiedType = M \<and> equivalentType = Eq then returnR (Some (unqualified T))
              else returnNew (Attributed K modifiedType equivalentType)))
      | SubstTemplateTypeParm Par R \<Rightarrow>
          ifNotNull (simpleTransform ctx typeArgs cx R) (\<lambda>replacementType.
            if replacementType = R then returnR (Some (unqualified T))
            else returnNew (SubstTemplateTypeParm Par replacementType))
      | Auto Deduced IsDep \<Rightarrow>
          if \<not> isDeduced T then returnR (Some (unqualified T))
          else
            (case getDeducedType T of
               None \<Rightarrow> Inl AssertionFailure
             | Some D \<Rightarrow>
                 ifNotNull (simpleTransform ctx typeArgs cx D) (\<lambda>deducedType.
                   if deducedType = D then returnR (Some (unqualified T))
                   else returnNew (Auto (Some deducedType) (isDependentType T))))
      | ObjCObject B Args Protos K \<Rightarrow>
          ifNotNull (simpleTransform ctx typeArgs cx B) (\<lambda>baseType.
            bindR (transformTypes (\<lambda>typeArg. simpleTransform ctx typeArgs cx typeArg) Args)
              (\<lambda>as. case as of
                 None \<Rightarrow> returnR None
               | Some (newTypeArgs, typeArgChanged) \<Rightarrow>
                   if baseType = B \<and> \<not> typeArgChanged then returnR (Some (unqualified T))
                   else returnNew (ObjCObject baseType newTypeArgs Protos K)))
      | ObjCObjectPointer P \<Rightarrow>
          ifNotNull (simpleTransform ctx typeArgs cx P) (\<lambda>pointeeType.
            if pointeeType = P then returnR (Some (unqualified T))
            else returnNew (ObjCObjectPointer pointeeType))
      | Atomic V \<Rightarrow>
          ifNotNull (simpleTransform ctx typeArgs cx V) (\<lambda>valueType.
            if valueType = V then returnR (Some (unqualified T))
            else returnNew (Atomic valueType))
      | Pipe E \<Rightarrow> returnR None
      | DeducedTemplateSpecialization Deduced IsDep \<Rightarrow> returnR None
      | TypeVariable Depth Idx \<Rightarrow> returnR None
      | _ \<Rightarrow> returnR (Some (unqualified T)))"
  by pat_completeness auto
termination
proof (relation "measure (\<lambda>x. case x of
          Inl (Inl (ctx, typeArgs, cx, type)) \<Rightarrow> 4 * size type + 3
        | Inl (Inr (ctx, typeArgs, cx, type)) \<Rightarrow> 4 * size type + 2
        | Inr (Inl (ctx, typeArgs, cx, type)) \<Rightarrow> 4 * size type + 1
        | Inr (Inr (ctx, typeArgs, cx, T)) \<Rightarrow> 4 * size T + 1)")
qed (auto simp: QualType_split_def size_QualType_eq size_list_QualType
       dest!: size_list_member size_deduced)

declare substObjCTypeArgs.simps [simp del] simpleTransform.simps [simp del]
  substLambda.simps [simp del] Visit.simps [simp del]

text \<open>
  The nodes of a type: the node itself and the nodes of every type it is built from or
  refers to.
\<close>

primrec nodes_QualType :: "QualType \<Rightarrow> Type list"
  and nodes :: "Type \<Rightarrow> Type list" where
  "nodes_QualType (QualType T Q) = nodes T"
| "nodes (Builtin K) = [Builtin K]"
| "nodes (Complex E) = Complex E # nodes_QualType E"
| "nodes (Pointer P) = Pointer P # nodes_QualType P"
| "nodes (BlockPointer P) = BlockPointer P # nodes_QualType P"
| "nodes (LValueReference P S) = LValueReference P S # nodes_QualType P"
| "nodes (RValueReference P) = RValueReference P # nodes_QualType P"
| "nodes (MemberPointer P Cls) = MemberPointer P Cls # nodes_QualType P @ nodes Cls"
| "nodes (ConstantArray E N) = ConstantArray E N # nodes_QualType E"
| "nodes (IncompleteArray E) = IncompleteArray E # nodes_QualType E"
| "nodes (VariableArray E X) = VariableArray E X # nodes_QualType E"
| "nodes (DependentSizedArray E X) = DependentSizedArray E X # nodes_QualType E"
| "nodes (DependentSizedExtVector E X) = DependentSizedExtVector E X # nodes_QualType E"
| "nodes (DependentAddressSpace E X) = DependentAddressSpace E X # nodes_QualType E"
| "nodes (Vector E N) = Vector E N # nodes_QualType E"
| "nodes (ExtVector E N) = ExtVector E N # nodes_QualType E"
| "nodes (FunctionProto R Ps EST Exs) =
     FunctionProto R Ps EST Exs #
     nodes_QualType R @ concat (map nodes_QualType Ps) @ concat (map nodes_QualType Exs)"
| "nodes (FunctionNoProto R) = FunctionNoProto R # nodes_QualType R"
| "nodes (UnresolvedUsing D) = [UnresolvedUsing D]"
| "nodes (Paren I) = Paren I # nodes_QualType I"
| "nodes (Typedef D U) = Typedef D U # nodes_QualType U"
| "nodes (Adjusted Orig Adj) = Adjusted Orig Adj # nodes_QualType Orig @ nodes_QualType Adj"
| "nodes (Decayed Orig Adj) = Decayed Orig Adj # nodes_QualType Orig @ nodes_QualType Adj"
| "nodes (TypeOfExpr E U) = TypeOfExpr E U # nodes_QualType U"
| "nodes (TypeOf U) = TypeOf U # nodes_QualType U"
| "nodes (Decltype E U) = Decltype E U # nodes_QualType U"
| "nodes (UnaryTransform B U) = UnaryTransform B U # nodes_QualType B @ nodes_QualType U"
| "nodes (Record D Dep) = [Record D Dep]"
| "nodes (Enum D Dep) = [Enum D Dep]"
| "nodes (Elaborated N) = Elaborated N # nodes_QualType N"
| "nodes (Attributed K M Eq) = Attributed K M Eq # nodes_QualType M @ nodes_QualType Eq"
| "nodes (TemplateTypeParm Depth Idx D) = [TemplateTypeParm Depth Idx D]"
| "nodes (SubstTemplateTypeParm Par R) =
     SubstTemplateTypeParm Par R # nodes Par @ nodes_QualType R"
| "nodes (SubstTemplateTypeParmPack D) = [SubstTemplateTypeParmPack D]"
| "nodes (TemplateSpecialization N Canon Alias) =
     TemplateSpecialization N Canon Alias #
     (case map_option nodes_QualType Canon of None \<Rightarrow> [] | Some ns \<Rightarrow> ns)"
| "nodes (Auto Deduced IsDep) =
     Auto Deduced IsDep #
     (case map_option nodes_QualType Deduced of None \<Rightarrow> [] | Some ns \<Rightarrow> ns)"
| "nodes (DeducedTemplateSpecialization Deduced IsDep) =
     DeducedTemplateSpecialization Deduced IsDep #
     (case map_option nodes_QualType Deduced of None \<Rightarrow> [] | Some ns \<Rightarrow> ns)"
| "nodes (InjectedClassName D) = [InjectedClassName D]"
| "nodes (DependentName D) = [DependentName D]"
| "nodes (DependentTemplateSpecialization D) = [DependentTemplateSpecialization D]"
| "nodes (PackExpansion P) = PackExpansion P # nodes_QualType P"
| "nodes (ObjCTypeParam D U Protos) = ObjCTypeParam D U Protos # nodes_QualType U"
| "nodes (ObjCObject B Args Protos K) =
     ObjCObject B Args Protos K #
     nodes_QualType B @ concat (map nodes_QualType Args)"
| "nodes (ObjCInterface D) = [ObjCInterface D]"
| "nodes (ObjCObjectPointer P) = ObjCObjectPointer P # nodes_QualType P"
| "nodes (Pipe E) = Pipe E # nodes_QualType E"
| "nodes (Atomic V) = Atomic V # nodes_QualType V"
| "nodes (TypeVariable Depth Idx) = [TypeVariable Depth Idx]"

text \<open>
  The nodes at which the rewrite has nothing to replace and produces a result: a node
  that is not a reference to a type parameter, that has a rule in the visitor, and that
  is not a dependent \<open>auto\<close> without deduced type (deduced according to
  \<open>isDeduced\<close>, with a null deduced type to rewrite).
\<close>

definition isTypeParamReference :: "Type \<Rightarrow> bool" where
  "isTypeParamReference N \<longleftrightarrow> getTypeClass N = TC_ObjCTypeParam"

definition hasRewriteRule :: "Type \<Rightarrow> bool" where
  "hasRewriteRule N \<longleftrightarrow>
     getTypeClass N \<notin> {TC_Pipe, TC_DeducedTemplateSpecialization, TC_TypeVariable}"

definition isDependentAutoWithoutType :: "Type \<Rightarrow> bool" where
  "isDependentAutoWithoutType N \<longleftrightarrow>
     getTypeClass N = TC_Auto \<and> isDeduced N \<and> getDeducedType N = None"

definition rewritesToItself :: "Type \<Rightarrow> bool" where
  "rewritesToItself N \<longleftrightarrow>
     \<not> isTypeParamReference N \<and> hasRewriteRule N \<and>
     \<not> isDependentAutoWithoutType N"


subsection \<open>Example declarations\<close>

text \<open>
  A complete unscoped enumeration, a defined interface, the definition data of an empty
  trivial class, a class declaration around a given C++ part (without that part's
  definition data the class is only forward declared), a generic type parameter bounded
  by \<open>id\<close>, and a context over a table of record declarations in C++98 mode with
  one-byte types, in which protocol lists apply trivially and every type decays to a
  pointer to it.
\<close>

definition exampleEnumDecl :: EnumDecl where
  "exampleEnumDecl = \<lparr>Enum_IsCompleteDefinition = True, Enum_IsFixed = False,
     Enum_IsScoped = False, Enum_LinkageInternal = ExternalLinkage,
     Enum_InFunctionOrMethod = False, Enum_HasNameForLinkage = True\<rparr>"

definition exampleInterfaceDecl :: ObjCInterfaceDecl where
  "exampleInterfaceDecl = \<lparr>Iface_HasDefinition = True, Iface_LinkageInternal = ExternalLinkage\<rparr>"

definition exampleDefinitionData :: DefinitionData where
  "exampleDefinitionData = \<lparr>DD_Empty = True, DD_PlainOldData = True, DD_IsStandardLayout = True,
     DD_IsLambda = False, DD_HasDefaultConstructor = True,
     DD_HasNonTrivialDefaultConstructor = False, DD_IsTriviallyCopyable = True,
     DD_IsTrivial = True, DD_IsLiteral = True, DD_HasTrivialDestructor = True,
     DD_Bases = []\<rparr>"

definition exampleRecordDecl :: "CXXPart \<Rightarrow> RecordDecl" where
  "exampleRecordDecl Part = \<lparr>TagKind = TTK_Class, IsCompleteDefinition = (Part \<noteq> CXXRecord None),
     CXX = Part, Fields = [], HasMSInheritanceAttr = False,
     LinkageInternal = ExternalLinkage, InFunctionOrMethod = False,
     HasNameForLinkage = True\<rparr>"

definition exampleTypeParamDecl :: ObjCTypeParamDecl where
  "exampleTypeParamDecl = \<lparr>TypeParam_Index = 0,
     TypeParam_UnderlyingType =
       unqualified (ObjCObjectPointer (unqualified (ObjCObject (unqualified (Builtin BT_ObjCId))
         [] [] False)))\<rparr>"

definition exampleContext :: "(decl_id \<Rightarrow> RecordDecl) \<Rightarrow> ASTContext" where
  "exampleContext Records = \<lparr>CPlusPlus = True, CPlusPlus11 = False, CPlusPlus14 = False,
     IsMicrosoftABI = False, RecordDecls = Records, EnumDecls = (\<lambda>D. exampleEnumDecl),
     ObjCInterfaceDecls = (\<lambda>D. exampleInterfaceDecl), TypeSizeInChars = (\<lambda>T. 1),
     CharWidth = 8, ObjCTypeParamDecls = (\<lambda>D. exampleTypeParamDecl),
     ApplyObjCProtocolQualifiers = (\<lambda>T Protos. T),
     DecayedTypeOf = (\<lambda>T. unqualified (Pointer T))\<rparr>"

text \<open>A context without C++ classes; every enumeration in it is complete.\<close>

definition dependentEnumContext :: ASTContext where
  "dependentEnumContext = exampleContext (\<lambda>D. exampleRecordDecl NotCXX)"


text \<open>A context whose structs are declared inside a function, with internal linkage.\<close>

definition localStructContext :: ASTContext where
  "localStructContext = exampleContext (\<lambda>D. (exampleRecordDecl NotCXX)
      \<lparr>LinkageInternal := InternalLinkage, InFunctionOrMethod := True\<rparr>)"


text \<open>A context for substitutions, without C++ classes.\<close>

definition substitutionContext :: ASTContext where
  "substitutionContext = exampleContext (\<lambda>D. exampleRecordDecl NotCXX)"

section \<open>Properties of the qualifier model\<close>

lemma CVRMask_mask: "CVRMask = mask 3"
  by (simp add: CVRMask_def Const_def Volatile_def Restrict_def mask_eq_exp_minus_1)

lemma hasUnaligned_bit: "hasUnaligned q = bit (Mask q) 3"
proof -
  have "(8 :: 32 word) = 2 ^ 3" by simp
  then show ?thesis
    unfolding hasUnaligned_def UMask_def by (simp only: and_exp_eq_0_iff_not_bit) simp
qed

lemma GCAttrMask_mask: "GCAttrMask = push_bit 4 (mask 2)"
  by (simp add: GCAttrMask_def mask_eq_exp_minus_1 push_bit_eq_mult)

lemma LifetimeMask_mask: "LifetimeMask = push_bit 6 (mask 3)"
  by (simp add: LifetimeMask_def mask_eq_exp_minus_1 push_bit_eq_mult)

text \<open>
  The four axes that \<open>isStrictSupersetOf\<close> compares, together with the
  \<open>__unaligned\<close> bit, determine the whole mask.
\<close>

lemma mask_split:
  fixes a b :: "32 word"
  assumes c: "a AND CVRMask = b AND CVRMask"
    and u: "bit a 3 = bit b 3"
    and g: "drop_bit GCAttrShift (a AND GCAttrMask) = drop_bit GCAttrShift (b AND GCAttrMask)"
    and l: "drop_bit LifetimeShift (a AND LifetimeMask) = drop_bit LifetimeShift (b AND LifetimeMask)"
    and s: "drop_bit AddressSpaceShift a = drop_bit AddressSpaceShift b"
  shows "a = b"
proof (rule bit_eqI)
  fix n
  assume "possible_bit TYPE(32 word) n"
  have c': "bit a n = bit b n" if "n < 3"
    using arg_cong [OF c, of "\<lambda>w. bit w n"] that
    by (simp add: CVRMask_mask bit_and_iff bit_mask_iff)
  have u': "bit a n = bit b n" if "n = 3"
    using u that by simp
  have g': "bit a n = bit b n" if "4 \<le> n" "n < 6"
    using arg_cong [OF g, of "\<lambda>w. bit w (n - 4)"] that
    by (auto simp add: GCAttrMask_mask GCAttrShift_def bit_and_iff bit_mask_iff
        bit_drop_bit_eq bit_push_bit_iff)
  have l': "bit a n = bit b n" if "6 \<le> n" "n < 9"
    using arg_cong [OF l, of "\<lambda>w. bit w (n - 6)"] that
    by (auto simp add: LifetimeMask_mask LifetimeShift_def bit_and_iff bit_mask_iff
        bit_drop_bit_eq bit_push_bit_iff)
  have s': "bit a n = bit b n" if "9 \<le> n"
    using arg_cong [OF s, of "\<lambda>w. bit w (n - 9)"] that
    by (simp add: AddressSpaceShift_def bit_drop_bit_eq)
  consider "n < 3" | "n = 3" | "4 \<le> n \<and> n < 6" | "6 \<le> n \<and> n < 9" | "9 \<le> n"
    by linarith
  then show "bit a n = bit b n"
    using c' u' g' l' s' by cases auto
qed

text \<open>
  The strict-superset relation is irreflexive and implies that the two sets differ: the
  first conjunct of line 33 compares the whole masks.
\<close>

lemma isStrictSupersetOf_irreflexive:
  "\<not> isStrictSupersetOf A A \<and> (isStrictSupersetOf A B \<longrightarrow> A \<noteq> B)"
  by (simp add: isStrictSupersetOf_def)

text \<open>
  It never holds in both directions between two sets that agree on the \<open>__unaligned\<close>
  bit: the four axes of lines 35-44 then determine the mask.
\<close>

lemma isStrictSupersetOf_asymmetric_on_axes:
  assumes u: "hasUnaligned A = hasUnaligned B"
  shows "\<not> (isStrictSupersetOf A B \<and> isStrictSupersetOf B A)"
proof
  assume h: "isStrictSupersetOf A B \<and> isStrictSupersetOf B A"
  then have neq: "A \<noteq> B" by (simp add: isStrictSupersetOf_def)
  from h have c: "Mask A AND CVRMask = Mask B AND CVRMask"
    unfolding isStrictSupersetOf_def by (metis or.commute)
  from u have u': "bit (Mask A) 3 = bit (Mask B) 3"
    by (simp add: hasUnaligned_bit)
  from h have "getObjCGCAttr A = getObjCGCAttr B"
    by (auto simp: isStrictSupersetOf_def)
  then have g: "drop_bit GCAttrShift (Mask A AND GCAttrMask)
      = drop_bit GCAttrShift (Mask B AND GCAttrMask)"
    by (simp add: getObjCGCAttr_def)
  from h have "getObjCLifetime A = getObjCLifetime B"
    by (auto simp: isStrictSupersetOf_def)
  then have l: "drop_bit LifetimeShift (Mask A AND LifetimeMask)
      = drop_bit LifetimeShift (Mask B AND LifetimeMask)"
    by (simp add: getObjCLifetime_def)
  from h have "getAddressSpace A = getAddressSpace B"
    by (auto simp: isStrictSupersetOf_def)
  then have s: "drop_bit AddressSpaceShift (Mask A) = drop_bit AddressSpaceShift (Mask B)"
    by (simp add: getAddressSpace_def)
  have "Mask A = Mask B"
    by (rule mask_split [OF c u' g l s])
  then have "A = B" by (simp add: Qualifiers.expand)
  with neq show False by simp
qed

text \<open>
  The scenario of the specification: \<open>const volatile\<close> against plain \<open>const\<close>.
\<close>

lemma isStrictSupersetOf_const_volatile:
  "isStrictSupersetOf (Qualifiers (Const OR Volatile)) (Qualifiers Const) \<and>
   \<not> isStrictSupersetOf (Qualifiers Const) (Qualifiers (Const OR Volatile)) \<and>
   \<not> isStrictSupersetOf (Qualifiers Const) (Qualifiers Const)"
  by (simp add: isStrictSupersetOf_def Const_def Volatile_def CVRMask_def Restrict_def
      getObjCGCAttr_def getObjCLifetime_def getAddressSpace_def GCAttrMask_def
      LifetimeMask_def AddressSpaceShift_def GCAttrShift_def LifetimeShift_def)

text \<open>
  Claim C7: the strict-superset relation never holds in both directions. The comparison
  of line 33 sees the \<open>__unaligned\<close> bit and none of the four superset tests of lines
  35-44 reads it: the set that holds \<open>__unaligned\<close> alone and the empty set differ, agree
  on the four axes, and are strict supersets of each other.
\<close>

theorem isStrictSupersetOf_unaligned_both_ways:
  "isStrictSupersetOf (Qualifiers UMask) (Qualifiers 0) \<and>
   isStrictSupersetOf (Qualifiers 0) (Qualifiers UMask)"
  by (simp add: isStrictSupersetOf_def UMask_def Const_def Volatile_def CVRMask_def Restrict_def
      getObjCGCAttr_def getObjCLifetime_def getAddressSpace_def GCAttrMask_def
      LifetimeMask_def AddressSpaceShift_def GCAttrShift_def LifetimeShift_def)

section \<open>Desugaring reaches a fixed point\<close>

lemma loop_not_sugared:
  "getSplitDesugaredType_loop Qs Cur = Inr S \<Longrightarrow> \<not> isSugared (Ty S)"
proof (induction Qs Cur rule: getSplitDesugaredType_loop.induct)
  case (1 Qs Cur)
  then show ?case
    by (subst (asm) (2) getSplitDesugaredType_loop.simps)
       (auto split: sum.splits prod.splits if_splits)
qed

lemma getUnqualifiedDesugaredType_not_sugared:
  "\<not> isSugared (getUnqualifiedDesugaredType T)"
  by (induction T rule: getUnqualifiedDesugaredType.induct)
     (subst getUnqualifiedDesugaredType.simps, simp)

lemma fast_nonfast: "(m AND FastMask) OR (m AND NOT FastMask) = (m :: 32 word)"
  by (metis bit.conj_disj_distrib bit.disj_cancel_right and.right_neutral)

lemma fast_AddressSpace: "(m AND FastMask) AND AddressSpaceMask = (0 :: 32 word)"
proof -
  have "FastMask AND AddressSpaceMask = 0"
    by (simp add: FastMask_def AddressSpaceMask_def CVRMask_def Const_def Volatile_def
        Restrict_def UMask_def GCAttrMask_def LifetimeMask_def)
  then show ?thesis by (simp add: and.assoc)
qed

lemma fast_GCAttr: "(m AND FastMask) AND GCAttrMask = (0 :: 32 word)"
proof -
  have "FastMask AND GCAttrMask = 0"
    by (simp add: FastMask_def GCAttrMask_def)
  then show ?thesis by (simp add: and.assoc)
qed

lemma fast_Lifetime: "(m AND FastMask) AND LifetimeMask = (0 :: 32 word)"
proof -
  have "FastMask AND LifetimeMask = 0"
    by (simp add: FastMask_def LifetimeMask_def)
  then show ?thesis by (simp add: and.assoc)
qed

text \<open>Collecting the qualifiers of a handle into an empty collector gives them back.\<close>

lemma strip_empty:
  "strip emptyQualifiers (QualType T Q) = Inr (Q, T)"
proof (cases "Mask Q AND NOT FastMask = 0")
  case True
  then have "Mask Q AND FastMask = Mask Q"
    using fast_nonfast [of "Mask Q"] by simp
  with True show ?thesis
    by (simp add: strip_def emptyQualifiers_def addQualifiers_def)
next
  case False
  then show ?thesis
    by (simp add: strip_def emptyQualifiers_def addQualifiers_def addConsistentQualifiers_def
        bindE_def hasAddressSpace_def hasObjCGCAttr_def hasObjCLifetime_def
        fast_AddressSpace fast_GCAttr fast_Lifetime fast_nonfast)
qed

text \<open>
  Claim C5. Full desugaring is idempotent. Whenever \<open>getSplitDesugaredType\<close> returns a
  result for \<open>T\<close> (it ends, for every \<open>T\<close>, with a result or with the assertion on
  inconsistent qualifiers), desugaring that result again returns it unchanged; its
  outermost node is not sugared and is left alone by the single-step transition. The
  unqualified variant \<open>getUnqualifiedDesugaredType\<close> is idempotent as well.
\<close>

theorem full_desugar_idempotent:
  "(getSplitDesugaredType T = Inr S \<longrightarrow>
      getSplitDesugaredType (getQualifiedType (Ty S) (Quals S)) = Inr S \<and>
      \<not> isSugared (Ty S) \<and>
      getLocallyUnqualifiedSingleStepDesugaredType (Ty S) = unqualified (Ty S)) \<and>
   getUnqualifiedDesugaredType (getUnqualifiedDesugaredType U) = getUnqualifiedDesugaredType U \<and>
   \<not> isSugared (getUnqualifiedDesugaredType U)"
proof -
  have a: "getSplitDesugaredType (getQualifiedType (Ty S) (Quals S)) = Inr S \<and>
      \<not> isSugared (Ty S) \<and>
      getLocallyUnqualifiedSingleStepDesugaredType (Ty S) = unqualified (Ty S)"
    if h: "getSplitDesugaredType T = Inr S"
  proof -
    have ns: "\<not> isSugared (Ty S)"
      using h loop_not_sugared by (simp add: getSplitDesugaredType_def)
    then have "getSplitDesugaredType (getQualifiedType (Ty S) (Quals S)) = Inr S"
      by (simp add: getSplitDesugaredType_def getQualifiedType_def
          getSplitDesugaredType_loop.simps [of emptyQualifiers] strip_empty)
    with ns show ?thesis
      by (simp add: getLocallyUnqualifiedSingleStepDesugaredType_def)
  qed
  have b: "getUnqualifiedDesugaredType (getUnqualifiedDesugaredType U)
      = getUnqualifiedDesugaredType U"
    using getUnqualifiedDesugaredType_not_sugared [of U]
    by (subst getUnqualifiedDesugaredType.simps) simp
  from a b getUnqualifiedDesugaredType_not_sugared [of U] show ?thesis by blast
qed

text \<open>
  A \<open>const\<close> typedef of a parenthesised \<open>volatile int\<close> desugars to
  \<open>const volatile int\<close>, and that result desugars to itself.
\<close>

theorem full_desugar_idempotent_witness:
  "getSplitDesugaredType
     (QualType (Typedef 1 (QualType (Paren (QualType (Builtin BT_Int) (Qualifiers Volatile)))
        emptyQualifiers)) (Qualifiers Const))
     = Inr (SplitQualType (Builtin BT_Int) (Qualifiers (Const OR Volatile))) \<and>
   getSplitDesugaredType (getQualifiedType (Builtin BT_Int) (Qualifiers (Const OR Volatile)))
     = Inr (SplitQualType (Builtin BT_Int) (Qualifiers (Const OR Volatile))) \<and>
   getUnqualifiedDesugaredType (getUnqualifiedDesugaredType
       (Typedef 1 (QualType (Paren (QualType (Builtin BT_Int) (Qualifiers Volatile)))
          emptyQualifiers)))
     = Builtin BT_Int"
proof -
  let ?T = "QualType (Typedef 1 (QualType (Paren (QualType (Builtin BT_Int) (Qualifiers Volatile)))
        emptyQualifiers)) (Qualifiers Const)"
  let ?S = "SplitQualType (Builtin BT_Int) (Qualifiers (Const OR Volatile))"
  have e: "getSplitDesugaredType ?T = Inr ?S"
    by (simp add: getSplitDesugaredType_def getSplitDesugaredType_loop.simps strip_def
        isSugared_def desugar_def emptyQualifiers_def addQualifiers_def FastMask_def
        Const_def Volatile_def)
  have u: "getUnqualifiedDesugaredType
       (Typedef 1 (QualType (Paren (QualType (Builtin BT_Int) (Qualifiers Volatile)))
          emptyQualifiers)) = Builtin BT_Int"
    by (simp add: getUnqualifiedDesugaredType.simps isSugared_def desugar_def)
  from e u full_desugar_idempotent [of ?T ?S
      "Typedef 1 (QualType (Paren (QualType (Builtin BT_Int) (Qualifiers Volatile)))
          emptyQualifiers)"]
  show ?thesis by simp
qed

section \<open>Properties of the structural predicates\<close>

lemma canonical_of_desugared:
  "getTypePtr (getCanonicalTypeInternal (getUnqualifiedDesugaredType T))
     = getTypePtr (getCanonicalTypeInternal T)"
proof (induction T rule: getUnqualifiedDesugaredType.induct)
  case (1 Cur)
  show ?case
  proof (cases "isSugared Cur")
    case True
    with 1 show ?thesis
      by (subst getUnqualifiedDesugaredType.simps) (simp add: canonical_desugar)
  next
    case False
    then show ?thesis by (subst getUnqualifiedDesugaredType.simps) simp
  qed
qed

lemma Record_canonical [simp]:
  "getCanonicalTypeInternal (Record D Dep) = unqualified (Record D Dep)"
  by simp

lemma getTypeClass_Record: "getTypeClass N = TC_Record \<Longrightarrow> \<exists>D Dep. N = Record D Dep"
  by (cases N) simp_all

lemma getAsRecordDecl_iff:
  "getAsRecordDecl T = Some D \<longleftrightarrow> (\<exists>Dep. getTypePtr (getCanonicalTypeInternal T) = Record D Dep)"
proof
  assume "getAsRecordDecl T = Some D"
  then obtain Dep where g: "getAs {TC_Record} T = Some (Record D Dep)"
    by (auto simp: getAsRecordDecl_def split: option.splits Type.splits)
  show "\<exists>Dep. getTypePtr (getCanonicalTypeInternal T) = Record D Dep"
  proof (cases "getTypeClass T = TC_Record")
    case True
    with g show ?thesis by (auto simp: getAs_def)
  next
    case False
    with g have "getUnqualifiedDesugaredType T = Record D Dep"
      by (auto simp: getAs_def split: if_splits)
    with canonical_of_desugared [of T]
    have "getTypePtr (getCanonicalTypeInternal T) = Record D Dep" by simp
    then show ?thesis by blast
  qed
next
  assume "\<exists>Dep. getTypePtr (getCanonicalTypeInternal T) = Record D Dep"
  then obtain Dep where c: "getTypePtr (getCanonicalTypeInternal T) = Record D Dep" ..
  show "getAsRecordDecl T = Some D"
  proof (cases "getTypeClass T = TC_Record")
    case True
    then obtain D' Dep' where "T = Record D' Dep'" using getTypeClass_Record by blast
    with c show ?thesis by (simp add: getAsRecordDecl_def getAs_def)
  next
    case False
    have "getTypeClass (getUnqualifiedDesugaredType T) = TC_Record"
      using c by (simp add: class_desugared)
    then obtain D' Dep' where d: "getUnqualifiedDesugaredType T = Record D' Dep'"
      using getTypeClass_Record by blast
    with canonical_of_desugared [of T] c have "D' = D" by simp
    with False c d show ?thesis
      by (simp add: getAsRecordDecl_def getAs_def canonicalClass_def)
  qed
qed

lemma isIncompleteType_Record:
  "getTypePtr (getCanonicalTypeInternal T) = Record D Dep \<Longrightarrow>
   isIncompleteType ctx T = Inr (\<not> IsCompleteDefinition (RecordDecls ctx D))"
  by (simp add: isIncompleteType_def isIncompleteType_traced.simps [of ctx T]
      bindT_def queryT_def returnT_def)

text \<open>
  Claim C9. A class type whose declaration is a lambda closure type never has unique
  object representations, whatever its triviality flags and layout are: the answer is
  \<open>false\<close>, for every bound on the nesting of declarations, and no assertion fails.
\<close>

theorem lambda_no_unique_object_representations:
  assumes "getTypePtr (getCanonicalTypeInternal (getTypePtr T)) = Record D Dep"
    and "isLambda (RecordDecls ctx D)"
  shows "hasUniqueObjectRepresentations fuel ctx (Some T) = Inr False"
proof -
  let ?RD = "RecordDecls ctx D"
  from assms(2) obtain DD where dd: "CXX ?RD = CXXRecord (Some DD)"
    by (auto simp: isLambda_def split: CXXPart.splits option.splits)
  have cc: "canonicalClass (getTypePtr T) = TC_Record"
    using assms(1) by (simp add: canonicalClass_def)
  then have na: "\<not> isArrayType (getTypePtr T)"
    by (simp add: isArrayType_def ArrayType_def)
  have cq: "getTypePtr (getCanonicalType T) = Record D Dep"
    using assms(1) by (simp add: getCanonicalType_eq)
  have rd: "getAsRecordDecl (getTypePtr T) = Some D"
    using assms(1) by (auto simp: getAsRecordDecl_iff)
  have rd': "getAsRecordDecl (Record D Dep) = Some D"
    by (auto simp: getAsRecordDecl_iff)
  have inc: "isIncompleteType ctx (Record D Dep)
      = Inr (\<not> IsCompleteDefinition ?RD)"
    by (rule isIncompleteType_Record) simp
  have "\<exists>b. isTriviallyCopyableType ctx T = Inr b"
    using na cq rd' dd inc
    by (auto simp add: isTriviallyCopyableType.simps [of ctx T] Let_def bindE_def data_def
        isCXXRecordDecl_def)
  then obtain b where tc: "isTriviallyCopyableType ctx T = Inr b" ..
  show ?thesis
    using na tc cc rd assms(2) assms(1)
    by (simp add: hasUniqueObjectRepresentations.simps bindE_def isFunctionType_def
        FunctionType_def isIntegralOrEnumerationType_def isPointerType_def
        isMemberPointerType_def isRecordType_def)
qed

text \<open>
  A closure type without fields, reached through a \<open>const\<close> typedef.
\<close>

theorem lambda_no_unique_object_representations_witness:
  "hasUniqueObjectRepresentations 1
     (exampleContext (\<lambda>D. exampleRecordDecl
        (CXXRecord (Some (exampleDefinitionData\<lparr>DD_IsLambda := True, DD_Empty := False\<rparr>)))))
     (Some (QualType (Typedef 7 (unqualified (Record 0 False))) (Qualifiers Const)))
   = Inr False"
proof -
  let ?ctx = "exampleContext (\<lambda>D. exampleRecordDecl
        (CXXRecord (Some (exampleDefinitionData\<lparr>DD_IsLambda := True, DD_Empty := False\<rparr>))))"
  let ?T = "QualType (Typedef 7 (unqualified (Record 0 False))) (Qualifiers Const)"
  have 1: "getTypePtr (getCanonicalTypeInternal (getTypePtr ?T)) = Record 0 False"
    by code_simp
  have 2: "isLambda (RecordDecls ?ctx 0)" by code_simp
  show ?thesis by (rule lambda_no_unique_object_representations [OF 1 2])
qed

text \<open>
  Claim C10. When the qualifiers of a type carry neither a strong nor a weak lifetime and
  the base element type is a class whose declaration has no definition, the destruction
  kind is \<open>DK_none\<close>: the classification returns it without an assertion failure, and
  the triviality of the destructor (a flag of the definition data, which does not exist)
  is not consulted.
\<close>

theorem isDestructedTypeImpl_without_definition:
  assumes "getObjCLifetime (getQualifiers T) \<noteq> OCL_Strong"
    and "getObjCLifetime (getQualifiers T) \<noteq> OCL_Weak"
    and "getAsCXXRecordDecl ctx (getBaseElementTypeUnsafe (getTypePtr T)) = Some D"
    and "\<not> hasDefinition (RecordDecls ctx D)"
  shows "isDestructedTypeImpl ctx T = Inr DK_none"
  using assms by (simp add: isDestructedTypeImpl_def Let_def)

text \<open>An array of three \<open>const\<close> objects of a forward-declared class.\<close>

theorem isDestructedTypeImpl_without_definition_witness:
  "isDestructedTypeImpl (exampleContext (\<lambda>D. exampleRecordDecl (CXXRecord None)))
     (unqualified (ConstantArray (QualType (Record 0 False) (Qualifiers Const)) 3)) = Inr DK_none"
proof -
  let ?ctx = "exampleContext (\<lambda>D. exampleRecordDecl (CXXRecord None))"
  let ?T = "unqualified (ConstantArray (QualType (Record 0 False) (Qualifiers Const)) 3)"
  have 1: "getObjCLifetime (getQualifiers ?T) \<noteq> OCL_Strong" by code_simp
  have 2: "getObjCLifetime (getQualifiers ?T) \<noteq> OCL_Weak" by code_simp
  have 3: "getAsCXXRecordDecl ?ctx (getBaseElementTypeUnsafe (getTypePtr ?T)) = Some 0"
    by code_simp
  have 4: "\<not> hasDefinition (RecordDecls ?ctx 0)" by code_simp
  show ?thesis by (rule isDestructedTypeImpl_without_definition [OF 1 2 3 4])
qed
subsection \<open>Empty classes and undeduced placeholders\<close>

text \<open>
  Claim C3. A struct or class type that is empty (\<open>isStructEmpty\<close> answers yes: no fields,
  and for a C++ class the definition data say empty and every base is empty in turn) has
  no unique object representations: \<open>hasUniqueObjectRepresentations\<close> returns false, for
  every amount of fuel, without an assertion failure.
\<close>

theorem empty_struct_no_unique_object_representations:
  assumes sc: "isStructureOrClassType ctx (getTypePtr T)"
    and em: "isStructEmpty ctx T = Inr True"
  shows "hasUniqueObjectRepresentations fuel ctx (Some T) = Inr False"
proof -
  from sc obtain D where rd: "getAsRecordDecl (getTypePtr T) = Some D"
    and kind: "TagKind (RecordDecls ctx D) \<in> {TTK_Struct, TTK_Class, TTK_Interface}"
    by (auto simp: isStructureOrClassType_def split: option.splits)
  let ?RD = "RecordDecls ctx D"
  from rd obtain Dep where can: "getTypePtr (getCanonicalTypeInternal (getTypePtr T)) = Record D Dep"
    by (auto simp: getAsRecordDecl_iff)
  have cc: "canonicalClass (getTypePtr T) = TC_Record"
    using can by (simp add: canonicalClass_def)
  then have na: "\<not> isArrayType (getTypePtr T)"
    by (simp add: isArrayType_def ArrayType_def)
  have cq: "getTypePtr (getCanonicalType T) = Record D Dep"
    using can by (simp add: getCanonicalType_eq)
  have rd': "getAsRecordDecl (Record D Dep) = Some D"
    by (auto simp: getAsRecordDecl_iff)
  have inc: "isIncompleteType ctx (Record D Dep) = Inr (\<not> IsCompleteDefinition ?RD)"
    by (rule isIncompleteType_Record) simp
  have dat: "isCXXRecordDecl ?RD \<Longrightarrow> \<exists>DD. data ?RD = Inr DD"
    using em sc rd
    by (auto simp: isStructEmpty_def Let_def isEmpty_def bindE_def
        split: if_splits sum.splits)
  have "\<exists>b. isTriviallyCopyableType ctx T = Inr b"
    using na cq rd' inc dat
    by (auto simp add: isTriviallyCopyableType.simps [of ctx T] Let_def bindE_def) blast+
  then obtain b where tc: "isTriviallyCopyableType ctx T = Inr b" ..
  have nu: "\<not> isUnion ?RD"
    using kind by (auto simp: isUnion_def)
  have st: "structHasUniqueObjectRepresentations fuel ctx T = Inr False"
    using sc rd em
    by (simp add: structHasUniqueObjectRepresentations.simps [of fuel ctx T] Let_def bindE_def)
  show ?thesis
    using na tc cc rd nu st can
    by (simp add: hasUniqueObjectRepresentations.simps bindE_def isFunctionType_def
        FunctionType_def isIntegralOrEnumerationType_def isPointerType_def
        isMemberPointerType_def isRecordType_def)
qed

text \<open>A complete class without fields and bases whose definition data say empty.\<close>

theorem empty_struct_no_unique_object_representations_witness:
  "hasUniqueObjectRepresentations 0
     (exampleContext (\<lambda>D. exampleRecordDecl (CXXRecord (Some exampleDefinitionData))))
     (Some (unqualified (Record 0 False)))
   = Inr False"
proof -
  let ?ctx = "exampleContext (\<lambda>D. exampleRecordDecl (CXXRecord (Some exampleDefinitionData)))"
  let ?T = "unqualified (Record 0 False)"
  have 1: "isStructureOrClassType ?ctx (getTypePtr ?T)" by code_simp
  have 2: "isStructEmpty ?ctx ?T = Inr True" by code_simp
  show ?thesis by (rule empty_struct_no_unique_object_representations [OF 1 2])
qed

lemma getAs_None_of_class:
  assumes "canonicalClass T \<notin> Cs" and "\<And>N. getTypeClass N \<in> Cs \<Longrightarrow> \<not> isSugared N"
  shows "getAs Cs T = None"
proof -
  have "getTypeClass T \<notin> Cs"
  proof
    assume a: "getTypeClass T \<in> Cs"
    then have "\<not> isSugared T" using assms(2) by blast
    then have "canonicalClass T = getTypeClass T"
      by (simp add: canonicalClass_def class_not_sugared)
    with a assms(1) show False by simp
  qed
  with assms(1) show ?thesis by (simp add: getAs_def)
qed

lemma not_sugared_Record: "getTypeClass N \<in> {TC_Record} \<Longrightarrow> \<not> isSugared N"
  by (cases N) (simp_all add: isSugared_def)

lemma not_sugared_Atomic: "getTypeClass N \<in> {TC_Atomic} \<Longrightarrow> \<not> isSugared N"
  by (cases N) (simp_all add: isSugared_def)

lemma isIncompleteType_Auto:
  "canonicalClass T = TC_Auto \<Longrightarrow> isIncompleteType ctx T = Inr False"
  by (cases "getTypePtr (getCanonicalTypeInternal T)")
     (simp_all add: canonicalClass_def isIncompleteType_def
        isIncompleteType_traced.simps [of ctx T] returnT_def)

text \<open>
  Claim C8, amended. For a non-dependent type whose base element type has an undeduced
  \<open>auto\<close> as its canonical type, \<open>isLiteralType\<close> returns true, provided the type is
  not itself an array of runtime bound: the test on variable arrays precedes the look at
  the base element type.
\<close>

theorem isLiteralType_undeduced_auto:
  assumes nd: "\<not> isDependentType T"
    and au: "canonicalClass (getBaseElementTypeUnsafe T) = TC_Auto"
    and nv: "\<not> isVariableArrayType T"
  shows "isLiteralType ctx T = Inr True"
proof -
  let ?B = "getBaseElementTypeUnsafe T"
  have r: "getAsRecordDecl ?B = None"
    using getAs_None_of_class [of ?B "{TC_Record}"] au not_sugared_Record
    by (simp add: getAsRecordDecl_def)
  have a: "getAsAtomicValueType ?B = None"
    using getAs_None_of_class [of ?B "{TC_Atomic}"] au not_sugared_Atomic
    by (simp add: getAsAtomicValueType_def)
  show ?thesis
    using nd nv au r a isIncompleteType_Auto [OF au, of ctx]
    by (simp add: isLiteralType.simps [of ctx T] Let_def)
qed

text \<open>An array of four \<open>const\<close> objects of a type alias of an undeduced \<open>auto\<close>.\<close>

theorem isLiteralType_undeduced_auto_witness:
  "isLiteralType (exampleContext (\<lambda>D. exampleRecordDecl NotCXX))
     (ConstantArray (QualType (Typedef 3 (unqualified (Auto None False))) (Qualifiers Const)) 4)
   = Inr True"
proof -
  let ?T = "ConstantArray (QualType (Typedef 3 (unqualified (Auto None False))) (Qualifiers Const)) 4"
  have 1: "\<not> isDependentType ?T" by code_simp
  have 2: "canonicalClass (getBaseElementTypeUnsafe ?T) = TC_Auto" by code_simp
  have 3: "\<not> isVariableArrayType ?T" by code_simp
  show ?thesis by (rule isLiteralType_undeduced_auto [OF 1 2 3])
qed

text \<open>
  Claim C8 as stated fails on an array of runtime bound over an undeduced \<open>auto\<close>: it is
  not dependent, its base element type is the undeduced \<open>auto\<close>, and it is not a literal
  type.
\<close>

theorem isLiteralType_variable_array_of_auto_counterexample:
  "\<not> isDependentType (VariableArray (unqualified (Auto None False)) (Expr False False False)) \<and>
   canonicalClass (getBaseElementTypeUnsafe
       (VariableArray (unqualified (Auto None False)) (Expr False False False))) = TC_Auto \<and>
   isLiteralType (exampleContext (\<lambda>D. exampleRecordDecl NotCXX))
       (VariableArray (unqualified (Auto None False)) (Expr False False False)) = Inr False"
  by code_simp

subsection \<open>Triviality of dependent types\<close>

text \<open>
  Claim C6, amended. Let \<open>B\<close> be the type itself, or its base element type when the type
  is an array. When the canonical type of \<open>B\<close> is dependent and the completeness test on
  \<open>B\<close> answers, \<open>isTrivialType\<close> returns false without an assertion failure, and the
  declaration queries it performs are exactly those of the completeness test on \<open>B\<close>:
  no triviality flag of a definition is read.
\<close>

theorem isTrivialType_dependent:
  assumes base: "if isArrayType (getTypePtr T) then getBaseElementType T = Inr B else B = T"
    and dep: "isDependentType (getTypePtr (getCanonicalTypeInternal (getTypePtr B)))"
    and inc: "isIncompleteType ctx (getTypePtr B) = Inr incomplete"
  shows "isTrivialType ctx (Some T) = Inr False \<and>
         fst (isTrivialType_traced ctx (Some T)) = fst (isIncompleteType_traced ctx (getTypePtr B))"
proof -
  have nb: "\<not> isArrayType (getTypePtr B)"
    using base getBaseElementType_not_array [of T B] by (auto split: if_splits)
  have eq: "isTrivialType_traced ctx (Some T) = isTrivialType_traced ctx (Some B)"
    using base by (cases "isArrayType (getTypePtr T)")
      (simp_all add: isTrivialType_traced.simps(2) [of ctx T])
  obtain log where tr: "isIncompleteType_traced ctx (getTypePtr B) = (log, Inr incomplete)"
    using inc by (cases "isIncompleteType_traced ctx (getTypePtr B)")
      (simp add: isIncompleteType_def)
  have "isTrivialType_traced ctx (Some B) = (log, Inr False)"
    using nb dep tr
    by (simp add: isTrivialType_traced.simps(2) [of ctx B] bindT_def returnT_def Let_def)
  with eq tr show ?thesis by (simp add: isTrivialType_def)
qed

text \<open>An array of two objects of a template type parameter; no declaration is queried.\<close>

theorem isTrivialType_dependent_witness:
  "isTrivialType dependentEnumContext
     (Some (unqualified (ConstantArray (unqualified (TemplateTypeParm 0 0 None)) 2))) = Inr False \<and>
   fst (isTrivialType_traced dependentEnumContext
     (Some (unqualified (ConstantArray (unqualified (TemplateTypeParm 0 0 None)) 2)))) = []"
proof -
  let ?T = "unqualified (ConstantArray (unqualified (TemplateTypeParm 0 0 None)) 2)"
  let ?B = "unqualified (TemplateTypeParm 0 0 None)"
  have 1: "if isArrayType (getTypePtr ?T) then getBaseElementType ?T = Inr ?B else ?B = ?T"
    by code_simp
  have 2: "isDependentType (getTypePtr (getCanonicalTypeInternal (getTypePtr ?B)))"
    by code_simp
  have 3: "isIncompleteType dependentEnumContext (getTypePtr ?B) = Inr False"
    by code_simp
  have 4: "fst (isIncompleteType_traced dependentEnumContext (getTypePtr ?B)) = []"
    by code_simp
  from isTrivialType_dependent [OF 1 2 3] 4 show ?thesis by simp
qed

text \<open>
  Claim C6 as stated fails on an array of \<open>int\<close> whose size is a value-dependent
  expression: the type is dependent, and so is its canonical type, but the array branch
  comes first and answers for the base element type \<open>int\<close>, which is trivial.
\<close>

theorem isTrivialType_dependent_sized_array_counterexample:
  "isDependentType (DependentSizedArray (unqualified (Builtin BT_Int)) (Expr False True True)) \<and>
   isDependentType (getTypePtr (getCanonicalTypeInternal
     (DependentSizedArray (unqualified (Builtin BT_Int)) (Expr False True True)))) \<and>
   isTrivialType dependentEnumContext
     (Some (unqualified (DependentSizedArray (unqualified (Builtin BT_Int))
        (Expr False True True)))) = Inr True"
  by code_simp

text \<open>
  On a dependent enumeration type the answer is false, after the completeness test has
  read two flags of the declaration.
\<close>

theorem isTrivialType_dependent_enum_lookup:
  "isDependentType (Enum 5 True) \<and>
   isTrivialType_traced dependentEnumContext (Some (unqualified (Enum 5 True)))
     = ([Q_isFixed 5, Q_isCompleteDefinition 5], Inr False)"
  by code_simp

subsection \<open>Arrays and their base element type\<close>

lemma isSugared_array:
  "A = ConstantArray T N \<or> A = IncompleteArray T \<or> A = VariableArray T X \<Longrightarrow> \<not> isSugared A"
  by (auto simp: isSugared_def)

lemma getSplitDesugaredType_not_sugared:
  "\<not> isSugared A \<Longrightarrow> getSplitDesugaredType (unqualified A) = Inr (SplitQualType A emptyQualifiers)"
  by (simp add: getSplitDesugaredType_def unqualified_def
      getSplitDesugaredType_loop.simps [of emptyQualifiers] strip_empty)

lemma addConsistentQualifiers_empty [simp]:
  "addConsistentQualifiers emptyQualifiers emptyQualifiers = Inr emptyQualifiers"
  by (simp add: addConsistentQualifiers_def emptyQualifiers_def)

lemma getBaseElementType_array:
  assumes "A = ConstantArray T N \<or> A = IncompleteArray T \<or> A = VariableArray T X"
  shows "getBaseElementType (unqualified A) = getBaseElementType T"
proof -
  have ns: "\<not> isSugared A" using assms by (rule isSugared_array)
  have ar: "getAsArrayTypeUnsafe A = Some A"
    using assms by (auto simp: getAsArrayTypeUnsafe_def getAs_def ArrayType_def)
  have el: "getElementType A = Some T"
    using assms by (auto simp: getElementType_def)
  show ?thesis
    using ar el
    by (simp add: getBaseElementType_def getBaseElementType_loop.simps [of _ "unqualified A"]
        getSplitDesugaredType_not_sugared [OF ns])
qed

lemma isArrayType_array:
  "A = ConstantArray T N \<or> A = IncompleteArray T \<or> A = VariableArray T X \<Longrightarrow> isArrayType A"
  by (auto simp: isArrayType_def canonicalClass_def ArrayType_def)

lemma getAsArrayTypeUnsafe_not_array:
  "\<not> isArrayType T \<Longrightarrow> getAsArrayTypeUnsafe (getUnqualifiedDesugaredType T) = None"
proof -
  assume na: "\<not> isArrayType T"
  let ?D = "getUnqualifiedDesugaredType T"
  have "getTypeClass ?D \<notin> ArrayType"
    using na by (simp add: isArrayType_def canonicalClass_def class_desugared)
  moreover have "canonicalClass ?D \<notin> ArrayType"
    using na by (simp add: isArrayType_def canonicalClass_def canonical_of_desugared)
  ultimately show ?thesis by (simp add: getAsArrayTypeUnsafe_def getAs_def)
qed

lemma getBaseElementType_not_array_eq:
  assumes na: "\<not> isArrayType (getTypePtr T)" and b: "getBaseElementType T = Inr B"
  shows "B = T"
proof -
  from b obtain split where sp: "getSplitDesugaredType T = Inr split"
    by (auto simp: getBaseElementType_def getBaseElementType_loop.simps [of _ T]
        split: sum.splits)
  have "getAsArrayTypeUnsafe (Ty split) = None"
    using getSplitDesugaredType_Ty [OF sp] getAsArrayTypeUnsafe_not_array [OF na] by simp
  with b sp have "getQualifiedType_QT T emptyQualifiers = Inr B"
    by (simp add: getBaseElementType_def getBaseElementType_loop.simps [of _ T])
  then show ?thesis
    by (cases T) (simp add: getQualifiedType_QT_def strip_empty bindE_def)
qed

lemma base_of_element:
  assumes "getBaseElementType T = Inr B"
  shows "if isArrayType (getTypePtr T) then getBaseElementType T = Inr B else B = T"
  using assms getBaseElementType_not_array_eq by auto

lemma isTrivialType_traced_base:
  assumes "getBaseElementType T = Inr B"
  shows "isTrivialType_traced ctx (Some T) = isTrivialType_traced ctx (Some B)"
  using base_of_element [OF assms]
  by (cases "isArrayType (getTypePtr T)") (simp_all add: isTrivialType_traced.simps(2) [of ctx T])

lemma isTriviallyCopyableType_base:
  assumes "getBaseElementType T = Inr B"
  shows "isTriviallyCopyableType ctx T = isTriviallyCopyableType ctx B"
  using base_of_element [OF assms]
  by (cases "isArrayType (getTypePtr T)") (simp_all add: isTriviallyCopyableType.simps [of ctx T])

lemma hasUniqueObjectRepresentations_base:
  assumes "getBaseElementType T = Inr B"
  shows "hasUniqueObjectRepresentations fuel ctx (Some T)
       = hasUniqueObjectRepresentations fuel ctx (Some B)"
  using base_of_element [OF assms]
  by (cases "isArrayType (getTypePtr T)")
     (simp_all add: hasUniqueObjectRepresentations.simps(2) [of fuel ctx T])

lemma getBaseElementTypeUnsafe_array:
  assumes "A = ConstantArray T N \<or> A = IncompleteArray T \<or> A = VariableArray T X"
  shows "getBaseElementTypeUnsafe A = getBaseElementTypeUnsafe (getTypePtr T)"
proof -
  have ar: "getAsArrayTypeUnsafe A = Some A"
    using assms by (auto simp: getAsArrayTypeUnsafe_def getAs_def ArrayType_def)
  have el: "getElementType A = Some T"
    using assms by (auto simp: getElementType_def)
  show ?thesis using ar el by (simp add: getBaseElementTypeUnsafe.simps [of A])
qed

lemma isDependentType_array:
  assumes "A = ConstantArray T N \<or> A = IncompleteArray T \<or> A = VariableArray T X"
  shows "isDependentType A = isDependentType (getTypePtr T)"
  using assms by (cases T) auto

lemma getQualifiers_array:
  assumes "A = ConstantArray T N \<or> A = IncompleteArray T \<or> A = VariableArray T X"
  shows "getQualifiers (unqualified A) = getQualifiers T"
  using assms by (cases T) (auto simp: getQualifiers_def withQualifiers_def)

lemma isVoidType_canonical:
  "isVoidType (getTypePtr (getCanonicalTypeInternal T)) = isVoidType T"
  by (simp add: isVoidType_def canonical_node_idem)

lemma isIncompleteType_traced_canonical:
  "isIncompleteType_traced ctx (getTypePtr (getCanonicalTypeInternal T))
     = isIncompleteType_traced ctx T"
  apply (subst isIncompleteType_traced.simps [of ctx T])
  apply (subst isIncompleteType_traced.simps [of ctx "getTypePtr (getCanonicalTypeInternal T)"])
  unfolding canonical_node_idem getTypePtr_unqualified isVoidType_canonical
  apply (rule refl)
  done

lemma isIncompleteType_ConstantArray:
  "isIncompleteType ctx (ConstantArray T N) = isIncompleteType ctx (getTypePtr T)"
proof -
  have "isIncompleteType_traced ctx (ConstantArray T N)
      = isIncompleteType_traced ctx (getTypePtr (getCanonicalTypeInternal (getTypePtr T)))"
    by (simp add: isIncompleteType_traced.simps [of ctx "ConstantArray T N"]
        getCanonicalType_eq)
  then show ?thesis
    by (simp add: isIncompleteType_def isIncompleteType_traced_canonical)
qed

lemma isIncompleteType_VariableArray:
  "isIncompleteType ctx (VariableArray T X) = Inr False"
  by (simp add: isIncompleteType_def isIncompleteType_traced.simps [of ctx "VariableArray T X"]
      returnT_def)

lemma isCXX98PODType_array_of_non_array:
  assumes ar: "A = ConstantArray T N \<or> A = IncompleteArray T \<or> A = VariableArray T X"
    and b: "getBaseElementType (unqualified A) = Inr B"
    and na: "\<not> isArrayType (getTypePtr T)"
    and inc: "isIncompleteType ctx (getTypePtr T) = Inr incomplete"
  shows "isCXX98PODType ctx (Some (unqualified A)) = isCXX98PODType ctx (Some T)"
proof -
  have bt: "getBaseElementType T = Inr B" using b getBaseElementType_array [OF ar] by simp
  then have BT: "B = T" using na getBaseElementType_not_array_eq by blast
  have nia: "\<not> isIncompleteArrayType (getTypePtr T)"
    using na by (simp add: isArrayType_def isIncompleteArrayType_def ArrayType_def)
  have lif: "hasNonTrivialObjCLifetime (unqualified A) = hasNonTrivialObjCLifetime T"
    by (simp add: hasNonTrivialObjCLifetime_def getQualifiers_array [OF ar])
  have T_incomplete: "isCXX98PODType ctx (Some T) = Inr False" if "incomplete"
    using that nia inc by (simp add: isCXX98PODType.simps(2) [of ctx T])
  have T_lifetime: "isCXX98PODType ctx (Some T) = Inr False" if "hasNonTrivialObjCLifetime T"
    using that nia inc by (simp add: isCXX98PODType.simps(2) [of ctx T])
  from ar consider (C) "A = ConstantArray T N" | (I) "A = IncompleteArray T"
    | (V) "A = VariableArray T X" by blast
  then show ?thesis
  proof cases
    case I
    then show ?thesis
      using b BT
      by (simp add: isCXX98PODType.simps(2) [of ctx "unqualified (IncompleteArray T)"]
          isIncompleteArrayType_def canonicalClass_def)
  next
    case C
    then show ?thesis
      using b BT inc lif T_incomplete T_lifetime
      by (simp add: isCXX98PODType.simps(2) [of ctx "unqualified (ConstantArray T N)"]
          isIncompleteArrayType_def canonicalClass_def isIncompleteType_ConstantArray)
  next
    case V
    then show ?thesis
      using b BT inc lif T_incomplete T_lifetime
      by (cases incomplete)
        (simp_all add: isCXX98PODType.simps(2) [of ctx "unqualified (VariableArray T X)"]
          isIncompleteArrayType_def canonicalClass_def isIncompleteType_VariableArray)
  qed
qed

text \<open>
  The qualifiers of a type are those of its base element type: desugaring collects the
  qualifiers of every sugar layer, an array layer hands the collected ones to its element
  type, and the canonical type of an array carries the qualifiers of its element type.
\<close>

lemma addQualifiers_assoc:
  "addQualifiers (addQualifiers a b) c = addQualifiers a (addQualifiers b c)"
  by (simp add: addQualifiers_def or.assoc)

lemma addQualifiers_commute: "addQualifiers a b = addQualifiers b a"
  by (simp add: addQualifiers_def or.commute)

lemma addConsistentQualifiers_Inr:
  "addConsistentQualifiers a b = Inr c \<Longrightarrow> c = addQualifiers a b"
  by (auto simp: addConsistentQualifiers_def addQualifiers_def split: if_splits)

lemma strip_quals:
  "strip Qs Cur = Inr (Qs', CurTy) \<Longrightarrow> Qs' = addQualifiers Qs (getLocalQualifiers Cur)"
proof -
  assume h: "strip Qs Cur = Inr (Qs', CurTy)"
  let ?Q = "getLocalQualifiers Cur"
  have split: "addQualifiers (addQualifiers Qs (Qualifiers (Mask ?Q AND FastMask)))
      (Qualifiers (Mask ?Q AND NOT FastMask)) = addQualifiers Qs ?Q"
    by (cases ?Q) (simp add: addQualifiers_def or.assoc fast_nonfast)
  show ?thesis
  proof (cases "Mask ?Q AND NOT FastMask = 0")
    case True
    then have "Mask ?Q AND FastMask = Mask ?Q"
      using fast_nonfast [of "Mask ?Q"] by simp
    with True h show ?thesis
      by (cases ?Q) (simp add: strip_def Let_def addQualifiers_def)
  next
    case False
    with h obtain Qs2 where
      "addConsistentQualifiers (addQualifiers Qs (Qualifiers (Mask ?Q AND FastMask)))
         (Qualifiers (Mask ?Q AND NOT FastMask)) = Inr Qs2" "Qs' = Qs2"
      by (auto simp: strip_def Let_def bindE_def split: sum.splits)
    with split show ?thesis by (auto dest!: addConsistentQualifiers_Inr)
  qed
qed

lemma canonical_desugar_full:
  "isSugared T \<Longrightarrow> getCanonicalType (desugar T) = getCanonicalTypeInternal T"
  by (cases T)
    (auto simp: isSugared_def desugar_def canonical_idem
      isCanonicalUnqualified_def isCurrentInstantiation_def isTypeAlias_def
      split: option.splits if_splits)

lemma getQualifiers_canonical:
  "getQualifiers Q = getLocalQualifiers (getCanonicalType Q)"
  by (cases Q) (simp add: getQualifiers_def withQualifiers_def)

lemma loop_quals:
  "getSplitDesugaredType_loop Qs Cur = Inr S \<Longrightarrow>
   addQualifiers (Quals S) (getLocalQualifiers (getCanonicalTypeInternal (Ty S)))
     = addQualifiers Qs (getQualifiers Cur)"
proof (induction Qs Cur arbitrary: S rule: getSplitDesugaredType_loop.induct)
  case (1 Qs Cur)
  show ?case
  proof (cases "strip Qs Cur")
    case (Inl e)
    with "1.prems" show ?thesis
      by (simp add: getSplitDesugaredType_loop.simps [of Qs Cur])
  next
    case (Inr p)
    obtain Qs' CurTy where p: "p = (Qs', CurTy)" by (cases p)
    with Inr have ty: "CurTy = getTypePtr Cur" using strip_Inr by blast
    from Inr p have qs: "Qs' = addQualifiers Qs (getLocalQualifiers Cur)"
      using strip_quals by blast
    show ?thesis
    proof (cases "isSugared CurTy")
      case True
      with "1.prems" Inr p have "getSplitDesugaredType_loop Qs' (desugar CurTy) = Inr S"
        by (simp add: getSplitDesugaredType_loop.simps [of Qs Cur])
      with "1.IH" [OF Inr p [symmetric]] True
      have "addQualifiers (Quals S) (getLocalQualifiers (getCanonicalTypeInternal (Ty S)))
          = addQualifiers Qs' (getQualifiers (desugar CurTy))" by simp
      also have "getQualifiers (desugar CurTy)
          = getLocalQualifiers (getCanonicalTypeInternal CurTy)"
        using True by (simp add: getQualifiers_canonical canonical_desugar_full)
      finally show ?thesis
        using qs ty
        by (simp add: getQualifiers_def addQualifiers_def or.assoc or.commute or.left_commute)
    next
      case False
      with "1.prems" Inr p have "S = SplitQualType CurTy Qs'"
        by (auto simp add: getSplitDesugaredType_loop.simps [of Qs Cur])
      then show ?thesis
        using qs ty
        by (simp add: getQualifiers_def addQualifiers_def or.assoc or.commute or.left_commute)
    qed
  qed
qed

lemma getAs_not_sugared: "\<not> isSugared T \<Longrightarrow> getAs Cs T = Some D \<Longrightarrow> D = T"
  by (auto simp: getAs_def getUnqualifiedDesugaredType.simps [of T] split: if_splits)

lemma canonical_quals_array:
  "getElementType A = Some E \<Longrightarrow>
   getLocalQualifiers (getCanonicalTypeInternal A) = getQualifiers E"
  by (cases A) (auto simp: getElementType_def getQualifiers_canonical)

lemma getQualifiedType_QT_quals:
  "getQualifiedType_QT T qs = Inr B \<Longrightarrow> getQualifiers B = addQualifiers qs (getQualifiers T)"
proof -
  assume "getQualifiedType_QT T qs = Inr B"
  then obtain Qc Ptr where s: "strip qs T = Inr (Qc, Ptr)" and B: "B = QualType Ptr Qc"
    by (auto simp: getQualifiedType_QT_def bindE_def split: sum.splits)
  from s have "Ptr = getTypePtr T" "Qc = addQualifiers qs (getLocalQualifiers T)"
    using strip_Inr strip_quals by blast+
  with B show ?thesis
    by (simp add: getQualifiers_def addQualifiers_def or.assoc or.commute or.left_commute)
qed

lemma getBaseElementType_loop_quals:
  "getBaseElementType_loop qs type = Inr B \<Longrightarrow>
   getQualifiers B = addQualifiers qs (getQualifiers type)"
proof (induction qs type rule: getBaseElementType_loop.induct)
  case (1 qs type)
  from "1.prems" obtain split where sp: "getSplitDesugaredType type = Inr split"
    by (subst (asm) getBaseElementType_loop.simps) (auto split: sum.splits)
  have ns: "\<not> isSugared (Ty split)"
    using sp loop_not_sugared by (simp add: getSplitDesugaredType_def)
  have q: "addQualifiers (Quals split) (getLocalQualifiers (getCanonicalTypeInternal (Ty split)))
      = getQualifiers type"
    using loop_quals [of emptyQualifiers type split] sp
    by (simp add: getSplitDesugaredType_def)
  show ?case
  proof (cases "getAsArrayTypeUnsafe (Ty split)")
    case None
    with "1.prems" sp have "getQualifiedType_QT type qs = Inr B"
      by (simp add: getBaseElementType_loop.simps [of qs type])
    then show ?thesis by (rule getQualifiedType_QT_quals)
  next
    case (Some array)
    then have ar: "array = Ty split"
      using ns getAs_not_sugared by (simp add: getAsArrayTypeUnsafe_def)
    from "1.prems" sp Some obtain E where el: "getElementType array = Some E"
      by (subst (asm) getBaseElementType_loop.simps) (auto split: option.splits)
    from "1.prems" sp Some el obtain qs' where
      ac: "addConsistentQualifiers qs (Quals split) = Inr qs'"
      and rec: "getBaseElementType_loop qs' E = Inr B"
      by (subst (asm) getBaseElementType_loop.simps) (auto split: sum.splits)
    have "getQualifiers B = addQualifiers qs' (getQualifiers E)"
      using "1.IH" [OF sp Some el ac rec] .
    moreover have "qs' = addQualifiers qs (Quals split)"
      using ac by (rule addConsistentQualifiers_Inr)
    moreover have "getQualifiers type = addQualifiers (Quals split) (getQualifiers E)"
      using q canonical_quals_array [OF el] ar by simp
    ultimately show ?thesis by (simp add: addQualifiers_assoc)
  qed
qed

lemma getBaseElementType_quals:
  "getBaseElementType T = Inr B \<Longrightarrow> getQualifiers B = getQualifiers T"
  using getBaseElementType_loop_quals [of emptyQualifiers T B]
  by (simp add: getBaseElementType_def)

lemma canonical_ConstantArray:
  "canonicalClass X = TC_ConstantArray \<Longrightarrow>
   \<exists>E N. getTypePtr (getCanonicalTypeInternal X) = ConstantArray E N"
  by (cases "getTypePtr (getCanonicalTypeInternal X)") (auto simp: canonicalClass_def)

lemma canonical_VariableArray:
  "canonicalClass X = TC_VariableArray \<Longrightarrow>
   \<exists>E S. getTypePtr (getCanonicalTypeInternal X) = VariableArray E S"
  by (cases "getTypePtr (getCanonicalTypeInternal X)") (auto simp: canonicalClass_def)

lemma canonical_IncompleteArray:
  "canonicalClass X = TC_IncompleteArray \<Longrightarrow>
   \<exists>E. getTypePtr (getCanonicalTypeInternal X) = IncompleteArray E"
  by (cases "getTypePtr (getCanonicalTypeInternal X)") (auto simp: canonicalClass_def)

lemma isIncompleteType_canonical_VariableArray:
  "canonicalClass X = TC_VariableArray \<Longrightarrow> isIncompleteType ctx X = Inr False"
  by (auto dest!: canonical_VariableArray
      simp: isIncompleteType_def isIncompleteType_traced.simps [of ctx X] returnT_def)

lemma isIncompleteType_canonical_IncompleteArray:
  "canonicalClass X = TC_IncompleteArray \<Longrightarrow> isIncompleteType ctx X = Inr True"
  by (auto dest!: canonical_IncompleteArray
      simp: isIncompleteType_def isIncompleteType_traced.simps [of ctx X] returnT_def)

text \<open>\<open>isCXX98PODType\<close> (C++98 mode) on a type, by the class of its canonical type.\<close>

lemma isCXX98PODType_base:
  assumes b: "getBaseElementType T = Inr B"
    and inc: "isIncompleteType ctx (getTypePtr B) = Inr incB"
    and f: "incB \<or> hasNonTrivialObjCLifetime T"
  shows "isCXX98PODType ctx (Some B) = Inr False"
proof -
  have "\<not> isArrayType (getTypePtr B)" using b by (rule getBaseElementType_not_array)
  then have nia: "\<not> isIncompleteArrayType (getTypePtr B)"
    by (simp add: isArrayType_def isIncompleteArrayType_def ArrayType_def)
  have "hasNonTrivialObjCLifetime B = hasNonTrivialObjCLifetime T"
    by (simp add: hasNonTrivialObjCLifetime_def getBaseElementType_quals [OF b])
  with f nia inc show ?thesis
    by (auto simp add: isCXX98PODType.simps(2) [of ctx B])
qed

lemma isCXX98PODType_IncompleteArray:
  assumes b: "getBaseElementType T = Inr B"
    and c: "canonicalClass (getTypePtr T) = TC_IncompleteArray"
  shows "isCXX98PODType ctx (Some T) = isCXX98PODType ctx (Some B)"
  using b c by (simp add: isCXX98PODType.simps(2) [of ctx T] isIncompleteArrayType_def)

lemma isCXX98PODType_ConstantArray:
  assumes b: "getBaseElementType T = Inr B"
    and c: "canonicalClass (getTypePtr T) = TC_ConstantArray"
    and inc: "isIncompleteType ctx (getTypePtr T) = Inr incT"
  shows "isCXX98PODType ctx (Some T) =
    (if incT \<or> hasNonTrivialObjCLifetime T then Inr False else isCXX98PODType ctx (Some B))"
proof -
  from c obtain E N where "getTypePtr (getCanonicalTypeInternal (getTypePtr T)) = ConstantArray E N"
    using canonical_ConstantArray by blast
  with b c inc show ?thesis
    by (simp add: isCXX98PODType.simps(2) [of ctx T] isIncompleteArrayType_def)
qed

lemma isCXX98PODType_VariableArray:
  assumes b: "getBaseElementType T = Inr B"
    and c: "canonicalClass (getTypePtr T) = TC_VariableArray"
  shows "isCXX98PODType ctx (Some T) =
    (if hasNonTrivialObjCLifetime T then Inr False else isCXX98PODType ctx (Some B))"
proof -
  from c obtain E S where "getTypePtr (getCanonicalTypeInternal (getTypePtr T)) = VariableArray E S"
    using canonical_VariableArray by blast
  with b c isIncompleteType_canonical_VariableArray [OF c, of ctx] show ?thesis
    by (simp add: isCXX98PODType.simps(2) [of ctx T] isIncompleteArrayType_def)
qed

lemma isCXX98PODType_array:
  assumes ar: "A = ConstantArray T N \<or> A = IncompleteArray T \<or> A = VariableArray T X"
    and b: "getBaseElementType (unqualified A) = Inr B"
    and nd: "canonicalClass (getTypePtr T) \<noteq> TC_DependentSizedArray"
    and incT: "isIncompleteType ctx (getTypePtr T) = Inr incT"
    and incB: "isIncompleteType ctx (getTypePtr B) = Inr incB"
    and h: "incT \<and> \<not> incB \<longrightarrow>
            (getTypeClass A = TC_ConstantArray
               \<longleftrightarrow> canonicalClass (getTypePtr T) = TC_ConstantArray)"
  shows "isCXX98PODType ctx (Some (unqualified A)) = isCXX98PODType ctx (Some T)"
proof (cases "isArrayType (getTypePtr T)")
  case False
  then show ?thesis
    using isCXX98PODType_array_of_non_array [OF ar b False incT] by simp
next
  case True
  have bt: "getBaseElementType T = Inr B" using b getBaseElementType_array [OF ar] by simp
  have lif: "hasNonTrivialObjCLifetime (unqualified A) = hasNonTrivialObjCLifetime T"
    by (simp add: hasNonTrivialObjCLifetime_def getQualifiers_array [OF ar])
  have PB: "isCXX98PODType ctx (Some B) = Inr False" if "incB \<or> hasNonTrivialObjCLifetime T"
    using that by (rule isCXX98PODType_base [OF bt incB])
  have incA: "isIncompleteType ctx A = Inr incT" if "A = ConstantArray T N"
    using that incT by (simp add: isIncompleteType_ConstantArray)
  have PA: "isCXX98PODType ctx (Some (unqualified A)) =
      (if (getTypeClass A = TC_ConstantArray \<and> incT)
          \<or> (getTypeClass A \<noteq> TC_IncompleteArray \<and> hasNonTrivialObjCLifetime T)
       then Inr False else isCXX98PODType ctx (Some B))"
  proof -
    from ar consider (C) "A = ConstantArray T N" | (I) "A = IncompleteArray T"
      | (V) "A = VariableArray T X" by blast
    then show ?thesis
    proof cases
      case C
      have cc: "canonicalClass (getTypePtr (unqualified A)) = TC_ConstantArray"
        using C by (simp add: canonicalClass_def)
      show ?thesis
        using isCXX98PODType_ConstantArray [OF b cc, of ctx incT] incA [OF C] lif C
        by simp
    next
      case I
      have cc: "canonicalClass (getTypePtr (unqualified A)) = TC_IncompleteArray"
        using I by (simp add: canonicalClass_def)
      show ?thesis
        using isCXX98PODType_IncompleteArray [OF b cc, of ctx] I by simp
    next
      case V
      have cc: "canonicalClass (getTypePtr (unqualified A)) = TC_VariableArray"
        using V by (simp add: canonicalClass_def)
      show ?thesis
        using isCXX98PODType_VariableArray [OF b cc, of ctx] lif V by simp
    qed
  qed
  from True nd consider (C) "canonicalClass (getTypePtr T) = TC_ConstantArray"
    | (I) "canonicalClass (getTypePtr T) = TC_IncompleteArray"
    | (V) "canonicalClass (getTypePtr T) = TC_VariableArray"
    by (auto simp: isArrayType_def ArrayType_def)
  then show ?thesis
  proof cases
    case C
    have PT: "isCXX98PODType ctx (Some T) =
        (if incT \<or> hasNonTrivialObjCLifetime T then Inr False else isCXX98PODType ctx (Some B))"
      using bt C incT by (rule isCXX98PODType_ConstantArray)
    show ?thesis
      using PA PT PB h C by (cases incB) auto
  next
    case I
    have PT: "isCXX98PODType ctx (Some T) = isCXX98PODType ctx (Some B)"
      using bt I by (rule isCXX98PODType_IncompleteArray)
    have t: "incT"
      using isIncompleteType_canonical_IncompleteArray [OF I, of ctx] incT by simp
    show ?thesis
      using PA PT PB h I t by (cases incB) auto
  next
    case V
    have PT: "isCXX98PODType ctx (Some T) =
        (if hasNonTrivialObjCLifetime T then Inr False else isCXX98PODType ctx (Some B))"
      using bt V by (rule isCXX98PODType_VariableArray)
    have t: "\<not> incT"
      using isIncompleteType_canonical_VariableArray [OF V, of ctx] incT by simp
    show ?thesis
      using PA PT PB t by auto
  qed
qed

text \<open>
  Claim C1, amended. For an element type \<open>T\<close> and a constant, incomplete or variable
  array \<open>A\<close> over it whose base element type \<open>B\<close> is computed without an assertion
  failure, \<open>isTrivialType\<close>, \<open>isTriviallyCopyableType\<close>, \<open>isStandardLayoutType\<close> and
  \<open>hasUniqueObjectRepresentations\<close> give on \<open>A\<close> what they give on \<open>T\<close>. So does
  \<open>isPODType\<close> in C++11 mode. In C++98 mode it does when \<open>T\<close> is not an array of
  dependent size and the completeness test answers on \<open>T\<close> and on \<open>B\<close>, unless \<open>T\<close>
  is incomplete while \<open>B\<close> is complete (\<open>T\<close> is, or nests constant arrays over, an
  incomplete array) and exactly one of \<open>A\<close> and \<open>T\<close> is a constant array.
\<close>

theorem array_base_element_law:
  assumes ar: "A = ConstantArray T N \<or> A = IncompleteArray T \<or> A = VariableArray T X"
    and b: "getBaseElementType (unqualified A) = Inr B"
  shows "isTrivialType ctx (Some (unqualified A)) = isTrivialType ctx (Some T) \<and>
         isTriviallyCopyableType ctx (unqualified A) = isTriviallyCopyableType ctx T \<and>
         isStandardLayoutType ctx A = isStandardLayoutType ctx (getTypePtr T) \<and>
         hasUniqueObjectRepresentations fuel ctx (Some (unqualified A))
           = hasUniqueObjectRepresentations fuel ctx (Some T) \<and>
         (CPlusPlus11 ctx \<longrightarrow> isPODType ctx (unqualified A) = isPODType ctx T) \<and>
         (\<not> CPlusPlus11 ctx \<and>
            canonicalClass (getTypePtr T) \<noteq> TC_DependentSizedArray \<and>
            isIncompleteType ctx (getTypePtr T) = Inr incT \<and>
            isIncompleteType ctx (getTypePtr B) = Inr incB \<and>
            (incT \<and> \<not> incB \<longrightarrow>
               (getTypeClass A = TC_ConstantArray
                  \<longleftrightarrow> canonicalClass (getTypePtr T) = TC_ConstantArray)) \<longrightarrow>
            isPODType ctx (unqualified A) = isPODType ctx T)"
proof -
  have bt: "getBaseElementType T = Inr B" using b getBaseElementType_array [OF ar] by simp
  have 1: "isTrivialType ctx (Some (unqualified A)) = isTrivialType ctx (Some T)"
    by (simp add: isTrivialType_def isTrivialType_traced_base [OF b]
        isTrivialType_traced_base [OF bt])
  have 2: "isTriviallyCopyableType ctx (unqualified A) = isTriviallyCopyableType ctx T"
    by (simp add: isTriviallyCopyableType_base [OF b] isTriviallyCopyableType_base [OF bt])
  have 3: "isStandardLayoutType ctx A = isStandardLayoutType ctx (getTypePtr T)"
    by (simp add: isStandardLayoutType_def isDependentType_array [OF ar]
        getBaseElementTypeUnsafe_array [OF ar])
  have 4: "hasUniqueObjectRepresentations fuel ctx (Some (unqualified A))
      = hasUniqueObjectRepresentations fuel ctx (Some T)"
    by (simp add: hasUniqueObjectRepresentations_base [OF b]
        hasUniqueObjectRepresentations_base [OF bt])
  have 5: "isCXX11PODType ctx (unqualified A) = isCXX11PODType ctx T"
    by (simp add: isCXX11PODType_def isDependentType_array [OF ar]
        getBaseElementTypeUnsafe_array [OF ar] hasNonTrivialObjCLifetime_def
        getQualifiers_array [OF ar])
  have 6: "isCXX98PODType ctx (Some (unqualified A)) = isCXX98PODType ctx (Some T)"
    if "canonicalClass (getTypePtr T) \<noteq> TC_DependentSizedArray"
      "isIncompleteType ctx (getTypePtr T) = Inr incT"
      "isIncompleteType ctx (getTypePtr B) = Inr incB"
      "incT \<and> \<not> incB \<longrightarrow>
         (getTypeClass A = TC_ConstantArray
            \<longleftrightarrow> canonicalClass (getTypePtr T) = TC_ConstantArray)"
    using that by (rule isCXX98PODType_array [OF ar b])
  from 1 2 3 4 5 6 show ?thesis by (simp add: isPODType_def)
qed

text \<open>
  An array of three arrays of two \<open>const int\<close> in C++98 mode: the element type is itself
  an array.
\<close>

theorem array_base_element_law_witness:
  "getBaseElementType (unqualified (ConstantArray (unqualified
       (ConstantArray (QualType (Builtin BT_Int) (Qualifiers Const)) 2)) 3))
     = Inr (QualType (Builtin BT_Int) (Qualifiers Const)) \<and>
   \<not> CPlusPlus11 (exampleContext (\<lambda>D. exampleRecordDecl NotCXX)) \<and>
   isTrivialType (exampleContext (\<lambda>D. exampleRecordDecl NotCXX))
     (Some (unqualified (ConstantArray (unqualified
        (ConstantArray (QualType (Builtin BT_Int) (Qualifiers Const)) 2)) 3)))
     = Inr True \<and>
   isPODType (exampleContext (\<lambda>D. exampleRecordDecl NotCXX))
     (unqualified (ConstantArray (unqualified
        (ConstantArray (QualType (Builtin BT_Int) (Qualifiers Const)) 2)) 3))
     = Inr True"
proof -
  let ?ctx = "exampleContext (\<lambda>D. exampleRecordDecl NotCXX)"
  let ?B = "QualType (Builtin BT_Int) (Qualifiers Const)"
  let ?T = "unqualified (ConstantArray ?B 2)"
  let ?A = "ConstantArray ?T 3"
  have 1: "?A = ConstantArray ?T 3 \<or> ?A = IncompleteArray ?T
      \<or> ?A = VariableArray ?T (Expr False False False)"
    by simp
  have 2: "getBaseElementType (unqualified ?A) = Inr ?B" by code_simp
  have 3: "\<not> CPlusPlus11 ?ctx" by code_simp
  have 4: "canonicalClass (getTypePtr ?T) \<noteq> TC_DependentSizedArray" by code_simp
  have 5: "isIncompleteType ?ctx (getTypePtr ?T) = Inr False" by code_simp
  have 6: "isIncompleteType ?ctx (getTypePtr ?B) = Inr False" by code_simp
  have 7: "isTrivialType ?ctx (Some ?T) = Inr True" by code_simp
  have 8: "isPODType ?ctx ?T = Inr True" by code_simp
  from array_base_element_law [OF 1 2, of ?ctx 0 False False] 3 4 5 6 7 8 2
  show ?thesis by simp
qed

text \<open>
  Claim C1 as stated fails for \<open>isPODType\<close> in C++98 mode when the element type is an
  array of dependent size: the array of three such arrays is answered for the base element
  type \<open>int\<close>, the element type itself falls into the default case of the switch.
\<close>

theorem isPODType_array_of_dependent_sized_array_counterexample:
  "\<not> CPlusPlus11 (exampleContext (\<lambda>D. exampleRecordDecl NotCXX)) \<and>
   isPODType (exampleContext (\<lambda>D. exampleRecordDecl NotCXX))
     (unqualified (ConstantArray
        (unqualified (DependentSizedArray (unqualified (Builtin BT_Int)) (Expr False True True)))
        3)) = Inr True \<and>
   isPODType (exampleContext (\<lambda>D. exampleRecordDecl NotCXX))
     (unqualified (DependentSizedArray (unqualified (Builtin BT_Int)) (Expr False True True)))
     = Inr False"
  by code_simp

text \<open>
  In C++98 mode the answer for a constant array depends on the completeness of its
  element type, the answer for an incomplete or a variable array does not. So the law also
  fails, with a complete base element type, for a constant array over an incomplete array
  and for an incomplete array over a constant array of incomplete arrays.
\<close>

theorem isPODType_array_of_incomplete_array:
  "\<not> CPlusPlus11 (exampleContext (\<lambda>D. exampleRecordDecl NotCXX)) \<and>
   isPODType (exampleContext (\<lambda>D. exampleRecordDecl NotCXX))
     (unqualified (ConstantArray (unqualified (IncompleteArray (unqualified (Builtin BT_Int)))) 3))
     = Inr False \<and>
   isPODType (exampleContext (\<lambda>D. exampleRecordDecl NotCXX))
     (unqualified (IncompleteArray (unqualified (Builtin BT_Int)))) = Inr True \<and>
   isPODType (exampleContext (\<lambda>D. exampleRecordDecl NotCXX))
     (unqualified (IncompleteArray (unqualified (ConstantArray
        (unqualified (IncompleteArray (unqualified (Builtin BT_Int)))) 3))))
     = Inr True"
  by code_simp
subsection \<open>Linkage of compound types\<close>

lemma linkageProperties_canonical:
  "linkageProperties ctx (getTypePtr (getCanonicalTypeInternal T)) = linkageProperties ctx T"
  apply (subst linkageProperties.simps [of ctx T])
  apply (subst linkageProperties.simps [of ctx "getTypePtr (getCanonicalTypeInternal T)"])
  unfolding canonical_node_idem getTypePtr_unqualified
  apply (rule refl)
  done

lemma linkageProperties_QualType:
  "linkageProperties ctx (getTypePtr (getCanonicalType Q)) = linkageProperties ctx (getTypePtr Q)"
  by (simp add: getCanonicalType_eq linkageProperties_canonical)

lemma paramsProperties_canonical:
  "paramsProperties ctx (map getCanonicalType Ps) = paramsProperties ctx Ps"
proof
  fix r
  show "paramsProperties ctx (map getCanonicalType Ps) r = paramsProperties ctx Ps r"
    by (induction Ps arbitrary: r) (simp_all add: linkageProperties_QualType)
qed

lemma linkageProperties_Pointer:
  "linkageProperties ctx (Pointer P) = linkageProperties ctx (getTypePtr P)"
  by (simp add: linkageProperties.simps [of ctx "Pointer P"] linkageProperties_QualType)

lemma linkageProperties_FunctionProto:
  "linkageProperties ctx (FunctionProto R Ps EST Exs) =
     bindE (linkageProperties ctx (getTypePtr R)) (\<lambda>result. paramsProperties ctx Ps result)"
  by (simp add: linkageProperties.simps [of ctx "FunctionProto R Ps EST Exs"]
      linkageProperties_QualType paramsProperties_canonical)

lemma sim_Inl [simp]: "sim ctx (Inl e) v \<longleftrightarrow> v = Inl e"
  by (simp add: sim_def)

lemma sim_Inr [simp]: "sim ctx (Inr (p, c')) v \<longleftrightarrow> v = Inr p \<and> cache_ok ctx c'"
  by (simp add: sim_def)

lemma sim_bind:
  assumes "sim ctx r v"
    and "\<And>p c'. r = Inr (p, c') \<Longrightarrow> v = Inr p \<Longrightarrow> cache_ok ctx c' \<Longrightarrow> sim ctx (f (p, c')) (g p)"
  shows "sim ctx (bindE r f) (bindE v g)"
  using assms by (cases r) (auto simp: bindE_def)


lemma cache_ok_update:
  assumes "cache_ok ctx c" and "linkageProperties ctx T = Inr (CachedProperties L b)"
  shows "cache_ok ctx (c(T := \<lparr>CacheValid = True, CachedLinkage = L, CachedLocalOrUnnamed = b\<rparr>))"
  using assms by (simp add: cache_ok_def)

lemma cache_simulation:
  "cache_ok ctx c \<longrightarrow> sim ctx (Cache_get ctx T c) (linkageProperties ctx T)"
  "cache_ok ctx c \<longrightarrow>
     (case ensure ctx T c of
        Inl e \<Rightarrow> linkageProperties ctx T = Inl e
      | Inr c' \<Rightarrow> cache_ok ctx c' \<and> CacheValid (c' T))"
  "cache_ok ctx c \<longrightarrow> isCanonicalUnqualified T \<longrightarrow>
     sim ctx (computeCachedProperties ctx T c) (linkageProperties ctx T)"
  "cache_ok ctx c \<longrightarrow> sim ctx (mergeParams ctx Ps r c) (paramsProperties ctx Ps r)"
proof (induction ctx T c and ctx T c and ctx T c and ctx Ps r c
    rule: Cache_get_ensure_computeCachedProperties_mergeParams.induct)
  case (1 ctx T c)
  show ?case
  proof
    assume ok: "cache_ok ctx c"
    show "sim ctx (Cache_get ctx T c) (linkageProperties ctx T)"
    proof (cases "ensure ctx T c")
      case (Inl e)
      with 1 ok show ?thesis by (simp add: Cache_get.simps bindE_def)
    next
      case (Inr c')
      with 1 ok have ok': "cache_ok ctx c'" and v: "CacheValid (c' T)" by simp_all
      from ok' v have "linkageProperties ctx T
          = Inr (CachedProperties (CachedLinkage (c' T)) (CachedLocalOrUnnamed (c' T)))"
        by (simp add: cache_ok_def)
      with Inr ok' v show ?thesis
        by (simp add: Cache_get.simps bindE_def TypeBits_getLinkage_def
            TypeBits_hasLocalOrUnnamedType_def isCacheValid_def)
    qed
  qed
next
  case (2 ctx T c)
  show ?case
  proof
    assume ok: "cache_ok ctx c"
    show "case ensure ctx T c of
        Inl e \<Rightarrow> linkageProperties ctx T = Inl e
      | Inr c' \<Rightarrow> cache_ok ctx c' \<and> CacheValid (c' T)"
    proof (cases "isCacheValid (c T)")
      case True
      with ok show ?thesis by (simp add: ensure.simps isCacheValid_def)
    next
      case nv: False
      show ?thesis
      proof (cases "isCanonicalUnqualified T")
        case False
        let ?CT = "getTypePtr (getCanonicalTypeInternal T)"
        from 2(1) [OF nv False refl] ok
        have ih: "case ensure ctx ?CT c of
            Inl e \<Rightarrow> linkageProperties ctx ?CT = Inl e
          | Inr c' \<Rightarrow> cache_ok ctx c' \<and> CacheValid (c' ?CT)" by simp
        show ?thesis
        proof (cases "ensure ctx ?CT c")
          case (Inl e)
          with ih nv False show ?thesis
            by (simp add: ensure.simps [of ctx T] bindE_def linkageProperties_canonical)
        next
          case (Inr c')
          with ih have ok': "cache_ok ctx c'" and v: "CacheValid (c' ?CT)" by simp_all
          then have "linkageProperties ctx T
              = Inr (CachedProperties (CachedLinkage (c' ?CT)) (CachedLocalOrUnnamed (c' ?CT)))"
            using linkageProperties_canonical [of ctx T] by (simp add: cache_ok_def)
          from cache_ok_update [OF ok' this] Inr nv False show ?thesis
            by (simp add: ensure.simps [of ctx T] bindE_def Let_def)
        qed
      next
        case True
        from 2(2) nv True ok
        have ih: "sim ctx (computeCachedProperties ctx T c) (linkageProperties ctx T)" by simp
        show ?thesis
        proof (cases "computeCachedProperties ctx T c")
          case (Inl e)
          with ih nv True show ?thesis by (simp add: ensure.simps [of ctx T] bindE_def)
        next
          case (Inr pc)
          obtain p c' where pc: "pc = (p, c')" by (cases pc)
          with Inr ih have lp: "linkageProperties ctx T = Inr p" and ok': "cache_ok ctx c'"
            by simp_all
          from lp have "linkageProperties ctx T
              = Inr (CachedProperties (getLinkage p) (hasLocalOrUnnamedType p))" by simp
          from cache_ok_update [OF ok' this] Inr pc nv True show ?thesis
            by (simp add: ensure.simps [of ctx T] bindE_def)
        qed
      qed
    qed
  qed
next
  case (3 ctx T c)
  show ?case
  proof (intro impI)
    assume ok: "cache_ok ctx c" and can: "isCanonicalUnqualified T"
    from can have ct: "getTypePtr (getCanonicalTypeInternal T) = T"
      by (simp add: isCanonicalUnqualified_def)
    note lp = linkageProperties.simps [of ctx T, unfolded ct]
    note cp = computeCachedProperties.simps [of ctx T c]
    show "sim ctx (computeCachedProperties ctx T c) (linkageProperties ctx T)"
    proof (cases T)
      case (MemberPointer P Cls)
      have a: "sim ctx (Cache_get ctx Cls c) (linkageProperties ctx Cls)"
        using 3(6) [OF MemberPointer] ok by simp
      have b: "\<And>c1. cache_ok ctx c1 \<Longrightarrow>
          sim ctx (Cache_get ctx (getTypePtr P) c1) (linkageProperties ctx (getTypePtr P))"
        using 3(7) [OF MemberPointer] by simp
      show ?thesis
        unfolding MemberPointer
        unfolding lp [unfolded MemberPointer Type.case] cp [unfolded MemberPointer Type.case]
        by (rule sim_bind [OF a]) (auto intro!: sim_bind b)
    next
      case (FunctionProto R Ps EST Exs)
      have a: "sim ctx (Cache_get ctx (getTypePtr R) c) (linkageProperties ctx (getTypePtr R))"
        using 3(13) [OF FunctionProto] ok by simp
      have b: "\<And>r c1. cache_ok ctx c1 \<Longrightarrow>
          sim ctx (mergeParams ctx Ps r c1) (paramsProperties ctx Ps r)"
        using 3(14) [OF FunctionProto] by simp
      show ?thesis
        unfolding FunctionProto
        unfolding lp [unfolded FunctionProto Type.case] cp [unfolded FunctionProto Type.case]
        by (rule sim_bind [OF a]) (auto intro!: b)
    qed (use 3 ok lp cp in \<open>simp_all add: dependentProperties_def Let_def\<close>)
  qed
next
  case (4 ctx r c)
  show ?case by simp
next
  case (5 ctx ai rest r c)
  show ?case
  proof
    assume ok: "cache_ok ctx c"
    have a: "sim ctx (Cache_get ctx (getTypePtr ai) c) (linkageProperties ctx (getTypePtr ai))"
      using 5(1) ok by simp
    have b: "\<And>p c1. cache_ok ctx c1 \<Longrightarrow>
        sim ctx (mergeParams ctx rest (merge r p) c1) (paramsProperties ctx rest (merge r p))"
      using 5(2) by simp
    show "sim ctx (mergeParams ctx (ai # rest) r c) (paramsProperties ctx (ai # rest) r)"
      unfolding mergeParams.simps paramsProperties.simps
      by (rule sim_bind [OF a]) (auto intro!: b)
  qed
qed

lemma cache_ok_fresh: "cache_ok ctx freshCache"
  by (simp add: cache_ok_def freshCache_def freshTypeBits_def)

lemma reachableCache_ok: "reachableCache ctx c \<Longrightarrow> cache_ok ctx c"
proof (induction rule: reachableCache.induct)
  case fresh
  show ?case by (rule cache_ok_fresh)
next
  case (query c T c')
  with cache_simulation(2) [of ctx c T] show ?case by simp
qed

lemma Cache_get_value:
  assumes "cache_ok ctx c"
  shows "map_sum id fst (Cache_get ctx T c) = linkageProperties ctx T"
proof (cases "Cache_get ctx T c")
  case (Inl e)
  with cache_simulation(1) [of ctx c T] assms show ?thesis by simp
next
  case (Inr pc)
  with cache_simulation(1) [of ctx c T] assms show ?thesis by (cases pc) simp
qed

lemma Type_getLinkage_value:
  assumes "cache_ok ctx c"
  shows "map_sum id fst (Type_getLinkage ctx T c) = map_sum id getLinkage (linkageProperties ctx T)"
proof (cases "ensure ctx T c")
  case (Inl e)
  with cache_simulation(2) [of ctx c T] assms show ?thesis
    by (simp add: Type_getLinkage_def bindE_def)
next
  case (Inr c')
  with cache_simulation(2) [of ctx c T] assms
  have ok': "cache_ok ctx c'" and v: "CacheValid (c' T)" by simp_all
  then have "linkageProperties ctx T
      = Inr (CachedProperties (CachedLinkage (c' T)) (CachedLocalOrUnnamed (c' T)))"
    by (simp add: cache_ok_def)
  with Inr v show ?thesis
    by (simp add: Type_getLinkage_def bindE_def TypeBits_getLinkage_def isCacheValid_def)
qed

lemma paramsProperties_foldl:
  "list_all2 (\<lambda>P q. linkageProperties ctx (getTypePtr P) = Inr q) Ps qs \<Longrightarrow>
   paramsProperties ctx Ps r = Inr (foldl merge r qs)"
  by (induction Ps qs arbitrary: r rule: list_all2_induct) (simp_all add: bindE_def)

lemma minLinkage_cases: "minLinkage a b = a \<or> minLinkage a b = b"
  by (simp add: minLinkage_def)

lemma minLinkage_le:
  "linkageOrd (minLinkage a b) \<le> linkageOrd a" "linkageOrd (minLinkage a b) \<le> linkageOrd b"
  by (simp_all add: minLinkage_def)

lemma foldl_merge_member:
  "getLinkage (foldl merge r qs) \<in> getLinkage ` set (r # qs)"
proof (induction qs arbitrary: r)
  case Nil
  show ?case by simp
next
  case (Cons q qs)
  from Cons [of "merge r q"] minLinkage_cases [of "getLinkage r" "getLinkage q"]
  show ?case by (auto simp: merge_def)
qed

lemma foldl_merge_le:
  "\<forall>q \<in> set (r # qs). linkageOrd (getLinkage (foldl merge r qs)) \<le> linkageOrd (getLinkage q)"
proof (induction qs arbitrary: r)
  case Nil
  show ?case by simp
next
  case (Cons a qs)
  have m: "linkageOrd (getLinkage (foldl merge (merge r a) qs))
      \<le> linkageOrd (getLinkage (merge r a))"
    using Cons [of "merge r a"] by simp
  have r: "linkageOrd (getLinkage (merge r a)) \<le> linkageOrd (getLinkage r)"
    and a: "linkageOrd (getLinkage (merge r a)) \<le> linkageOrd (getLinkage a)"
    using minLinkage_le [of "getLinkage r" "getLinkage a"] by (simp_all add: merge_def)
  from m r a Cons [of "merge r a"] show ?case by auto
qed

lemma foldl_merge_local:
  "hasLocalOrUnnamedType (foldl merge r qs) \<longleftrightarrow> (\<exists>q \<in> set (r # qs). hasLocalOrUnnamedType q)"
  by (induction qs arbitrary: r) (auto simp: merge_def)

lemma computeTypeLinkageInfo_QualType_eq:
  "computeTypeLinkageInfo_QualType ctx Q = computeTypeLinkageInfo ctx (getTypePtr Q)"
  by (cases Q) simp

lemma foldl_mergeLinkage:
  "foldl mergeLinkage (Inr l) (map Inr ls) = Inr (foldl minLinkage l ls)"
  by (induction ls arbitrary: l) (simp_all add: mergeLinkage_def bindE_def)

lemma foldl_minLinkage_member: "foldl minLinkage l ls \<in> set (l # ls)"
proof (induction ls arbitrary: l)
  case Nil
  show ?case by simp
next
  case (Cons a ls)
  from Cons [of "minLinkage l a"] minLinkage_cases [of l a] show ?case by auto
qed

lemma foldl_minLinkage_le:
  "\<forall>q \<in> set (l # ls). linkageOrd (foldl minLinkage l ls) \<le> linkageOrd q"
proof (induction ls arbitrary: l)
  case Nil
  show ?case by simp
next
  case (Cons a ls)
  have m: "linkageOrd (foldl minLinkage (minLinkage l a) ls) \<le> linkageOrd (minLinkage l a)"
    using Cons [of "minLinkage l a"] by simp
  from m minLinkage_le [of l a] Cons [of "minLinkage l a"] show ?case by auto
qed

lemma computeTypeLinkageInfo_FunctionProto:
  assumes "computeTypeLinkageInfo ctx (getTypePtr R) = Inr l"
    and "list_all2 (\<lambda>P q. computeTypeLinkageInfo ctx (getTypePtr P) = Inr q) Ps ls"
  shows "computeTypeLinkageInfo ctx (FunctionProto R Ps EST Exs) = Inr (foldl minLinkage l ls)"
proof -
  from assms(2) have "map (computeTypeLinkageInfo_QualType ctx) Ps = map Inr ls"
    by (induction Ps ls rule: list_all2_induct)
      (simp_all add: computeTypeLinkageInfo_QualType_eq)
  with assms(1) show ?thesis
    by (simp add: computeTypeLinkageInfo_QualType_eq foldl_mergeLinkage)
qed

text \<open>
  Claim C2. On a cache that queries have left behind, the properties computed for a
  pointer to \<open>T\<close> are those computed for \<open>T\<close>, linkage and flag (or the same
  assertion failure); so is the linkage that \<open>Type::getLinkage\<close> returns, and the one
  of \<open>computeTypeLinkageInfo\<close>. When the return type and the parameter types of a
  function prototype have properties, the prototype has properties too: its linkage is
  one of theirs and at most each of theirs in the lattice, that is their minimum, and its
  has-local-or-unnamed flag is set exactly when one of theirs is. The linkage of
  \<open>computeTypeLinkageInfo\<close> is the minimum in the same way.
\<close>

theorem linkage_of_pointer_and_function:
  assumes "reachableCache ctx c"
  shows "map_sum id fst (Cache_get ctx (Pointer T) c) = map_sum id fst (Cache_get ctx (getTypePtr T) c) \<and>
         map_sum id fst (Type_getLinkage ctx (Pointer T) c)
           = map_sum id fst (Type_getLinkage ctx (getTypePtr T) c) \<and>
         computeTypeLinkageInfo ctx (Pointer T) = computeTypeLinkageInfo ctx (getTypePtr T) \<and>
         (map_sum id fst (Cache_get ctx (getTypePtr R) c) = Inr r \<and>
          list_all2 (\<lambda>P q. map_sum id fst (Cache_get ctx (getTypePtr P) c) = Inr q) Ps qs \<longrightarrow>
          (\<exists>p c'. Cache_get ctx (FunctionProto R Ps EST Exs) c = Inr (p, c') \<and>
             getLinkage p \<in> getLinkage ` set (r # qs) \<and>
             (\<forall>q \<in> set (r # qs). linkageOrd (getLinkage p) \<le> linkageOrd (getLinkage q)) \<and>
             (hasLocalOrUnnamedType p \<longleftrightarrow> (\<exists>q \<in> set (r # qs). hasLocalOrUnnamedType q)))) \<and>
         (computeTypeLinkageInfo ctx (getTypePtr R) = Inr l \<and>
          list_all2 (\<lambda>P q. computeTypeLinkageInfo ctx (getTypePtr P) = Inr q) Ps ls \<longrightarrow>
          (\<exists>L. computeTypeLinkageInfo ctx (FunctionProto R Ps EST Exs) = Inr L \<and>
             L \<in> set (l # ls) \<and> (\<forall>q \<in> set (l # ls). linkageOrd L \<le> linkageOrd q)))"
proof -
  have ok: "cache_ok ctx c" using assms by (rule reachableCache_ok)
  have 1: "map_sum id fst (Cache_get ctx (Pointer T) c)
      = map_sum id fst (Cache_get ctx (getTypePtr T) c)"
    by (simp add: Cache_get_value [OF ok] linkageProperties_Pointer)
  have 2: "map_sum id fst (Type_getLinkage ctx (Pointer T) c)
      = map_sum id fst (Type_getLinkage ctx (getTypePtr T) c)"
    by (simp add: Type_getLinkage_value [OF ok] linkageProperties_Pointer)
  have 3: "\<exists>p c'. Cache_get ctx (FunctionProto R Ps EST Exs) c = Inr (p, c') \<and>
             getLinkage p \<in> getLinkage ` set (r # qs) \<and>
             (\<forall>q \<in> set (r # qs). linkageOrd (getLinkage p) \<le> linkageOrd (getLinkage q)) \<and>
             (hasLocalOrUnnamedType p \<longleftrightarrow> (\<exists>q \<in> set (r # qs). hasLocalOrUnnamedType q))"
    if R: "map_sum id fst (Cache_get ctx (getTypePtr R) c) = Inr r"
      and Ps: "list_all2 (\<lambda>P q. map_sum id fst (Cache_get ctx (getTypePtr P) c) = Inr q) Ps qs"
  proof -
    from R have lr: "linkageProperties ctx (getTypePtr R) = Inr r"
      by (simp add: Cache_get_value [OF ok])
    from Ps have "list_all2 (\<lambda>P q. linkageProperties ctx (getTypePtr P) = Inr q) Ps qs"
      by (simp add: Cache_get_value [OF ok])
    then have lp: "paramsProperties ctx Ps r = Inr (foldl merge r qs)"
      by (rule paramsProperties_foldl)
    have "map_sum id fst (Cache_get ctx (FunctionProto R Ps EST Exs) c)
        = Inr (foldl merge r qs)"
      by (simp add: Cache_get_value [OF ok] linkageProperties_FunctionProto lr lp bindE_def)
    then obtain c' where
      "Cache_get ctx (FunctionProto R Ps EST Exs) c = Inr (foldl merge r qs, c')"
      by (cases "Cache_get ctx (FunctionProto R Ps EST Exs) c") auto
    then show ?thesis
      using foldl_merge_member [of r qs] foldl_merge_le [of r qs] foldl_merge_local [of r qs]
      by blast
  qed
  have 4: "computeTypeLinkageInfo ctx (Pointer T) = computeTypeLinkageInfo ctx (getTypePtr T)"
    by (simp add: computeTypeLinkageInfo_QualType_eq)
  have 5: "\<exists>L. computeTypeLinkageInfo ctx (FunctionProto R Ps EST Exs) = Inr L \<and>
             L \<in> set (l # ls) \<and> (\<forall>q \<in> set (l # ls). linkageOrd L \<le> linkageOrd q)"
    if "computeTypeLinkageInfo ctx (getTypePtr R) = Inr l"
      and "list_all2 (\<lambda>P q. computeTypeLinkageInfo ctx (getTypePtr P) = Inr q) Ps ls"
    using computeTypeLinkageInfo_FunctionProto [OF that, of EST Exs]
      foldl_minLinkage_member [of l ls] foldl_minLinkage_le [of l ls]
    by blast
  from 1 2 3 4 5 show ?thesis by blast
qed

text \<open>
  A pointer to an alias of a struct declared inside a function, and a function from such
  a pointer and a \<open>float\<close> to \<open>int\<close>: internal linkage, local.
\<close>

theorem linkage_of_pointer_and_function_witness:
  "map_sum id fst (Cache_get localStructContext
      (Pointer (QualType (Typedef 1 (unqualified (Record 0 False))) (Qualifiers Const))) freshCache)
     = Inr (CachedProperties InternalLinkage True) \<and>
   map_sum id fst (Cache_get localStructContext
      (FunctionProto (unqualified (Builtin BT_Int))
         [unqualified (Pointer (unqualified (Record 0 False))), unqualified (Builtin BT_Float)]
         EST_None []) freshCache)
     = Inr (CachedProperties InternalLinkage True) \<and>
   computeTypeLinkageInfo localStructContext
      (FunctionProto (unqualified (Builtin BT_Int))
         [unqualified (Pointer (unqualified (Record 0 False))), unqualified (Builtin BT_Float)]
         EST_None [])
     = Inr InternalLinkage"
proof -
  let ?ctx = localStructContext
  let ?T = "QualType (Typedef 1 (unqualified (Record 0 False))) (Qualifiers Const)"
  let ?R = "unqualified (Builtin BT_Int)"
  let ?Ps = "[unqualified (Pointer (unqualified (Record 0 False))), unqualified (Builtin BT_Float)]"
  let ?r = "CachedProperties ExternalLinkage False"
  let ?qs = "[CachedProperties InternalLinkage True, CachedProperties ExternalLinkage False]"
  let ?ls = "[InternalLinkage, ExternalLinkage]"
  have re: "reachableCache ?ctx freshCache" by (rule reachableCache.fresh)
  note inst = linkage_of_pointer_and_function
    [OF re, of ?T ?R ?r ?Ps ?qs EST_None "[]" ExternalLinkage ?ls]
  have t: "map_sum id fst (Cache_get ?ctx (getTypePtr ?T) freshCache)
      = Inr (CachedProperties InternalLinkage True)" by code_simp
  have r: "map_sum id fst (Cache_get ?ctx (getTypePtr ?R) freshCache) = Inr ?r" by code_simp
  have ps: "list_all2 (\<lambda>P q. map_sum id fst (Cache_get ?ctx (getTypePtr P) freshCache) = Inr q)
      ?Ps ?qs" by code_simp
  have l: "computeTypeLinkageInfo ?ctx (getTypePtr ?R) = Inr ExternalLinkage" by code_simp
  have ls: "list_all2 (\<lambda>P q. computeTypeLinkageInfo ?ctx (getTypePtr P) = Inr q) ?Ps ?ls"
    by code_simp
  from inst t have 1: "map_sum id fst (Cache_get ?ctx (Pointer ?T) freshCache)
      = Inr (CachedProperties InternalLinkage True)" by simp
  from inst r ps obtain p c' where
    eq: "Cache_get ?ctx (FunctionProto ?R ?Ps EST_None []) freshCache = Inr (p, c')"
    and mem: "getLinkage p \<in> getLinkage ` set (?r # ?qs)"
    and le: "\<forall>q \<in> set (?r # ?qs). linkageOrd (getLinkage p) \<le> linkageOrd (getLinkage q)"
    and loc: "hasLocalOrUnnamedType p \<longleftrightarrow> (\<exists>q \<in> set (?r # ?qs). hasLocalOrUnnamedType q)"
    by blast
  from mem le have "getLinkage p = InternalLinkage" by auto
  moreover from loc have "hasLocalOrUnnamedType p" by simp
  ultimately have "p = CachedProperties InternalLinkage True" by (cases p) simp
  with eq have 2: "map_sum id fst (Cache_get ?ctx (FunctionProto ?R ?Ps EST_None []) freshCache)
      = Inr (CachedProperties InternalLinkage True)" by simp
  from inst l ls obtain L where
    eqL: "computeTypeLinkageInfo ?ctx (FunctionProto ?R ?Ps EST_None []) = Inr L"
    and memL: "L \<in> set (ExternalLinkage # ?ls)"
    and leL: "\<forall>q \<in> set (ExternalLinkage # ?ls). linkageOrd L \<le> linkageOrd q"
    by blast
  from memL leL have "L = InternalLinkage" by auto
  with eqL 1 2 show ?thesis by simp
qed
subsection \<open>Identity preservation of the substitution\<close>

lemma bindR_Inr_Nil [simp]: "bindR (Inr ([], x)) f = f x"
  by (cases "f x") (auto simp: bindR_def)

lemma bindR_returnR [simp]: "bindR (returnR x) f = f x"
  by (simp add: returnR_def)

lemma ifNotNull_Some [simp]: "ifNotNull (Inr ([], Some T)) f = f T"
  by (simp add: ifNotNull_def)

lemma qualifiedType_unqualified [simp]:
  "qualifiedType (unqualified T) Qs = Inr ([], Some (QualType T Qs))"
  by (simp add: qualifiedType_def getQualifiedType_QT_def strip_def unqualified_def
      emptyQualifiers_def addQualifiers_def returnR_def bindE_def)

lemma transformTypes_id:
  "(\<And>P. P \<in> set Ps \<Longrightarrow> g P = Inr ([], Some P)) \<Longrightarrow>
   transformTypes g Ps = Inr ([], Some (Ps, False))"
  by (induction Ps) (simp_all add: returnR_def)

lemma substTypeArgsLoop_id:
  "(\<And>P. P \<in> set Ps \<Longrightarrow> g P = Inr ([], Some P)) \<Longrightarrow>
   substTypeArgsLoop g u Ps = Inr ([], Completed Ps False)"
  by (induction Ps) (simp_all add: returnR_def)

lemma QualType_split_eq [simp]:
  "Ty (QualType_split T) = getTypePtr T" "Quals (QualType_split T) = getLocalQualifiers T"
  by (simp_all add: QualType_split_def)

lemma nodes_self: "T \<in> set (nodes T)"
  by (cases T) simp_all

lemma nodes_QualType_eq: "nodes_QualType Q = nodes (getTypePtr Q)"
  by (cases Q) simp

lemma rewritesToItself_class:
  "getTypeClass N \<notin> {TC_ObjCTypeParam, TC_Pipe, TC_DeducedTemplateSpecialization,
     TC_TypeVariable, TC_Auto} \<Longrightarrow> rewritesToItself N"
  by (simp add: rewritesToItself_def isTypeParamReference_def hasRewriteRule_def
      isDependentAutoWithoutType_def)

lemma not_rewritesToItself_Pipe: "\<not> rewritesToItself (Pipe E)"
  by (simp add: rewritesToItself_def hasRewriteRule_def)

lemma list_all_concat: "list_all P (concat xss) = list_all (list_all P) xss"
  by (induction xss) simp_all

lemma list_all_nodes_canonical:
  "list_all rewritesToItself (nodes_QualType Q) \<longrightarrow>
   list_all rewritesToItself (nodes (getTypePtr (getCanonicalType Q)))"
  "list_all rewritesToItself (nodes T) \<longrightarrow>
   list_all rewritesToItself (nodes (getTypePtr (getCanonicalTypeInternal T)))"
proof (induction Q and T)
  case (QualType T Q)
  then show ?case by (simp add: withQualifiers_def)
next
  case (FunctionProto R Ps EST Exs)
  have "list_all (\<lambda>P. list_all rewritesToItself (nodes (getTypePtr P))) Ps \<Longrightarrow>
      list_all (\<lambda>P. list_all rewritesToItself (nodes (getTypePtr (getCanonicalType P)))) Ps"
    using FunctionProto(2) by (auto simp: list_all_iff nodes_QualType_eq)
  with FunctionProto(1) show ?case
    by (simp add: rewritesToItself_class nodes_QualType_eq list_all_concat list.pred_map
        comp_def)
next
  case (ObjCObject B Args Protos K)
  have "list_all (\<lambda>P. list_all rewritesToItself (nodes (getTypePtr P))) Args \<Longrightarrow>
      list_all (\<lambda>P. list_all rewritesToItself (nodes (getTypePtr (getCanonicalType P)))) Args"
    using ObjCObject(2) by (auto simp: list_all_iff nodes_QualType_eq)
  with ObjCObject(1) show ?case
    by (simp add: rewritesToItself_class nodes_QualType_eq list_all_concat list.pred_map
        comp_def)
qed (simp_all add: rewritesToItself_class not_rewritesToItself_Pipe nodes_QualType_eq
      split: option.splits)

lemma rewritesToItself_canonical:
  assumes "\<forall>N \<in> set (nodes T). rewritesToItself N"
  shows "\<forall>N \<in> set (nodes (getTypePtr (getCanonicalTypeInternal T))). rewritesToItself N"
  using assms list_all_nodes_canonical(2) [of T] by (simp add: list_all_iff)

lemma rewrite_identity:
  "(\<forall>N \<in> set (nodes_QualType type). rewritesToItself N) \<longrightarrow>
     substObjCTypeArgs ctx typeArgs cx type = Inr ([], Some type)"
  "(\<forall>N \<in> set (nodes_QualType type). rewritesToItself N) \<longrightarrow>
     simpleTransform ctx typeArgs cx type = Inr ([], Some type)"
  "(\<forall>N \<in> set (nodes_QualType type). rewritesToItself N) \<longrightarrow>
     substLambda ctx typeArgs cx type = Inr ([], Some type)"
  "(\<forall>N \<in> set (nodes T). rewritesToItself N) \<longrightarrow>
     Visit ctx typeArgs cx T = Inr ([], Some (unqualified T))"
proof (induction ctx typeArgs cx type and ctx typeArgs cx type and ctx typeArgs cx type
    and ctx typeArgs cx T rule: substObjCTypeArgs_simpleTransform_substLambda_Visit.induct)
  case (1 ctx typeArgs cx type)
  then show ?case by (simp add: substObjCTypeArgs.simps)
next
  case (2 ctx typeArgs cx type)
  show ?case
  proof
    assume ok: "\<forall>N \<in> set (nodes_QualType type). rewritesToItself N"
    with 2(1) have l: "substLambda ctx typeArgs cx type = Inr ([], Some type)" by simp
    have "nodes_QualType type = nodes (getTypePtr type)" by (cases type) simp
    with ok 2(2) [of "Some type" "QualType_split type"]
    have v: "Visit ctx typeArgs cx (getTypePtr type)
        = Inr ([], Some (unqualified (getTypePtr type)))" by simp
    show "simpleTransform ctx typeArgs cx type = Inr ([], Some type)"
      by (simp add: simpleTransform.simps [of ctx typeArgs cx type] l v Let_def)
  qed
next
  case (3 ctx typeArgs cx type)
  show ?case
  proof
    assume ok: "\<forall>N \<in> set (nodes_QualType type). rewritesToItself N"
    obtain T Q where type: "type = QualType T Q" by (cases type)
    from ok type have okT: "\<forall>N \<in> set (nodes T). rewritesToItself N" by simp
    note sl = substLambda.simps [of ctx typeArgs cx type, unfolded Let_def QualType_split_eq]
    show "substLambda ctx typeArgs cx type = Inr ([], Some type)"
    proof (cases T)
      case (ObjCTypeParam D U Protos)
      with okT nodes_self [of T] have False
        by (auto simp: rewritesToItself_def isTypeParamReference_def)
      then show ?thesis ..
    next
      case (FunctionNoProto R)
      with okT have "\<forall>N \<in> set (nodes_QualType R). rewritesToItself N" by simp
      with 3(4) [OF refl, of R] type FunctionNoProto
      have "substObjCTypeArgs ctx typeArgs Result R = Inr ([], Some R)" by simp
      with type FunctionNoProto sl show ?thesis by (simp add: returnR_def)
    next
      case (FunctionProto R Ps EST Exs)
      with okT have okR: "\<forall>N \<in> set (nodes_QualType R). rewritesToItself N"
        and okPs: "\<And>P. P \<in> set Ps \<Longrightarrow> \<forall>N \<in> set (nodes_QualType P). rewritesToItself N"
        and okExs: "\<And>P. P \<in> set Exs \<Longrightarrow> \<forall>N \<in> set (nodes_QualType P). rewritesToItself N"
        by auto
      have r: "substObjCTypeArgs ctx typeArgs Result R = Inr ([], Some R)"
        using 3(1) [OF refl, of R Ps EST Exs] type FunctionProto okR by simp
      have ps: "transformTypes (\<lambda>P. substObjCTypeArgs ctx typeArgs Parameter P) Ps
          = Inr ([], Some (Ps, False))"
        by (rule transformTypes_id)
          (use 3(2) [OF refl, of R Ps EST Exs] type FunctionProto okPs in simp)
      have es: "EST = EST_Dynamic \<Longrightarrow>
          transformTypes (\<lambda>P. substObjCTypeArgs ctx typeArgs Ordinary P) Exs
            = Inr ([], Some (Exs, False))"
        by (rule transformTypes_id)
          (use 3(3) [OF refl, of R Ps EST Exs] type FunctionProto okExs in simp)
      from type FunctionProto r ps es sl show ?thesis
        by (cases "EST = EST_Dynamic") (simp_all add: returnR_def)
    next
      case (ObjCObject B Args Protos K)
      with okT
      have okAs: "\<And>P. P \<in> set Args \<Longrightarrow> \<forall>N \<in> set (nodes_QualType P). rewritesToItself N"
        by auto
      have as: "Args \<noteq> [] \<Longrightarrow>
          substTypeArgsLoop (\<lambda>P. substObjCTypeArgs ctx typeArgs Ordinary P) u Args
            = Inr ([], Completed Args False)" for u
        by (rule substTypeArgsLoop_id)
          (use 3(5) [OF refl, of B Args Protos K] type ObjCObject okAs in simp)
      from type ObjCObject as sl show ?thesis
        by (cases "Args = []") (simp_all add: returnR_def)
    qed (use type sl in \<open>simp_all add: returnR_def\<close>)
  qed
next
  case (4 ctx typeArgs cx T)
  show ?case
  proof
    assume ok: "\<forall>N \<in> set (nodes T). rewritesToItself N"
    note vs = Visit.simps [of ctx typeArgs cx T]
    have self: "rewritesToItself T" using ok nodes_self [of T] by blast
    show "Visit ctx typeArgs cx T = Inr ([], Some (unqualified T))"
    proof (cases T)
      case (FunctionProto R Ps EST Exs)
      with ok have okR: "\<forall>N \<in> set (nodes_QualType R). rewritesToItself N"
        and okPs: "\<And>P. P \<in> set Ps \<Longrightarrow> \<forall>N \<in> set (nodes_QualType P). rewritesToItself N"
        and okExs: "\<And>P. P \<in> set Exs \<Longrightarrow> \<forall>N \<in> set (nodes_QualType P). rewritesToItself N"
        by auto
      have r: "simpleTransform ctx typeArgs cx R = Inr ([], Some R)"
        using 4(12) [OF FunctionProto] okR by simp
      have ps: "transformTypes (\<lambda>P. simpleTransform ctx typeArgs cx P) Ps
          = Inr ([], Some (Ps, False))"
        by (rule transformTypes_id) (use 4(13) [OF FunctionProto] okPs in simp)
      have es: "EST = EST_Dynamic \<Longrightarrow>
          transformTypes (\<lambda>P. simpleTransform ctx typeArgs cx P) Exs
            = Inr ([], Some (Exs, False))"
        by (rule transformTypes_id) (use 4(14) [OF FunctionProto] okExs in simp)
      from FunctionProto r ps es vs show ?thesis
        by (cases "EST = EST_Dynamic") (simp_all add: returnR_def)
    next
      case (ObjCObject B Args Protos K)
      with ok have okB: "\<forall>N \<in> set (nodes_QualType B). rewritesToItself N"
        and okAs: "\<And>P. P \<in> set Args \<Longrightarrow> \<forall>N \<in> set (nodes_QualType P). rewritesToItself N"
        by auto
      have b: "simpleTransform ctx typeArgs cx B = Inr ([], Some B)"
        using 4(24) [OF ObjCObject] okB by simp
      have as: "transformTypes (\<lambda>P. simpleTransform ctx typeArgs cx P) Args
          = Inr ([], Some (Args, False))"
        by (rule transformTypes_id) (use 4(25) [OF ObjCObject] okAs in simp)
      from ObjCObject b as vs show ?thesis by (simp add: returnR_def)
    next
      case (Auto Deduced IsDep)
      show ?thesis
      proof (cases "isDeduced T")
        case False
        with Auto vs show ?thesis by (simp add: returnR_def)
      next
        case True
        with self Auto obtain D where D: "getDeducedType T = Some D"
          by (cases "getDeducedType T")
            (auto simp: rewritesToItself_def isDependentAutoWithoutType_def)
        then have "D = getCanonicalTypeInternal T"
          by (simp add: getDeducedType_def split: if_splits)
        with rewritesToItself_canonical [OF ok]
        have "\<forall>N \<in> set (nodes_QualType D). rewritesToItself N"
          by (simp add: nodes_QualType_eq)
        with 4(23) [OF Auto _ D] True
        have "simpleTransform ctx typeArgs cx D = Inr ([], Some D)" by simp
        with Auto True D vs show ?thesis by (simp add: returnR_def)
      qed
    qed (use 4 ok self vs in
        \<open>simp_all add: returnR_def rewritesToItself_def hasRewriteRule_def\<close>)
  qed
qed

text \<open>
  Identity preservation where the visitor has its rules. When no node of a type is a
  reference to a type parameter, and every node has a rule in the visitor and is not a
  dependent \<open>auto\<close> without deduced type, \<open>substObjCTypeArgs\<close> returns the type
  itself, for every list of type arguments and every substitution context, and asks the
  context to build no node.
\<close>

theorem substObjCTypeArgs_identity:
  assumes "\<forall>N \<in> set (nodes_QualType T). \<not> isTypeParamReference N"
    and "\<forall>N \<in> set (nodes_QualType T). hasRewriteRule N \<and> \<not> isDependentAutoWithoutType N"
  shows "substObjCTypeArgs ctx typeArgs cx T = Inr ([], Some T)"
proof -
  from assms have "\<forall>N \<in> set (nodes_QualType T). rewritesToItself N"
    by (simp add: rewritesToItself_def)
  with rewrite_identity(1) [of T ctx typeArgs cx] show ?thesis by simp
qed

text \<open>
  A \<open>const\<close> pointer to a function with a dynamic exception specification, from
  \<open>int\<close> to a pointer to a specialized object type, under a substitution of \<open>float\<close>.
\<close>

theorem substObjCTypeArgs_identity_witness:
  "substObjCTypeArgs substitutionContext [unqualified (Builtin BT_Float)] Ordinary
     (QualType (Pointer (unqualified (FunctionProto
        (unqualified (ObjCObjectPointer (unqualified
           (ObjCObject (unqualified (ObjCInterface 0)) [unqualified (Builtin BT_Int)] [] False))))
        [unqualified (Builtin BT_Int)] EST_Dynamic [unqualified (Record 0 False)])))
        (Qualifiers Const))
   = Inr ([], Some
     (QualType (Pointer (unqualified (FunctionProto
        (unqualified (ObjCObjectPointer (unqualified
           (ObjCObject (unqualified (ObjCInterface 0)) [unqualified (Builtin BT_Int)] [] False))))
        [unqualified (Builtin BT_Int)] EST_Dynamic [unqualified (Record 0 False)])))
        (Qualifiers Const)))"
proof -
  let ?T = "QualType (Pointer (unqualified (FunctionProto
        (unqualified (ObjCObjectPointer (unqualified
           (ObjCObject (unqualified (ObjCInterface 0)) [unqualified (Builtin BT_Int)] [] False))))
        [unqualified (Builtin BT_Int)] EST_Dynamic [unqualified (Record 0 False)])))
        (Qualifiers Const)"
  have 1: "\<forall>N \<in> set (nodes_QualType ?T). \<not> isTypeParamReference N" by code_simp
  have 2: "\<forall>N \<in> set (nodes_QualType ?T). hasRewriteRule N \<and> \<not> isDependentAutoWithoutType N"
    by code_simp
  show ?thesis by (rule substObjCTypeArgs_identity [OF 1 2])
qed

text \<open>
  Claim C4: a type with no reference to a type parameter is returned as it is. The
  visitor misses the rule for three classes that its sibling rules cover for all the
  others. On a pointer to a type variable no node is a reference to a type parameter, the
  visitor has no rule for the type variable, and the substitution returns the null type
  where the claim has the pointer itself.
\<close>

theorem substObjCTypeArgs_type_variable_null:
  "map getTypeClass (nodes_QualType (unqualified (Pointer (unqualified (TypeVariable 0 0)))))
     = [TC_Pointer, TC_TypeVariable] \<and>
   substObjCTypeArgs substitutionContext [unqualified (Builtin BT_Float)] Ordinary
     (unqualified (Pointer (unqualified (TypeVariable 0 0)))) = Inr ([], None)"
  by code_simp

text \<open>So it does on a pipe of \<open>int\<close>.\<close>

theorem substObjCTypeArgs_pipe:
  "substObjCTypeArgs substitutionContext [] Ordinary (unqualified (Pipe (unqualified (Builtin BT_Int))))
     = Inr ([], None)"
  by code_simp

text \<open>
  On a dependent \<open>auto\<close> without deduced type the rewrite of the deduced type is a
  rewrite of the null type.
\<close>

theorem substObjCTypeArgs_dependent_auto:
  "substObjCTypeArgs substitutionContext [] Ordinary (unqualified (Auto None True))
     = Inl AssertionFailure"
  by code_simp

text \<open>
  A reference to the type parameter is replaced by the type argument, in a new pointer
  node.
\<close>

theorem substObjCTypeArgs_replaces:
  "substObjCTypeArgs substitutionContext [unqualified (Builtin BT_Float)] Ordinary
     (unqualified (Pointer (QualType (ObjCTypeParam 0 (unqualified (Builtin BT_ObjCId)) [])
        (Qualifiers Const))))
   = Inr ([Pointer (QualType (Builtin BT_Float) (Qualifiers Const))],
          Some (unqualified (Pointer (QualType (Builtin BT_Float) (Qualifiers Const)))))"
  by code_simp

end
